(* ===== verification/Emq_Prelude.thy ===== *)
theory Emq_Prelude
  imports Main "HOL-Library.Word" "HOL-Library.Monad_Syntax"
begin

text \<open>
  Shared vocabulary of the development: the integer types of the C code, little-endian
  images of integers (the packed structs of \<^verbatim>\<open>src/src/protocol.h\<close> are sent as they lie in
  memory of a little-endian host), C strings, fixed-width character fields and the three
  string functions of the C library the code uses (\<^verbatim>\<open>strlen\<close>, \<^verbatim>\<open>memcpy\<close>, \<^verbatim>\<open>strcmp\<close>).

  A function of the library that can leave the defined part of C (an overrun, a dangling
  pointer) returns an option, and \<^const>\<open>None\<close> is that undefined behaviour. A sequence of
  calls is a \<open>do\<close> block of the option monad, with the state passed by hand; the last section
  has the rules for such blocks that keep an invariant.
\<close>

unbundle bit_operations_syntax

named_theorems emq_defs \<open>unfolding rules of the small memory and client accessors\<close>
named_theorems emq_wire \<open>byte images of structs and fields\<close>
named_theorems keeps_rules \<open>rules for programs that keep a property, along their text\<close>

type_synonym byte = "8 word"
type_synonym bytes = "byte list"
type_synonym u16 = "16 word"
type_synonym u32 = "32 word"
type_synonym u64 = "64 word"
type_synonym size_t = "64 word"
type_synonym addr = nat
type_synonym ptr = "addr option"

section \<open>Little-endian images of integers\<close>

primrec le_bytes :: "nat \<Rightarrow> 'a::len word \<Rightarrow> bytes" where
  "le_bytes 0 x = []"
| "le_bytes (Suc n) x = ucast x # le_bytes n (drop_bit 8 x)"

primrec le_word :: "bytes \<Rightarrow> 'a::len word" where
  "le_word [] = 0"
| "le_word (b # bs) = ucast b OR push_bit 8 (le_word bs)"

lemma length_le_bytes [simp, emq_wire]: "length (le_bytes n x) = n"
  by (induction n arbitrary: x) auto

lemma le_word_le_bytes_take: "le_word (le_bytes n x) = take_bit (8 * n) x"
proof (induction n arbitrary: x)
  case 0
  then show ?case by simp
next
  case (Suc n)
  then show ?case
    by (auto intro!: bit_word_eqI simp: bit_simps)
qed

lemma le_word_le_bytes [simp, emq_wire]:
  fixes x :: "'a::len word"
  shows "LENGTH('a) \<le> 8 * n \<Longrightarrow> le_word (le_bytes n x) = x"
  by (simp add: le_word_le_bytes_take take_bit_word_eq_self)

lemma le_bytes_le_word:
  "length bs = n \<Longrightarrow> 8 * n \<le> LENGTH('a) \<Longrightarrow> le_bytes n (le_word bs :: 'a::len word) = bs"
proof (induction bs arbitrary: n)
  case Nil
  then show ?case by simp
next
  case (Cons b bs)
  then obtain m where n: "n = Suc m" and m: "length bs = m" by auto
  have fits: "8 * m \<le> LENGTH('a)" "8 \<le> LENGTH('a)" "8 * Suc m \<le> LENGTH('a)"
    using Cons.prems n by auto
  have low: "(ucast (ucast b OR push_bit 8 (le_word bs :: 'a word)) :: byte) = b"
    using fits by (auto intro!: bit_word_eqI simp: bit_simps)
  have high: "drop_bit 8 (ucast b OR push_bit 8 (le_word bs :: 'a word))
      = take_bit (LENGTH('a) - 8) (le_word bs)"
    by (rule bit_word_eqI) (auto simp: bit_simps dest: bit_imp_le_length)
  have small: "\<not> bit (le_word cs :: 'a word) k" if "8 * length cs \<le> k" for cs k
    using that by (induction cs arbitrary: k) (auto simp: bit_simps dest: bit_imp_le_length)
  have "take_bit (LENGTH('a) - 8) (le_word bs :: 'a word) = le_word bs"
  proof (rule bit_word_eqI)
    fix k
    show "bit (take_bit (LENGTH('a) - 8) (le_word bs :: 'a word)) k = bit (le_word bs :: 'a word) k"
      using small [of bs k] fits m by (cases "k < LENGTH('a) - 8") (auto simp: bit_simps)
  qed
  with high have "drop_bit 8 (ucast b OR push_bit 8 (le_word bs :: 'a word)) = le_word bs"
    by simp
  with low Cons.IH [OF m fits(1)] show ?case
    by (simp add: n)
qed

lemma le_bytes_inject:
  fixes x y :: "'a::len word"
  shows "LENGTH('a) \<le> 8 * n \<Longrightarrow> le_bytes n x = le_bytes n y \<longleftrightarrow> x = y"
  by (metis le_word_le_bytes)

section \<open>Conversions between the integer types\<close>

text \<open>A \<open>uint32_t\<close> passed as an \<open>int\<close>.\<close>

lemma sint_u32:
  fixes x :: u32
  shows "sint x = (if unat x < 2 ^ 31 then int (unat x) else int (unat x) - 2 ^ 32)"
proof -
  let ?M = "2147483648 :: int" and ?N = "4294967296 :: int"
  have "uint x < 2 ^ LENGTH(32)" by (rule unsigned_less)
  then have r: "0 \<le> uint x" "uint x < ?N" by simp_all
  have "sint x = (uint x + ?M) mod ?N - ?M"
    by (simp add: sint_uint signed_take_bit_eq_take_bit_shift take_bit_eq_mod)
  also have "\<dots> = (if uint x < ?M then uint x else uint x - ?N)"
  proof (cases "uint x < ?M")
    case True
    with r have "(uint x + ?M) mod ?N = uint x + ?M"
      by (intro mod_pos_pos_trivial) linarith+
    with True show ?thesis by simp
  next
    case False
    have shift: "uint x + ?M = uint x - ?M + ?N" by linarith
    have "(uint x + ?M) mod ?N = (uint x - ?M + ?N) mod ?N" by (simp only: shift)
    also have "\<dots> = (uint x - ?M) mod ?N" by (rule mod_add_self2)
    also have "\<dots> = uint x - ?M" using False r by (intro mod_pos_pos_trivial) linarith+
    finally have "(uint x + ?M) mod ?N - ?M = uint x - ?N" by linarith
    with False show ?thesis by (simp only: if_False)
  qed
  finally have "sint x = (if uint x < ?M then uint x else uint x - ?N)" .
  moreover have "unat x < 2147483648 \<longleftrightarrow> uint x < ?M"
    unfolding unat_eq_nat_uint using nat_less_iff [OF r(1), of 2147483648] by (simp only: of_nat_numeral)
  ultimately show ?thesis by simp
qed
lemma unat_ucast_u32: "unat (x :: u64) < 2 ^ 32 \<Longrightarrow> unat (ucast x :: u32) = unat x"
  by (simp add: unsigned_ucast_eq take_bit_nat_eq_self)

lemma unat_u32_lt: "unat (x :: u32) < 2 ^ 32"
  using unsigned_less [of x] by simp

lemma unat_ucast_u64 [simp]: "unat (ucast (x :: u32) :: u64) = unat x"
  using less_trans [OF unat_u32_lt [of x], of "2 ^ 64"]
  by (simp add: unsigned_ucast_eq take_bit_nat_eq_self)

lemma int_eq_sint_u32: "int n = sint (x :: u32) \<Longrightarrow> n = unat x \<and> unat x < 2 ^ 31"
  using unat_u32_lt [of x] by (simp add: sint_u32 del: of_nat_unat split: if_splits)

lemma sint_u32_small: "unat (x :: u32) < 2 ^ 31 \<Longrightarrow> sint x = int (unat x)"
  by (simp add: sint_u32)

section \<open>C strings and character fields\<close>

text \<open>
  A \<open>const char *\<close> argument is the list of bytes at the pointer; what the string
  functions see of it is the part before the first NUL. A list without a NUL stands for
  the string followed by its terminator.
\<close>

definition cstr :: "bytes \<Rightarrow> bytes" where
  "cstr s = takeWhile (\<lambda>b. b \<noteq> 0) s"

definition cstrz :: "bytes \<Rightarrow> bytes" where
  "cstrz s = cstr s @ [0]"

definition strlenz :: "bytes \<Rightarrow> nat" where
  "strlenz s = length (cstr s) + 1"

definition memcpy :: "bytes \<Rightarrow> bytes \<Rightarrow> bytes option" where
  "memcpy dst src = (if length src \<le> length dst then Some (src @ drop (length src) dst) else None)"

text \<open>
  \<open>!strcmp(a, b)\<close> on two byte arrays: the scan stops at the first difference or at a NUL
  in both, and running off the end of either array is undefined behaviour.
\<close>

fun strcmp_eq :: "bytes \<Rightarrow> bytes \<Rightarrow> bool option" where
  "strcmp_eq [] _ = None"
| "strcmp_eq (x # xs) [] = None"
| "strcmp_eq (x # xs) (y # ys) =
     (if x \<noteq> y then Some False else if x = 0 then Some True else strcmp_eq xs ys)"

text \<open>The contents of a zeroed \<open>char[n]\<close> field after a string was copied into it.\<close>

definition zfield :: "nat \<Rightarrow> bytes \<Rightarrow> bytes" where
  "zfield n s = cstr s @ replicate (n - length (cstr s)) 0"

text \<open>The bytes of a string literal of the program.\<close>

definition ascii :: "string \<Rightarrow> bytes" where
  "ascii s = map of_char s"

lemma length_cstrz [simp]: "length (cstrz s) = strlenz s"
  by (simp add: cstrz_def strlenz_def)

lemma strlenz_pos [simp]: "0 < strlenz s"
  by (simp add: strlenz_def)

lemma cstr_no_nul: "0 \<notin> set (cstr s)"
  by (auto simp: cstr_def dest: set_takeWhileD)

lemma takeWhile_no_nul: "0 \<notin> set (xs :: bytes) \<Longrightarrow> takeWhile (\<lambda>b. b \<noteq> 0) (xs @ ys) = xs @ takeWhile (\<lambda>b. b \<noteq> 0) ys"
  by (induction xs) auto

lemma cstr_append_nul: "cstr (cstr s @ replicate k 0) = cstr s"
proof -
  have "takeWhile (\<lambda>b. b \<noteq> 0) (replicate k (0 :: byte)) = []"
    by (cases k) simp_all
  then show ?thesis
    unfolding cstr_def [of "cstr s @ _"] by (simp add: takeWhile_no_nul cstr_no_nul)
qed

lemma cstr_cstr [simp]: "cstr (cstr s) = cstr s"
  using cstr_append_nul [of s 0] by simp

lemma cstr_cstrz [simp]: "cstr (cstrz s) = cstr s"
  using cstr_append_nul [of s 1] by (simp add: cstrz_def)

lemma cstr_zfield [simp, emq_wire]: "cstr (zfield n s) = cstr s"
  by (simp add: zfield_def cstr_append_nul)

lemma nul_in_cstrz [simp]: "0 \<in> set (cstrz s)"
  by (simp add: cstrz_def)

lemma length_zfield [simp, emq_wire]: "strlenz s \<le> n \<Longrightarrow> length (zfield n s) = n"
  by (simp add: zfield_def strlenz_def)

lemma nul_in_zfield [simp]: "strlenz s \<le> n \<Longrightarrow> 0 \<in> set (zfield n s)"
  by (auto simp: zfield_def strlenz_def)

lemma memcpy_zfield [simp]:
  "strlenz s \<le> n \<Longrightarrow> memcpy (replicate n 0) (cstrz s) = Some (zfield n s)"
  by (simp add: memcpy_def zfield_def cstrz_def strlenz_def replicate_append_same
      flip: replicate_Suc)

lemma memcpy_overrun: "length dst < length src \<Longrightarrow> memcpy dst src = None"
  by (simp add: memcpy_def)

lemma strcmp_eq_cstr:
  "0 \<in> set a \<Longrightarrow> 0 \<in> set b \<or> length a \<le> length b \<Longrightarrow> strcmp_eq a b = Some (cstr a = cstr b)"
  by (induction a b rule: strcmp_eq.induct) (auto simp: cstr_def)

section \<open>Options\<close>

lemma bind_Some_iff [simp]: "Option.bind (Some x) f = f x"
  by simp

lemma restrict_map_UNIV [simp]: "m |` UNIV = m"
  by (rule ext) (simp add: restrict_map_def)

lemma those_map_Some [simp]: "those (map Some xs) = Some xs"
  by (induction xs) auto

section \<open>Programs that keep a property\<close>

text \<open>
  \<open>keeps P f\<close>: from a state with \<open>P\<close> the program \<open>f\<close> is defined and ends in a state with \<open>P\<close>, with
  any result; \<open>keeps_state\<close> is the same for a program without a result. The rules follow the
  text of a program.
\<close>

definition keeps :: "('w \<Rightarrow> bool) \<Rightarrow> ('w \<Rightarrow> ('r \<times> 'w) option) \<Rightarrow> bool" where
  "keeps P f \<longleftrightarrow> (\<forall>w. P w \<longrightarrow> (\<exists>r w'. f w = Some (r, w') \<and> P w'))"

definition keeps_state :: "('w \<Rightarrow> bool) \<Rightarrow> ('w \<Rightarrow> 'w option) \<Rightarrow> bool" where
  "keeps_state P f \<longleftrightarrow> (\<forall>w. P w \<longrightarrow> (\<exists>w'. f w = Some w' \<and> P w'))"

lemma keeps_bind [keeps_rules]:
  "keeps P f \<Longrightarrow> (\<And>r. keeps P (g r)) \<Longrightarrow> keeps P (\<lambda>w. Option.bind (f w) (\<lambda>(r, w). g r w))"
  unfolding keeps_def by fastforce

lemma keeps_bind_state [keeps_rules]:
  "keeps P f \<Longrightarrow> (\<And>r. keeps_state P (g r)) \<Longrightarrow> keeps_state P (\<lambda>w. Option.bind (f w) (\<lambda>(r, w). g r w))"
  unfolding keeps_def keeps_state_def by fastforce

lemma keeps_state_bind [keeps_rules]:
  "keeps_state P f \<Longrightarrow> keeps_state P g \<Longrightarrow> keeps_state P (\<lambda>w. Option.bind (f w) g)"
  unfolding keeps_state_def by fastforce

lemma keeps_bind_then [keeps_rules]:
  "keeps_state P f \<Longrightarrow> keeps P g \<Longrightarrow> keeps P (\<lambda>w. Option.bind (f w) g)"
  unfolding keeps_def keeps_state_def by fastforce

lemma keeps_state_done [keeps_rules]: "keeps_state P Some"
  by (simp add: keeps_state_def)

lemma keeps_done [keeps_rules]: "keeps P (\<lambda>w. Some (r, w))"
  by (simp add: keeps_def)

lemma keeps_if [keeps_rules]:
  "(b \<Longrightarrow> keeps P f) \<Longrightarrow> (\<not> b \<Longrightarrow> keeps P g) \<Longrightarrow> keeps P (\<lambda>w. if b then f w else g w)"
  by (cases b) simp_all

lemma keeps_state_if [keeps_rules]:
  "(b \<Longrightarrow> keeps_state P f) \<Longrightarrow> (\<not> b \<Longrightarrow> keeps_state P g) \<Longrightarrow> keeps_state P (\<lambda>w. if b then f w else g w)"
  by (cases b) simp_all

text \<open>\<open>ends P Q f\<close>: from a state with \<open>P\<close> the program is defined and ends in a state with \<open>Q\<close>.\<close>

definition ends :: "('w \<Rightarrow> bool) \<Rightarrow> ('w \<Rightarrow> bool) \<Rightarrow> ('w \<Rightarrow> ('r \<times> 'w) option) \<Rightarrow> bool" where
  "ends P Q f \<longleftrightarrow> (\<forall>w. P w \<longrightarrow> (\<exists>r w'. f w = Some (r, w') \<and> Q w'))"

lemma ends_bind:
  "keeps P f \<Longrightarrow> (\<And>r. ends P Q (g r)) \<Longrightarrow> ends P Q (\<lambda>w. Option.bind (f w) (\<lambda>(r, w). g r w))"
  unfolding keeps_def ends_def by fastforce

lemma ends_if:
  "(b \<Longrightarrow> ends P Q f) \<Longrightarrow> (\<not> b \<Longrightarrow> ends P Q g) \<Longrightarrow> ends P Q (\<lambda>w. if b then f w else g w)"
  by (cases b) simp_all

lemma ends_last:
  "(\<And>w. P w \<Longrightarrow> \<exists>w'. f w = Some w' \<and> Q w') \<Longrightarrow> ends P Q (\<lambda>w. Option.bind (f w) (\<lambda>w. Some (r, w)))"
  unfolding ends_def by fastforce

lemma endsD: "ends P Q f \<Longrightarrow> P w \<Longrightarrow> \<exists>r w'. f w = Some (r, w') \<and> Q w'"
  by (simp add: ends_def)

text \<open>\<open>for (i = 0; i < n; i++) body\<close>.\<close>

primrec for_times :: "nat \<Rightarrow> ('w \<Rightarrow> 'w option) \<Rightarrow> 'w \<Rightarrow> 'w option" where
  "for_times 0 body w = Some w"
| "for_times (Suc n) body w = do {
     w \<leftarrow> body w;
     for_times n body w }"

lemma keeps_for_times [keeps_rules]: "keeps_state P body \<Longrightarrow> keeps_state P (for_times n body)"
proof (induction n)
  case (Suc n)
  have "for_times (Suc n) body = (\<lambda>w. Option.bind (body w) (for_times n body))" by (rule ext) simp
  with Suc show ?case by (simp add: keeps_state_bind)
qed (simp add: keeps_state_def)

lemma keeps_stateD: "keeps_state P f \<Longrightarrow> P w \<Longrightarrow> \<exists>w'. f w = Some w' \<and> P w'"
  by (simp add: keeps_state_def)

lemma keepsD: "keeps P f \<Longrightarrow> P w \<Longrightarrow> \<exists>r w'. f w = Some (r, w') \<and> P w'"
  by (simp add: keeps_def)

end
