(* ===== verification/Emq_State.thy ===== *)
theory Emq_State
  imports Emq_Prelude
begin

text \<open>
  The data types of \<^verbatim>\<open>src/src/emq.h\<close> and the memory and environment they live in.

  Memory is one partial map per C type, from addresses to values, so a pointer of the wrong
  type or a dangling one finds nothing there. \<open>malloc\<close> takes a fresh address each time
  (\<open>brk\<close> counts the calls, successful or not) and the environment decides which calls
  succeed (\<open>alloc_ok\<close>). Addresses are never reused, so every use after a free and every
  double free is visible as \<^const>\<open>None\<close>.
\<close>

section \<open>Constants of emq.h\<close>

definition EMQ_STATUS_OK :: int where "EMQ_STATUS_OK = 0"
definition EMQ_STATUS_ERR :: int where "EMQ_STATUS_ERR = -1"

definition EMQ_VERSION_MAJOR :: int where "EMQ_VERSION_MAJOR = 1"
definition EMQ_VERSION_MINOR :: int where "EMQ_VERSION_MINOR = 3"

definition EMQ_VERSION :: "int \<Rightarrow> int \<Rightarrow> int" where
  "EMQ_VERSION major minor = major * 10 + minor"

definition EMQ_ERROR_BUF_SIZE :: nat where "EMQ_ERROR_BUF_SIZE = 256"
definition EMQ_DEFAULT_REQUEST_SIZE :: nat where "EMQ_DEFAULT_REQUEST_SIZE = 4096"
definition EMQ_MAX_REQUEST_SIZE :: nat where "EMQ_MAX_REQUEST_SIZE = 2147483647"

definition EMQ_CALLBACK_QUEUE :: int where "EMQ_CALLBACK_QUEUE = 1"
definition EMQ_CALLBACK_CHANNEL :: int where "EMQ_CALLBACK_CHANNEL = 2"

definition EMQ_ZEROCOPY_ON :: int where "EMQ_ZEROCOPY_ON = 1"
definition EMQ_ZEROCOPY_OFF :: int where "EMQ_ZEROCOPY_OFF = 0"

text \<open>The \<open>EMQ_ERROR_*\<close> codes, in the order of their values 0 to 12.\<close>

datatype emq_error =
    EMQ_ERROR_NONE | EMQ_ERROR_ALLOC | EMQ_ERROR_DATA | EMQ_ERROR_WRITE | EMQ_ERROR_READ
  | EMQ_ERROR_RESPONSE | EMQ_ERROR_PACKET | EMQ_ERROR_COMMAND | EMQ_ERROR_ACCESS
  | EMQ_ERROR_MEMORY | EMQ_ERROR_NOT_DECLARED | EMQ_ERROR_NOT_FOUND | EMQ_ERROR_NO_DATA

fun error_code :: "emq_error \<Rightarrow> nat" where
  "error_code EMQ_ERROR_NONE = 0"
| "error_code EMQ_ERROR_ALLOC = 1"
| "error_code EMQ_ERROR_DATA = 2"
| "error_code EMQ_ERROR_WRITE = 3"
| "error_code EMQ_ERROR_READ = 4"
| "error_code EMQ_ERROR_RESPONSE = 5"
| "error_code EMQ_ERROR_PACKET = 6"
| "error_code EMQ_ERROR_COMMAND = 7"
| "error_code EMQ_ERROR_ACCESS = 8"
| "error_code EMQ_ERROR_MEMORY = 9"
| "error_code EMQ_ERROR_NOT_DECLARED = 10"
| "error_code EMQ_ERROR_NOT_FOUND = 11"
| "error_code EMQ_ERROR_NO_DATA = 12"

section \<open>Structs of emq.h and of emq.c\<close>

record emq_list_node =
  node_prev :: ptr
  node_next :: ptr
  node_value :: addr

text \<open>
  The \<open>free\<close> method of a list is one of the seven handlers of \<^verbatim>\<open>emq.c\<close>; each of them
  passes the value on to \<open>free\<close>.
\<close>

datatype free_handler =
    emq_user_list_free_handler
  | emq_queue_list_free_handler
  | emq_route_list_free_handler
  | emq_channel_list_free_handler
  | emq_route_key_list_free_handler
  | emq_queue_subscription_list_free_handler
  | emq_channel_subscription_list_free_handler

record emq_list =
  list_head :: ptr
  list_tail :: ptr
  list_length :: nat
  list_free :: "free_handler option"

record emq_client =
  c_status :: int
  c_error :: string
  c_request :: ptr
  c_size :: nat
  c_pos :: nat
  c_noack :: int
  c_fd :: int
  c_queue_subscriptions :: ptr
  c_channel_subscriptions :: ptr

record emq_user =
  user_name :: bytes
  user_password :: bytes
  user_perm :: u64

record emq_queue =
  queue_name :: bytes
  queue_max_msg :: u32
  queue_max_msg_size :: u32
  queue_flags :: u32
  queue_size :: u32
  queue_declared_clients :: u32
  queue_subscribed_clients :: u32

record emq_route =
  route_name :: bytes
  route_flags :: u32
  route_keys :: u32

record emq_route_key =
  rk_key :: bytes
  rk_queue :: bytes

record emq_channel =
  channel_name :: bytes
  channel_flags :: u32
  channel_topics :: u32
  channel_patterns :: u32

text \<open>
  A message: \<open>m_data\<close> points to a character block and \<open>m_zero_copy\<close> is
  \<^const>\<open>None\<close> while that member has not been written.
\<close>

record emq_msg =
  m_data :: ptr
  m_size :: size_t
  m_tag :: u64
  m_expire :: u32
  m_zero_copy :: "int option"

text \<open>A callback is the identity of the user's function; \<^const>\<open>None\<close> is the null pointer.\<close>

type_synonym callback = nat

record emq_queue_subscription =
  qs_name :: bytes
  qs_callback :: callback

record emq_channel_subscription =
  cs_name :: bytes
  cs_channel :: bytes
  cs_callback :: callback

text \<open>What the \<open>void *value\<close> of a list node points to.\<close>

datatype emq_object =
    User emq_user
  | Queue emq_queue
  | Route emq_route
  | RouteKey emq_route_key
  | Channel emq_channel
  | QueueSubscription emq_queue_subscription
  | ChannelSubscription emq_channel_subscription

section \<open>The environment: sockets and system calls\<close>

text \<open>
  Each \<open>read\<close> and each \<open>write\<close> on a connection has an outcome chosen by the
  environment: at most so many bytes, or an error. \<open>incoming\<close> is what the server sends
  before it closes the connection, \<open>outgoing\<close> what the kernel took from the client. So the
  stream is finite and a \<open>read\<close> at its end finds the end of the file: no \<open>read\<close> of the model waits
  for a server that keeps the connection open.
\<close>

datatype errno = EINTR | EOTHER

datatype io_event = Io nat | Io_error errno

record socket =
  incoming :: bytes
  rd_script :: "nat \<Rightarrow> io_event"
  rd_pos :: nat
  outgoing :: bytes
  wr_script :: "nat \<Rightarrow> io_event"
  wr_pos :: nat

record world =
  clients :: "addr \<rightharpoonup> emq_client"
  list_hdrs :: "addr \<rightharpoonup> emq_list"
  nodes :: "addr \<rightharpoonup> emq_list_node"
  objs :: "addr \<rightharpoonup> emq_object"
  msgs :: "addr \<rightharpoonup> emq_msg"
  bufs :: "addr \<rightharpoonup> byte option list"
  brk :: addr
  alloc_ok :: "nat \<Rightarrow> bool"
  socks :: "int \<rightharpoonup> socket"
  sys_ok :: "nat \<Rightarrow> bool"
  sys_pos :: nat
  sys_errtext :: "nat \<Rightarrow> string"
  next_fd :: nat
  peer :: "int \<Rightarrow> socket"
  message_counter :: int

section \<open>Memory operations\<close>

definition deref :: "('a \<rightharpoonup> 'b) \<Rightarrow> 'a option \<Rightarrow> 'b option" where
  "deref m p = (case p of None \<Rightarrow> None | Some a \<Rightarrow> m a)"

text \<open>No allocation can be larger than \<open>PTRDIFF_MAX\<close>.\<close>

definition malloc :: "nat \<Rightarrow> world \<Rightarrow> ptr \<times> world" where
  "malloc n w =
     (if n < 2 ^ 63 \<and> alloc_ok w (brk w) then Some (brk w) else None, w\<lparr>brk := Suc (brk w)\<rparr>)"

definition free_at :: "('a \<rightharpoonup> 'b) \<Rightarrow> 'a option \<Rightarrow> ('a \<rightharpoonup> 'b) option" where
  "free_at m p = (case p of None \<Rightarrow> Some m
     | Some a \<Rightarrow> (case m a of None \<Rightarrow> None | Some _ \<Rightarrow> Some (m(a := None))))"

definition get_client :: "ptr \<Rightarrow> world \<Rightarrow> emq_client option" where
  "get_client p w = deref (clients w) p"

definition put_client :: "ptr \<Rightarrow> emq_client \<Rightarrow> world \<Rightarrow> world option" where
  "put_client p c w = (case p of None \<Rightarrow> None
     | Some a \<Rightarrow> (case clients w a of None \<Rightarrow> None
         | Some _ \<Rightarrow> Some (w\<lparr>clients := (clients w)(a \<mapsto> c)\<rparr>)))"

definition free_obj :: "ptr \<Rightarrow> world \<Rightarrow> world option" where
  "free_obj p w = map_option (\<lambda>m. w\<lparr>objs := m\<rparr>) (free_at (objs w) p)"

definition free_node :: "ptr \<Rightarrow> world \<Rightarrow> world option" where
  "free_node p w = map_option (\<lambda>m. w\<lparr>nodes := m\<rparr>) (free_at (nodes w) p)"

definition free_list :: "ptr \<Rightarrow> world \<Rightarrow> world option" where
  "free_list p w = map_option (\<lambda>m. w\<lparr>list_hdrs := m\<rparr>) (free_at (list_hdrs w) p)"

definition free_client :: "ptr \<Rightarrow> world \<Rightarrow> world option" where
  "free_client p w = map_option (\<lambda>m. w\<lparr>clients := m\<rparr>) (free_at (clients w) p)"

definition free_buf :: "ptr \<Rightarrow> world \<Rightarrow> world option" where
  "free_buf p w = map_option (\<lambda>m. w\<lparr>bufs := m\<rparr>) (free_at (bufs w) p)"

definition free_msg :: "ptr \<Rightarrow> world \<Rightarrow> world option" where
  "free_msg p w = map_option (\<lambda>m. w\<lparr>msgs := m\<rparr>) (free_at (msgs w) p)"

text \<open>
  Character blocks: \<open>buf_alloc\<close> is \<open>malloc\<close> of \<open>n\<close> uninitialised bytes,
  \<open>buf_store\<close> and \<open>buf_load\<close> copy to and from an offset; a block too small and a read of
  a byte never written are undefined.
\<close>

definition buf_alloc :: "nat \<Rightarrow> world \<Rightarrow> ptr \<times> world" where
  "buf_alloc n w = (case malloc n w of
     (None, w) \<Rightarrow> (None, w)
   | (Some a, w) \<Rightarrow> (Some a, w\<lparr>bufs := (bufs w)(a \<mapsto> replicate n None)\<rparr>))"

definition buf_store :: "ptr \<Rightarrow> nat \<Rightarrow> bytes \<Rightarrow> world \<Rightarrow> world option" where
  "buf_store p off bs w = (case p of None \<Rightarrow> None
     | Some a \<Rightarrow> (case bufs w a of None \<Rightarrow> None
         | Some b \<Rightarrow>
             if off + length bs \<le> length b
             then Some (w\<lparr>bufs := (bufs w)(a \<mapsto>
                    take off b @ map Some bs @ drop (off + length bs) b)\<rparr>)
             else None))"

definition buf_load :: "ptr \<Rightarrow> nat \<Rightarrow> nat \<Rightarrow> world \<Rightarrow> bytes option" where
  "buf_load p off n w = (case deref (bufs w) p of None \<Rightarrow> None
     | Some b \<Rightarrow> if off + n \<le> length b then those (take n (drop off b)) else None)"

lemmas mem_defs = deref_def malloc_def free_at_def get_client_def put_client_def free_obj_def
  free_node_def free_list_def free_client_def free_buf_def free_msg_def buf_alloc_def
  buf_store_def buf_load_def

lemma deref_simps [simp]: "deref m None = None" "deref m (Some a) = m a"
  by (simp_all add: deref_def)

lemma get_client_Some [simp]: "get_client (Some a) w = clients w a"
  by (simp add: get_client_def)

lemma put_client_Some [simp]:
  "clients w a = Some c \<Longrightarrow> put_client (Some a) c' w = Some (w\<lparr>clients := (clients w)(a \<mapsto> c')\<rparr>)"
  by (simp add: put_client_def)

lemma free_at_Some [simp]: "m a = Some v \<Longrightarrow> free_at m (Some a) = Some (m(a := None))"
  by (simp add: free_at_def)

lemma free_at_None [simp]: "free_at m None = Some m"
  by (simp add: free_at_def)

lemma buf_load_prefix:
  "bufs w a = Some (map Some bs @ rest) \<Longrightarrow> buf_load (Some a) 0 (length bs) w = Some bs"
  by (simp add: buf_load_def)

lemma buf_store_zero [simp]:
  "bufs w a = Some b \<Longrightarrow> length bs \<le> length b \<Longrightarrow>
   buf_store (Some a) 0 bs w = Some (w\<lparr>bufs := (bufs w)(a \<mapsto> map Some bs @ drop (length bs) b)\<rparr>)"
  by (simp add: buf_store_def)

end
