(* ===== verification/Emq_Network.thy ===== *)
theory Emq_Network
  imports Emq_State
begin

text \<open>
  \<^verbatim>\<open>src/src/network.c\<close>: the system calls it uses, as functions of the environment, the
  read and write loops over them, and the two ways to connect.

  The lemmas say what the loops make of an arbitrary sequence of short reads, short writes
  and errors: bytes are never lost, repeated or reordered, a read that succeeds has the
  requested length, and when the environment does make progress the loops finish.
\<close>

definition EMQ_NET_OK :: int where "EMQ_NET_OK = 0"
definition EMQ_NET_ERR :: int where "EMQ_NET_ERR = -1"

section \<open>System calls\<close>

definition set_sock :: "int \<Rightarrow> socket \<Rightarrow> world \<Rightarrow> world" where
  "set_sock fd s w = w\<lparr>socks := (socks w)(fd \<mapsto> s)\<rparr>"

lemma socks_set_sock [simp]: "socks (set_sock fd s w) fd' = (if fd' = fd then Some s else socks w fd')"
  by (simp add: set_sock_def)

lemma set_sock_twice [simp]: "set_sock fd s (set_sock fd t w) = set_sock fd s w"
  by (simp add: set_sock_def)

lemma set_sock_same: "socks w fd = Some s \<Longrightarrow> set_sock fd s w = w"
  by (simp add: set_sock_def fun_upd_idem)

lemma set_sock_fields [simp]:
  "clients (set_sock fd s w) = clients w" "list_hdrs (set_sock fd s w) = list_hdrs w"
  "nodes (set_sock fd s w) = nodes w" "objs (set_sock fd s w) = objs w"
  "msgs (set_sock fd s w) = msgs w" "bufs (set_sock fd s w) = bufs w"
  "brk (set_sock fd s w) = brk w" "alloc_ok (set_sock fd s w) = alloc_ok w"
  "get_client p (set_sock fd s w) = get_client p w"
  by (simp_all add: set_sock_def get_client_def)

text \<open>
  \<open>read(fd, buf, n)\<close>. A negative \<open>int\<close> count reaches the call as a \<open>size_t\<close> above
  \<open>SSIZE_MAX\<close>, which the kernel refuses.
\<close>

definition sys_read :: "int \<Rightarrow> int \<Rightarrow> world \<Rightarrow> int \<times> bytes \<times> world" where
  "sys_read fd n w =
     (case socks w fd of
        None \<Rightarrow> (-1, [], w)
      | Some s \<Rightarrow>
          if n < 0 then (-1, [], w)
          else (let s1 = s\<lparr>rd_pos := Suc (rd_pos s)\<rparr> in
            case rd_script s (rd_pos s) of
              Io_error _ \<Rightarrow> (-1, [], set_sock fd s1 w)
            | Io k \<Rightarrow>
                let m = min (min k (nat n)) (length (incoming s)) in
                (int m, take m (incoming s),
                 set_sock fd (s1\<lparr>incoming := drop m (incoming s)\<rparr>) w)))"

text \<open>\<open>write\<close> and \<open>writev\<close> of the given bytes; the second component is \<open>errno\<close>.\<close>

definition sys_write :: "int \<Rightarrow> bytes \<Rightarrow> world \<Rightarrow> int \<times> errno \<times> world" where
  "sys_write fd bs w =
     (case socks w fd of
        None \<Rightarrow> (-1, EOTHER, w)
      | Some s \<Rightarrow>
          (let s1 = s\<lparr>wr_pos := Suc (wr_pos s)\<rparr> in
            case wr_script s (wr_pos s) of
              Io_error e \<Rightarrow> (-1, e, set_sock fd s1 w)
            | Io k \<Rightarrow>
                let m = min k (length bs) in
                (int m, EOTHER,
                 set_sock fd (s1\<lparr>outgoing := outgoing s @ take m bs\<rparr>) w)))"

definition sys_close :: "int \<Rightarrow> world \<Rightarrow> world" where
  "sys_close fd w = w\<lparr>socks := (socks w)(fd := None)\<rparr>"

text \<open>The outcome of the next call among the ones that set a connection up.\<close>

definition sys_call :: "world \<Rightarrow> bool \<times> string \<times> world" where
  "sys_call w = (sys_ok w (sys_pos w), sys_errtext w (sys_pos w), w\<lparr>sys_pos := Suc (sys_pos w)\<rparr>)"

definition sys_open :: "world \<Rightarrow> int \<times> world" where
  "sys_open w = (int (next_fd w),
     w\<lparr>next_fd := Suc (next_fd w), socks := (socks w)(int (next_fd w) \<mapsto> peer w (int (next_fd w)))\<rparr>)"

section \<open>Connecting\<close>

definition net_set_error :: "ptr \<Rightarrow> string \<Rightarrow> world \<Rightarrow> world option" where
  "net_set_error client msg w = do {
     c \<leftarrow> get_client client w;
     put_client client (c\<lparr>c_error := take (EMQ_ERROR_BUF_SIZE - 1) msg\<rparr>) w }"

definition net_create_socket :: "ptr \<Rightarrow> world \<Rightarrow> (int \<times> world) option" where
  "net_create_socket client w = (
     let (ok, text, w) = sys_call w in
     if \<not> ok then do {
       w \<leftarrow> net_set_error client (''socket: '' @ text) w;
       Some (EMQ_NET_ERR, w) }
     else
       let (sock, w) = sys_open w; (ok, text, w) = sys_call w in
       if \<not> ok then do {
         w \<leftarrow> net_set_error client (''setsockopt: '' @ text) w;
         Some (EMQ_NET_ERR, w) }
       else Some (sock, w))"

definition net_tcp_nodelay :: "ptr \<Rightarrow> int \<Rightarrow> world \<Rightarrow> (int \<times> world) option" where
  "net_tcp_nodelay client fd w = (
     let (ok, text, w) = sys_call w in
     if \<not> ok then do {
       w \<leftarrow> net_set_error client (''setsockopt: '' @ text) w;
       Some (EMQ_NET_ERR, w) }
     else Some (EMQ_NET_OK, w))"

definition set_fd :: "ptr \<Rightarrow> int \<Rightarrow> world \<Rightarrow> world option" where
  "set_fd client fd w = do {
     c \<leftarrow> get_client client w;
     put_client client (c\<lparr>c_fd := fd\<rparr>) w }"

definition emq_client_tcp_connect :: "ptr \<Rightarrow> string \<Rightarrow> world \<Rightarrow> (int \<times> world) option" where
  "emq_client_tcp_connect client addr w = do {
     (fd, w) \<leftarrow> net_create_socket client w;
     w \<leftarrow> set_fd client fd w;
     if fd = EMQ_NET_ERR then Some (EMQ_NET_ERR, w)
     else do {
       let (is_ip, _, w) = sys_call w;
       let (resolved, w) = (if is_ip then (True, w) else let (ok, _, w) = sys_call w in (ok, w));
       if \<not> resolved then do {
         w \<leftarrow> net_set_error client (''can't resolve: '' @ addr) w;
         Some (EMQ_NET_ERR, sys_close fd w) }
       else do {
         let (connected, text, w) = sys_call w;
         if \<not> connected then do {
           w \<leftarrow> net_set_error client (''connect: '' @ text) w;
           Some (EMQ_NET_ERR, sys_close fd w) }
         else do {
           (r, w) \<leftarrow> net_tcp_nodelay client fd w;
           if r = EMQ_NET_ERR then Some (EMQ_NET_ERR, sys_close fd w)
           else Some (EMQ_NET_OK, w) } } } }"

definition emq_client_unix_connect :: "ptr \<Rightarrow> world \<Rightarrow> (int \<times> world) option" where
  "emq_client_unix_connect client w = do {
     (fd, w) \<leftarrow> net_create_socket client w;
     w \<leftarrow> set_fd client fd w;
     if fd = EMQ_NET_ERR then Some (EMQ_NET_ERR, w)
     else do {
       let (connected, text, w) = sys_call w;
       if \<not> connected then do {
         w \<leftarrow> net_set_error client (''connect: '' @ text) w;
         Some (EMQ_NET_ERR, sys_close fd w) }
       else Some (EMQ_NET_OK, w) } }"

definition emq_client_disconnect :: "ptr \<Rightarrow> world \<Rightarrow> world option" where
  "emq_client_disconnect client w = do {
     c \<leftarrow> get_client client w;
     Some (sys_close (c_fd c) w) }"

section \<open>The read and write loops\<close>

lemma sys_read_le: "sys_read fd n w = (r, bs, w') \<Longrightarrow> r = -1 \<or> (0 \<le> n \<and> 0 \<le> r \<and> r \<le> n)"
  by (auto simp: sys_read_def Let_def split: option.splits io_event.splits if_splits)

lemma sys_write_le: "sys_write fd bs w = (r, e, w') \<Longrightarrow> r = -1 \<or> (0 \<le> r \<and> r \<le> int (length bs))"
  by (auto simp: sys_write_def Let_def split: option.splits io_event.splits if_splits)

text \<open>
  \<open>emq_client_read\<close>: \<open>totlen\<close> bytes are in the caller's buffer (\<open>buf\<close>) so far. The third
  component of the result is what the buffer received, also when the call fails.
\<close>

function read_loop :: "int \<Rightarrow> int \<Rightarrow> int \<Rightarrow> bytes \<Rightarrow> world \<Rightarrow> int \<times> bytes \<times> world" where
  "read_loop fd count totlen buf w =
     (if totlen = count then (totlen, buf, w)
      else case sys_read fd (count - totlen) w of (nread, bs, w') \<Rightarrow>
        if nread = -1 \<or> nread = 0 then (-1, buf, w')
        else read_loop fd count (totlen + nread) (buf @ bs) w')"
  by pat_completeness auto
termination
  by (relation "measure (\<lambda>(fd, count, totlen, buf, w). nat (count - totlen))")
    (auto dest!: sys_read_le [OF sym])

declare read_loop.simps [simp del]

definition emq_client_read :: "ptr \<Rightarrow> int \<Rightarrow> world \<Rightarrow> (int \<times> bytes \<times> world) option" where
  "emq_client_read client count w = do {
     c \<leftarrow> get_client client w;
     Some (read_loop (c_fd c) count 0 [] w) }"

text \<open>\<open>buf\<close> is what is left to write, from the buffer pointer to the end of the request.\<close>

function write_loop :: "int \<Rightarrow> int \<Rightarrow> int \<Rightarrow> bytes \<Rightarrow> world \<Rightarrow> int \<times> world" where
  "write_loop fd count totlen buf w =
     (if totlen = count then (totlen, w)
      else case sys_write fd buf w of (nwritten, _, w') \<Rightarrow>
        if nwritten = 0 then (totlen, w')
        else if nwritten = -1 then (-1, w')
        else write_loop fd count (totlen + nwritten) (drop (nat nwritten) buf) w')"
  by pat_completeness auto
termination
  by (relation "measure (\<lambda>(fd, count, totlen, buf, w). length buf)")
    (auto dest!: sys_write_le [OF sym])

declare write_loop.simps [simp del]

definition emq_client_write :: "ptr \<Rightarrow> bytes \<Rightarrow> world \<Rightarrow> (int \<times> world) option" where
  "emq_client_write client buf w = do {
     c \<leftarrow> get_client client w;
     Some (write_loop (c_fd c) (int (length buf)) 0 buf w) }"

text \<open>
  \<open>emq_client_writev\<close> repeats the call while it is interrupted, however often that is:
  \<^const>\<open>None\<close> is a run that never returns. \<open>iov\<close> is the list of the blocks.
\<close>

partial_function (option) writev_loop :: "int \<Rightarrow> bytes \<Rightarrow> world \<Rightarrow> (int \<times> world) option" where
  "writev_loop fd bs w =
     (let (ret, err, w') = sys_write fd bs w in
      if ret = -1 \<and> err = EINTR then writev_loop fd bs w' else Some (ret, w'))"

definition emq_client_writev :: "ptr \<Rightarrow> bytes list \<Rightarrow> world \<Rightarrow> (int \<times> world) option" where
  "emq_client_writev client iov w = do {
     c \<leftarrow> get_client client w;
     writev_loop (c_fd c) (concat iov) w }"

section \<open>What the loops do to a socket\<close>

text \<open>
  \<open>sock_read s bs s'\<close>: exactly the bytes \<open>bs\<close> were taken off the front of what the server
  sends, and nothing else of the socket changed. \<open>sock_wrote\<close> is the same for writing.
\<close>

definition sock_read :: "socket \<Rightarrow> bytes \<Rightarrow> socket \<Rightarrow> bool" where
  "sock_read s bs s' \<longleftrightarrow> incoming s = bs @ incoming s' \<and> rd_pos s \<le> rd_pos s' \<and>
     s' = s\<lparr>incoming := incoming s', rd_pos := rd_pos s'\<rparr>"

definition sock_wrote :: "socket \<Rightarrow> bytes \<Rightarrow> socket \<Rightarrow> bool" where
  "sock_wrote s bs s' \<longleftrightarrow> outgoing s' = outgoing s @ bs \<and> wr_pos s \<le> wr_pos s' \<and>
     s' = s\<lparr>outgoing := outgoing s', wr_pos := wr_pos s'\<rparr>"

text \<open>
  \<open>write_broken s req ev s'\<close>: the write calls took a part of \<open>req\<close>, each of them some of it, until
  one of them had the outcome \<open>ev\<close>, before all of it was out. \<open>read_broken s n s'\<close>: the read
  calls brought bytes, but before there were \<open>n\<close> of them one failed or brought none.
\<close>

definition write_broken :: "socket \<Rightarrow> bytes \<Rightarrow> io_event \<Rightarrow> socket \<Rightarrow> bool" where
  "write_broken s req ev s' \<longleftrightarrow> (\<exists>k i. k < length req \<and> sock_wrote s (take k req) s' \<and>
     wr_pos s' = Suc (wr_pos s + i) \<and> (\<forall>j < i. \<exists>n > 0. wr_script s (wr_pos s + j) = Io n) \<and>
     wr_script s (wr_pos s + i) = ev)"

definition read_broken :: "socket \<Rightarrow> nat \<Rightarrow> socket \<Rightarrow> bool" where
  "read_broken s n s' \<longleftrightarrow> (\<exists>bs i. length bs < n \<and> sock_read s bs s' \<and>
     rd_pos s' = Suc (rd_pos s + i) \<and> (\<forall>j < i. \<exists>k > 0. rd_script s (rd_pos s + j) = Io k) \<and>
     (case rd_script s (rd_pos s + i) of Io_error e \<Rightarrow> True | Io k \<Rightarrow> k = 0 \<or> incoming s' = []))"

text \<open>The environment makes progress: every read (write) from now on moves some byte.\<close>

definition live_reads :: "socket \<Rightarrow> bool" where
  "live_reads s \<longleftrightarrow> (\<forall>i \<ge> rd_pos s. \<exists>k > 0. rd_script s i = Io k)"

definition live_writes :: "socket \<Rightarrow> bool" where
  "live_writes s \<longleftrightarrow> (\<forall>i \<ge> wr_pos s. \<exists>k > 0. wr_script s i = Io k)"

text \<open>No \<open>write\<close> from now on returns 0 for data it is given.\<close>

definition no_empty_writes :: "socket \<Rightarrow> bool" where
  "no_empty_writes s \<longleftrightarrow> (\<forall>i \<ge> wr_pos s. wr_script s i \<noteq> Io 0)"

lemma no_empty_writes_after: "no_empty_writes s \<Longrightarrow> sock_wrote s bs s' \<Longrightarrow> no_empty_writes s'"
  by (cases s; cases s') (auto simp: no_empty_writes_def sock_wrote_def)

lemma write_broken_wrote: "write_broken s req ev s' \<Longrightarrow> \<exists>k. sock_wrote s (take k req) s'"
  unfolding write_broken_def by blast

lemma read_broken_read: "read_broken s n s' \<Longrightarrow> \<exists>bs. sock_read s bs s'"
  unfolding read_broken_def by blast

lemma sock_read_refl [simp]: "sock_read s [] s"
  by (simp add: sock_read_def)

lemma sock_read_trans: "sock_read s xs t \<Longrightarrow> sock_read t ys u \<Longrightarrow> sock_read s (xs @ ys) u"
  by (cases s; cases t; cases u) (auto simp: sock_read_def)

lemma sock_wrote_refl [simp]: "sock_wrote s [] s"
  by (simp add: sock_wrote_def)

lemma sock_wrote_trans: "sock_wrote s xs t \<Longrightarrow> sock_wrote t ys u \<Longrightarrow> sock_wrote s (xs @ ys) u"
  by (cases s; cases t; cases u) (auto simp: sock_wrote_def)

lemma sock_read_fields:
  "sock_read s bs s' \<Longrightarrow> rd_script s' = rd_script s \<and> outgoing s' = outgoing s \<and>
     wr_script s' = wr_script s \<and> wr_pos s' = wr_pos s"
  by (cases s; cases s') (auto simp: sock_read_def)

lemma sock_wrote_fields:
  "sock_wrote s bs s' \<Longrightarrow> wr_script s' = wr_script s \<and> incoming s' = incoming s \<and>
     rd_script s' = rd_script s \<and> rd_pos s' = rd_pos s"
  by (cases s; cases s') (auto simp: sock_wrote_def)

lemma sock_wrote_out: "sock_wrote s bs s' \<Longrightarrow> outgoing s' = outgoing s @ bs \<and> incoming s' = incoming s"
  using sock_wrote_fields [of s bs s'] unfolding sock_wrote_def by blast

lemma sock_read_front: "sock_read s bs s' \<Longrightarrow> incoming s = bs @ incoming s'"
  by (simp add: sock_read_def)

lemma live_reads_after: "live_reads s \<Longrightarrow> sock_read s bs s' \<Longrightarrow> live_reads s'"
  using sock_read_fields [of s bs s'] by (auto simp: live_reads_def sock_read_def)

lemma live_writes_after: "live_writes s \<Longrightarrow> sock_wrote s bs s' \<Longrightarrow> live_writes s'"
  using sock_wrote_fields [of s bs s'] by (auto simp: live_writes_def sock_wrote_def)

lemma live_reads_wrote: "sock_wrote s bs s' \<Longrightarrow> live_reads s' = live_reads s"
  using sock_wrote_fields [of s bs s'] by (auto simp: live_reads_def)

lemma live_writes_read: "sock_read s bs s' \<Longrightarrow> live_writes s' = live_writes s"
  using sock_read_fields [of s bs s'] by (auto simp: live_writes_def)

lemma sys_read_step:
  assumes "socks w fd = Some s" and "sys_read fd n w = (r, bs, w')"
  shows "\<exists>s'. w' = set_sock fd s' w \<and> sock_read s bs s' \<and>
    (r = -1 \<and> bs = [] \<or> 0 \<le> n \<and> r = int (length bs) \<and> r \<le> n)"
proof (cases "n < 0")
  case True
  with assms show ?thesis
    by (auto simp: sys_read_def set_sock_same intro!: exI [of _ s])
next
  case False
  let ?s1 = "s\<lparr>rd_pos := Suc (rd_pos s)\<rparr>"
  show ?thesis
  proof (cases "rd_script s (rd_pos s)")
    case (Io k)
    let ?m = "min (min k (nat n)) (length (incoming s))"
    from False Io assms have "r = int ?m" "bs = take ?m (incoming s)"
      "w' = set_sock fd (?s1\<lparr>incoming := drop ?m (incoming s)\<rparr>) w"
      by (simp_all add: sys_read_def Let_def)
    with False show ?thesis
      by (intro exI [of _ "?s1\<lparr>incoming := drop ?m (incoming s)\<rparr>"]) (simp add: sock_read_def)
  next
    case (Io_error e)
    with False assms show ?thesis
      by (intro exI [of _ ?s1]) (simp add: sys_read_def sock_read_def)
  qed
qed

lemma sys_read_live:
  assumes "socks w fd = Some s" and "live_reads s" and "0 < n" and "incoming s \<noteq> []"
    and "sys_read fd n w = (r, bs, w')"
  shows "0 < r"
proof -
  obtain k where "rd_script s (rd_pos s) = Io k" "0 < k"
    using assms(2) unfolding live_reads_def by auto
  then show ?thesis
    using assms by (auto simp: sys_read_def Let_def)
qed

lemma sys_write_step:
  assumes "socks w fd = Some s" and "sys_write fd buf w = (r, e, w')"
  shows "\<exists>s'. w' = set_sock fd s' w \<and>
    (r = -1 \<and> sock_wrote s [] s' \<or>
     0 \<le> r \<and> r \<le> int (length buf) \<and> sock_wrote s (take (nat r) buf) s')"
proof (cases "wr_script s (wr_pos s)")
  case (Io k)
  let ?s1 = "s\<lparr>wr_pos := Suc (wr_pos s), outgoing := outgoing s @ take (min k (length buf)) buf\<rparr>"
  from Io assms have "r = int (min k (length buf))" "w' = set_sock fd ?s1 w"
    by (simp_all add: sys_write_def Let_def)
  then show ?thesis
    by (intro exI [of _ ?s1]) (simp add: sock_wrote_def)
next
  case (Io_error e')
  with assms show ?thesis
    by (intro exI [of _ "s\<lparr>wr_pos := Suc (wr_pos s)\<rparr>"]) (simp add: sys_write_def sock_wrote_def)
qed

lemma sys_write_live:
  assumes "socks w fd = Some s" and "live_writes s" and "buf \<noteq> []"
    and "sys_write fd buf w = (r, e, w')"
  shows "0 < r"
proof -
  obtain k where "wr_script s (wr_pos s) = Io k" "0 < k"
    using assms(2) unfolding live_writes_def by auto
  then show ?thesis
    using assms by (auto simp: sys_write_def Let_def)
qed

lemma read_loop_done [simp]: "read_loop fd count count buf w = (count, buf, w)"
  by (subst read_loop.simps) simp

lemma write_loop_done [simp]: "write_loop fd count count buf w = (count, w)"
  by (subst write_loop.simps) simp

text \<open>Whatever the environment does, a read loop only moves a prefix of the stream.\<close>

lemma read_loop_stream:
  assumes "socks w fd = Some s" and "read_loop fd count totlen buf w = (r, out, w')"
  shows "\<exists>bs s'. out = buf @ bs \<and> w' = set_sock fd s' w \<and> sock_read s bs s' \<and>
    (r = -1 \<or> r = count \<and> totlen + int (length bs) = count)"
  using assms
proof (induction fd count totlen buf w arbitrary: s rule: read_loop.induct)
  case (1 fd count totlen buf w)
  show ?case
  proof (cases "totlen = count")
    case True
    with "1.prems" show ?thesis
      by (intro exI [of _ "[]"] exI [of _ s]) (simp add: set_sock_same)
  next
    case False
    obtain n bs w1 where rd: "sys_read fd (count - totlen) w = (n, bs, w1)"
      by (cases "sys_read fd (count - totlen) w")
    from sys_read_step [OF "1.prems"(1) rd] obtain s1 where
      s1: "w1 = set_sock fd s1 w" "sock_read s bs s1"
        "n = -1 \<and> bs = [] \<or> n = int (length bs)" by blast
    show ?thesis
    proof (cases "n = -1 \<or> n = 0")
      case True
      with s1 have "bs = []" by auto
      with "1.prems"(2) False rd True s1 show ?thesis
        by (auto simp: read_loop.simps [of fd count totlen buf w])
    next
      case more: False
      have rec: "read_loop fd count (totlen + n) (buf @ bs) w1 = (r, out, w')"
        using "1.prems"(2) False rd more by (simp add: read_loop.simps [of fd count totlen buf w])
      have "socks w1 fd = Some s1" by (simp add: s1(1))
      from "1.IH" [OF False rd [symmetric] refl more this rec] obtain cs s2 where
        "out = (buf @ bs) @ cs" "w' = set_sock fd s2 w1" "sock_read s1 cs s2"
        "r = -1 \<or> r = count \<and> totlen + n + int (length cs) = count" by blast
      then show ?thesis
        using s1 more sock_read_trans [OF s1(2)] by (intro exI [of _ "bs @ cs"] exI [of _ s2]) auto
    qed
  qed
qed

lemma read_loop_live:
  assumes "socks w fd = Some s" and "live_reads s"
    and "totlen \<le> count" and "nat (count - totlen) \<le> length (incoming s)"
  shows "\<exists>s'. read_loop fd count totlen buf w
      = (count, buf @ take (nat (count - totlen)) (incoming s), set_sock fd s' w) \<and>
    sock_read s (take (nat (count - totlen)) (incoming s)) s'"
  using assms
proof (induction fd count totlen buf w arbitrary: s rule: read_loop.induct)
  case (1 fd count totlen buf w)
  show ?case
  proof (cases "totlen = count")
    case True
    with "1.prems" show ?thesis
      by (intro exI [of _ s]) (simp add: set_sock_same)
  next
    case False
    obtain n bs w1 where rd: "sys_read fd (count - totlen) w = (n, bs, w1)"
      by (cases "sys_read fd (count - totlen) w")
    from False "1.prems" have pos: "0 < count - totlen" and data: "incoming s \<noteq> []" by auto
    from sys_read_live [OF "1.prems"(1,2) pos data rd] have "0 < n" .
    with sys_read_step [OF "1.prems"(1) rd] obtain s1 where
      s1: "w1 = set_sock fd s1 w" "sock_read s bs s1" "n = int (length bs)" "n \<le> count - totlen"
      by auto
    have inc: "incoming s = bs @ incoming s1" using s1(2) by (simp add: sock_read_def)
    have bound: "totlen + n \<le> count" "nat (count - (totlen + n)) \<le> length (incoming s1)"
      using s1 inc "1.prems"(4) by auto
    have live1: "live_reads s1" using "1.prems"(2) s1(2) by (rule live_reads_after)
    have cont: "\<not> (n = -1 \<or> n = 0)" using \<open>0 < n\<close> by simp
    have sock1: "socks w1 fd = Some s1" by (simp add: s1(1))
    from "1.IH" [OF False rd [symmetric] refl cont sock1 live1 bound]
    obtain s2 where s2: "read_loop fd count (totlen + n) (buf @ bs) w1
        = (count, (buf @ bs) @ take (nat (count - (totlen + n))) (incoming s1), set_sock fd s2 w1)"
      "sock_read s1 (take (nat (count - (totlen + n))) (incoming s1)) s2" by blast
    have "nat (count - totlen) = length bs + nat (count - (totlen + n))"
      using s1(3,4) by linarith
    then have split: "take (nat (count - totlen)) (incoming s)
        = bs @ take (nat (count - (totlen + n))) (incoming s1)"
      using inc by simp
    have "read_loop fd count totlen buf w = read_loop fd count (totlen + n) (buf @ bs) w1"
      using False rd cont by (simp add: read_loop.simps [of fd count totlen buf w])
    then show ?thesis
      using s2 s1(1) sock_read_trans [OF s1(2) s2(2)] by (simp add: split) blast
  qed
qed

lemma read_loop_eof:
  assumes "socks w fd = Some s" and "int (length (incoming s)) < count - totlen"
    and "read_loop fd count totlen buf w = (r, out, w')"
  shows "r = -1"
proof (rule ccontr)
  assume r: "r \<noteq> -1"
  from read_loop_stream [OF assms(1,3)] obtain bs s' where
    "sock_read s bs s'" "r = -1 \<or> totlen + int (length bs) = count" by blast
  with r assms(2) show False by (auto simp: sock_read_def)
qed

lemma read_loop_negative: "count < totlen \<Longrightarrow> \<exists>w'. read_loop fd count totlen buf w = (-1, buf, w')"
  by (subst read_loop.simps) (auto simp: sys_read_def split: option.splits)

lemma read_loop_closed: "socks w fd = None \<Longrightarrow> totlen \<noteq> count \<Longrightarrow> read_loop fd count totlen buf w = (-1, buf, w)"
  by (subst read_loop.simps) (simp add: sys_read_def)

lemma read_loop_bytes: "read_loop fd count totlen buf w = (r, out, w') \<Longrightarrow> r \<noteq> -1 \<Longrightarrow>
    r = count \<and> int (length out) = int (length buf) + count - totlen"
proof (induction fd count totlen buf w rule: read_loop.induct)
  case (1 fd count totlen buf w)
  show ?case
  proof (cases "totlen = count")
    case True
    then show ?thesis using "1.prems" by auto
  next
    case False
    obtain n bs w1 where rd: "sys_read fd (count - totlen) w = (n, bs, w1)"
      by (cases "sys_read fd (count - totlen) w")
    have more: "\<not> (n = -1 \<or> n = 0)"
      using "1.prems" False rd by (auto simp: read_loop.simps [of fd count totlen buf w] split: if_splits)
    have len: "n = int (length bs)"
    proof (cases "socks w fd")
      case None
      with rd more show ?thesis by (simp add: sys_read_def)
    next
      case (Some s)
      from sys_read_step [OF Some rd] more show ?thesis by auto
    qed
    have "read_loop fd count (totlen + n) (buf @ bs) w1 = (r, out, w')"
      using "1.prems"(1) False rd more by (simp add: read_loop.simps [of fd count totlen buf w])
    from "1.IH" [OF False rd [symmetric] refl more this "1.prems"(2)] show ?thesis
      using len by simp
  qed
qed

text \<open>A write loop appends a prefix of the request; without error it reports how much.\<close>

lemma write_loop_stream:
  assumes "socks w fd = Some s" and "count - totlen = int (length buf)"
    and "write_loop fd count totlen buf w = (r, w')"
  shows "\<exists>k s'. k \<le> length buf \<and> w' = set_sock fd s' w \<and> sock_wrote s (take k buf) s' \<and>
    (r = -1 \<or> r = totlen + int k)"
  using assms
proof (induction fd count totlen buf w arbitrary: s rule: write_loop.induct)
  case (1 fd count totlen buf w)
  show ?case
  proof (cases "totlen = count")
    case True
    with "1.prems" show ?thesis
      by (intro exI [of _ 0] exI [of _ s]) (simp add: set_sock_same)
  next
    case False
    obtain n e w1 where wr: "sys_write fd buf w = (n, e, w1)"
      by (cases "sys_write fd buf w")
    from sys_write_step [OF "1.prems"(1) wr] obtain s1 where
      s1: "w1 = set_sock fd s1 w" "n = -1 \<and> sock_wrote s [] s1 \<or>
        0 \<le> n \<and> n \<le> int (length buf) \<and> sock_wrote s (take (nat n) buf) s1" by blast
    show ?thesis
    proof (cases "n = 0 \<or> n = -1")
      case True
      with "1.prems"(3) False wr s1 show ?thesis
        by (auto simp: write_loop.simps [of fd count totlen buf w] intro!: exI [of _ 0] exI [of _ s1])
    next
      case more: False
      then have n: "n \<noteq> 0" "n \<noteq> -1" "0 < n" "n \<le> int (length buf)"
        and wrote: "sock_wrote s (take (nat n) buf) s1" using s1(2) by auto
      have rec: "write_loop fd count (totlen + n) (drop (nat n) buf) w1 = (r, w')"
        using "1.prems"(3) False wr n by (simp add: write_loop.simps [of fd count totlen buf w])
      have sock1: "socks w1 fd = Some s1" by (simp add: s1(1))
      have len: "count - (totlen + n) = int (length (drop (nat n) buf))"
        using "1.prems"(2) n by (simp add: nat_le_iff)
      from "1.IH" [OF False wr [symmetric] refl n(1,2) sock1 len rec] obtain k s2 where
        s2: "k \<le> length (drop (nat n) buf)" "w' = set_sock fd s2 w1"
          "sock_wrote s1 (take k (drop (nat n) buf)) s2" "r = -1 \<or> r = totlen + n + int k" by blast
      have "take (nat n) buf @ take k (drop (nat n) buf) = take (nat n + k) buf"
        by (simp add: take_add)
      then have "sock_wrote s (take (nat n + k) buf) s2"
        using sock_wrote_trans [OF wrote s2(3)] by simp
      then show ?thesis
        using s1(1) s2 n by (intro exI [of _ "nat n + k"] exI [of _ s2]) auto
    qed
  qed
qed

lemma write_loop_live:
  assumes "socks w fd = Some s" and "live_writes s" and "count - totlen = int (length buf)"
  shows "\<exists>s'. write_loop fd count totlen buf w = (count, set_sock fd s' w) \<and> sock_wrote s buf s'"
  using assms
proof (induction fd count totlen buf w arbitrary: s rule: write_loop.induct)
  case (1 fd count totlen buf w)
  show ?case
  proof (cases "totlen = count")
    case True
    with "1.prems" show ?thesis
      by (intro exI [of _ s]) (simp add: set_sock_same)
  next
    case False
    obtain n e w1 where wr: "sys_write fd buf w = (n, e, w1)"
      by (cases "sys_write fd buf w")
    from False "1.prems"(3) have "buf \<noteq> []" by auto
    from sys_write_live [OF "1.prems"(1,2) this wr] have pos: "0 < n" .
    with sys_write_step [OF "1.prems"(1) wr] obtain s1 where
      s1: "w1 = set_sock fd s1 w" "n \<le> int (length buf)" "sock_wrote s (take (nat n) buf) s1" by auto
    have live1: "live_writes s1" using "1.prems"(2) s1(3) by (rule live_writes_after)
    have sock1: "socks w1 fd = Some s1" by (simp add: s1(1))
    have len: "count - (totlen + n) = int (length (drop (nat n) buf))"
      using "1.prems"(3) s1 pos by (simp add: nat_le_iff)
    have n: "n \<noteq> 0" "n \<noteq> -1" using pos by auto
    from "1.IH" [OF False wr [symmetric] refl n sock1 live1 len] obtain s2 where
      "write_loop fd count (totlen + n) (drop (nat n) buf) w1 = (count, set_sock fd s2 w1)"
      "sock_wrote s1 (drop (nat n) buf) s2" by blast
    with False wr n show ?thesis
      using s1(1) sock_wrote_trans [OF s1(3)]
      by (simp add: write_loop.simps [of fd count totlen buf w]) fastforce
  qed
qed

text \<open>Without a \<open>write\<close> that returns 0 the loop never gives a short count: all of the data, or an error.\<close>

lemma sys_write_empty:
  "sys_write fd buf w = (0, e, w') \<Longrightarrow> socks w fd = Some s \<Longrightarrow> no_empty_writes s \<Longrightarrow> buf = []"
  by (auto simp: sys_write_def no_empty_writes_def Let_def min_def split: io_event.splits if_splits)

lemma write_loop_complete:
  assumes "socks w fd = Some s" and "no_empty_writes s" and "count - totlen = int (length buf)"
    and "write_loop fd count totlen buf w = (r, w')"
  shows "r = -1 \<or> r = count"
  using assms
proof (induction fd count totlen buf w arbitrary: s rule: write_loop.induct)
  case (1 fd count totlen buf w)
  show ?case
  proof (cases "totlen = count")
    case True
    with "1.prems" show ?thesis by simp
  next
    case False
    obtain n e w1 where wr: "sys_write fd buf w = (n, e, w1)"
      by (cases "sys_write fd buf w")
    have "n \<noteq> 0" using sys_write_empty [of fd buf w e w1 s] wr "1.prems"(1-3) False by auto
    show ?thesis
    proof (cases "n = -1")
      case True
      with "1.prems"(4) False wr show ?thesis by (simp add: write_loop.simps [of fd count totlen buf w])
    next
      case more: False
      obtain s1 where s1: "w1 = set_sock fd s1 w" "0 \<le> n" "n \<le> int (length buf)" "sock_wrote s (take (nat n) buf) s1"
        using sys_write_step [OF "1.prems"(1) wr] more by auto
      have "socks w1 fd = Some s1" "count - (totlen + n) = int (length (drop (nat n) buf))"
        using "1.prems"(3) s1 by (simp_all add: nat_le_iff)
      moreover have "write_loop fd count (totlen + n) (drop (nat n) buf) w1 = (r, w')"
        using "1.prems"(4) False wr more \<open>n \<noteq> 0\<close> by (simp add: write_loop.simps [of fd count totlen buf w])
      ultimately show ?thesis
        using "1.IH" [OF False wr [symmetric] refl \<open>n \<noteq> 0\<close> more] no_empty_writes_after [OF "1.prems"(2) s1(4)] by blast
    qed
  qed
qed

text \<open>What ended a loop: everything was moved, or the call that moved nothing.\<close>

lemma all_less_Suc_shift: "P 0 \<Longrightarrow> \<forall>j < i. P (Suc j) \<Longrightarrow> \<forall>j < Suc i. P j"
  using less_Suc_eq_0_disj by auto

lemma sys_write_event:
  assumes "socks w fd = Some s" and "sys_write fd buf w = (r, e, w')"
  shows "\<exists>s'. w' = set_sock fd s' w \<and> wr_pos s' = Suc (wr_pos s) \<and> (case wr_script s (wr_pos s) of
      Io_error e' \<Rightarrow> r = -1 \<and> sock_wrote s [] s'
    | Io k \<Rightarrow> r = int (min k (length buf)) \<and> sock_wrote s (take (nat r) buf) s')"
proof (cases "wr_script s (wr_pos s)")
  case (Io k)
  let ?s1 = "s\<lparr>wr_pos := Suc (wr_pos s), outgoing := outgoing s @ take (min k (length buf)) buf\<rparr>"
  from Io assms have "r = int (min k (length buf))" "w' = set_sock fd ?s1 w"
    by (simp_all add: sys_write_def Let_def)
  with Io show ?thesis
    by (intro exI [of _ ?s1]) (simp add: sock_wrote_def)
next
  case (Io_error e')
  with assms show ?thesis
    by (intro exI [of _ "s\<lparr>wr_pos := Suc (wr_pos s)\<rparr>"]) (simp add: sys_write_def sock_wrote_def)
qed

lemma write_broken_first:
  assumes "sock_wrote s [] s'" and "wr_pos s' = Suc (wr_pos s)" and "buf \<noteq> []" and "wr_script s (wr_pos s) = ev"
  shows "write_broken s buf ev s'"
  unfolding write_broken_def using assms by (intro exI [of _ 0]) simp

lemma write_broken_after:
  assumes wrote: "sock_wrote s (take n buf) s1" and n: "n \<le> length buf" and pos: "wr_pos s1 = Suc (wr_pos s)"
    and took: "\<exists>k > 0. wr_script s (wr_pos s) = Io k" and "write_broken s1 (drop n buf) ev s2"
  shows "write_broken s buf ev s2"
proof -
  from assms(5) obtain k i where b: "k < length (drop n buf)" "sock_wrote s1 (take k (drop n buf)) s2"
    "wr_pos s2 = Suc (wr_pos s1 + i)" "\<forall>j < i. \<exists>n > 0. wr_script s1 (wr_pos s1 + j) = Io n"
    "wr_script s1 (wr_pos s1 + i) = ev" unfolding write_broken_def by (elim exE conjE) (rule that)
  have script: "wr_script s1 = wr_script s" using sock_wrote_fields [OF wrote] by simp
  have "sock_wrote s (take (n + k) buf) s2" using sock_wrote_trans [OF wrote b(2)] by (simp add: take_add)
  moreover have "\<forall>j < Suc i. \<exists>n > 0. wr_script s (wr_pos s + j) = Io n"
    using all_less_Suc_shift [of "\<lambda>j. \<exists>n > 0. wr_script s (wr_pos s + j) = Io n" i] took b(4) pos script by simp
  ultimately show ?thesis
    unfolding write_broken_def using b pos script by (intro exI [of _ "n + k"] exI [of _ "Suc i"]) simp
qed

lemma write_loop_outcome:
  assumes "socks w fd = Some s" and "0 \<le> totlen" and "count - totlen = int (length buf)"
    and "write_loop fd count totlen buf w = (r, w')"
  shows "\<exists>s'. w' = set_sock fd s' w \<and> (if r = -1 then \<exists>e. write_broken s buf (Io_error e) s'
    else sock_wrote s buf s' \<or> write_broken s buf (Io 0) s')"
  using assms
proof (induction fd count totlen buf w arbitrary: s rule: write_loop.induct)
  case (1 fd count totlen buf w)
  show ?case
  proof (cases "totlen = count")
    case True
    with "1.prems" show ?thesis by (intro exI [of _ s]) (simp add: set_sock_same)
  next
    case False
    then have buf: "buf \<noteq> []" using "1.prems"(3) by auto
    obtain n e w1 where wr: "sys_write fd buf w = (n, e, w1)" by (cases "sys_write fd buf w")
    from sys_write_event [OF "1.prems"(1) wr] obtain s1 where s1: "w1 = set_sock fd s1 w" "wr_pos s1 = Suc (wr_pos s)"
      "case wr_script s (wr_pos s) of Io_error e' \<Rightarrow> n = -1 \<and> sock_wrote s [] s1
       | Io k \<Rightarrow> n = int (min k (length buf)) \<and> sock_wrote s (take (nat n) buf) s1" by blast
    consider (err) e' where "wr_script s (wr_pos s) = Io_error e'" "n = -1" "sock_wrote s [] s1"
      | (none) "wr_script s (wr_pos s) = Io 0" "n = 0" "sock_wrote s [] s1"
      | (some) k where "wr_script s (wr_pos s) = Io k" "0 < k" "0 < n" "n \<le> int (length buf)" "sock_wrote s (take (nat n) buf) s1"
    proof (cases "wr_script s (wr_pos s)")
      case (Io k)
      with s1(3) buf show ?thesis by (cases "k = 0") (auto intro: that(2,3))
    qed (use s1(3) in \<open>auto intro: that(1)\<close>)
    then show ?thesis
    proof cases
      case err
      then show ?thesis using "1.prems"(4) False wr s1(1,2) write_broken_first [OF err(3) s1(2) buf err(1)]
        by (auto simp: write_loop.simps [of fd count totlen buf w])
    next
      case none
      then show ?thesis using "1.prems"(2,4) False wr s1(1,2) write_broken_first [OF none(3) s1(2) buf none(1)]
        by (auto simp: write_loop.simps [of fd count totlen buf w])
    next
      case some
      have go: "n \<noteq> 0" "n \<noteq> -1" using some(3) by auto
      have "socks w1 fd = Some s1" "0 \<le> totlen + n" "count - (totlen + n) = int (length (drop (nat n) buf))"
        using s1(1) some(3,4) "1.prems"(2,3) by (simp_all add: nat_le_iff)
      moreover have "write_loop fd count (totlen + n) (drop (nat n) buf) w1 = (r, w')"
        using "1.prems"(4) False wr go by (simp add: write_loop.simps [of fd count totlen buf w])
      ultimately obtain s2 where s2: "w' = set_sock fd s2 w1"
        "if r = -1 then \<exists>e. write_broken s1 (drop (nat n) buf) (Io_error e) s2
         else sock_wrote s1 (drop (nat n) buf) s2 \<or> write_broken s1 (drop (nat n) buf) (Io 0) s2"
        using "1.IH" [OF False wr [symmetric] refl go] by blast
      have "nat n \<le> length buf" using some(4) by simp
      note after = write_broken_after [OF some(5) this s1(2)]
      have "sock_wrote s buf s2" if "sock_wrote s1 (drop (nat n) buf) s2"
        using sock_wrote_trans [OF some(5) that] by simp
      with s2 s1(1) some(1,2) after show ?thesis by (intro exI [of _ s2]) (auto split: if_splits)
    qed
  qed
qed

lemma sys_read_event:
  assumes "socks w fd = Some s" and "0 < n" and "sys_read fd n w = (r, bs, w')"
  shows "\<exists>s'. w' = set_sock fd s' w \<and> rd_pos s' = Suc (rd_pos s) \<and> sock_read s bs s' \<and>
    (case rd_script s (rd_pos s) of Io_error e \<Rightarrow> r = -1 \<and> bs = []
     | Io k \<Rightarrow> r = int (length bs) \<and> r \<le> n \<and> (0 < r \<longrightarrow> 0 < k) \<and> (r = 0 \<longrightarrow> k = 0 \<or> incoming s' = []))"
proof (cases "rd_script s (rd_pos s)")
  case (Io k)
  let ?m = "min (min k (nat n)) (length (incoming s))"
  let ?s1 = "s\<lparr>rd_pos := Suc (rd_pos s), incoming := drop ?m (incoming s)\<rparr>"
  from Io assms have "r = int ?m" "bs = take ?m (incoming s)" "w' = set_sock fd ?s1 w"
    by (simp_all add: sys_read_def Let_def)
  with Io assms(2) show ?thesis
    by (intro exI [of _ ?s1]) (auto simp: sock_read_def min_def split: if_splits)
next
  case (Io_error e)
  with assms show ?thesis
    by (intro exI [of _ "s\<lparr>rd_pos := Suc (rd_pos s)\<rparr>"]) (simp add: sys_read_def sock_read_def)
qed

lemma read_broken_after:
  assumes got: "sock_read s bs s1" and pos: "rd_pos s1 = Suc (rd_pos s)" and n: "length bs + m = n"
    and took: "\<exists>k > 0. rd_script s (rd_pos s) = Io k" and "read_broken s1 m s2"
  shows "read_broken s n s2"
proof -
  from assms(5) obtain cs i where b: "length cs < m" "sock_read s1 cs s2" "rd_pos s2 = Suc (rd_pos s1 + i)"
    "\<forall>j < i. \<exists>k > 0. rd_script s1 (rd_pos s1 + j) = Io k"
    "case rd_script s1 (rd_pos s1 + i) of Io_error e \<Rightarrow> True | Io k \<Rightarrow> k = 0 \<or> incoming s2 = []"
    unfolding read_broken_def by (elim exE conjE) (rule that)
  have script: "rd_script s1 = rd_script s" using sock_read_fields [OF got] by simp
  have "\<forall>j < Suc i. \<exists>k > 0. rd_script s (rd_pos s + j) = Io k"
    using all_less_Suc_shift [of "\<lambda>j. \<exists>k > 0. rd_script s (rd_pos s + j) = Io k" i] took b(4) pos script by simp
  then show ?thesis
    unfolding read_broken_def using b pos script n sock_read_trans [OF got b(2)]
    by (intro exI [of _ "bs @ cs"] exI [of _ "Suc i"]) simp
qed

lemma read_loop_broken:
  assumes "socks w fd = Some s" and "0 \<le> totlen" and "totlen \<le> count"
    and "read_loop fd count totlen buf w = (-1, out, w')"
  shows "\<exists>s'. w' = set_sock fd s' w \<and> read_broken s (nat (count - totlen)) s'"
  using assms
proof (induction fd count totlen buf w arbitrary: s rule: read_loop.induct)
  case (1 fd count totlen buf w)
  have False: "totlen \<noteq> count" using "1.prems"(2,4) by auto
  obtain n bs w1 where rd: "sys_read fd (count - totlen) w = (n, bs, w1)"
    by (cases "sys_read fd (count - totlen) w")
  have "0 < count - totlen" using False "1.prems"(3) by simp
  from sys_read_event [OF "1.prems"(1) this rd] obtain s1 where s1: "w1 = set_sock fd s1 w"
    "rd_pos s1 = Suc (rd_pos s)" "sock_read s bs s1"
    "case rd_script s (rd_pos s) of Io_error e \<Rightarrow> n = -1 \<and> bs = []
     | Io k \<Rightarrow> n = int (length bs) \<and> n \<le> count - totlen \<and> (0 < n \<longrightarrow> 0 < k) \<and> (n = 0 \<longrightarrow> k = 0 \<or> incoming s1 = [])" by blast
  show ?case
  proof (cases "n = -1 \<or> n = 0")
    case True
    have "read_broken s (nat (count - totlen)) s1"
      unfolding read_broken_def using s1(2-4) True \<open>0 < count - totlen\<close>
      by (intro exI [of _ "[]"] exI [of _ 0]) (auto split: io_event.splits)
    with True "1.prems"(4) False rd s1(1) show ?thesis
      by (auto simp: read_loop.simps [of fd count totlen buf w])
  next
    case more: False
    then obtain k where k: "rd_script s (rd_pos s) = Io k" "0 < k" "n = int (length bs)" "n \<le> count - totlen"
      using s1(4) by (auto split: io_event.splits)
    have "socks w1 fd = Some s1" "0 \<le> totlen + n" "totlen + n \<le> count"
      using s1(1) k(3,4) "1.prems"(2) by simp_all
    moreover have "read_loop fd count (totlen + n) (buf @ bs) w1 = (-1, out, w')"
      using "1.prems"(4) False rd more by (simp add: read_loop.simps [of fd count totlen buf w])
    ultimately obtain s2 where s2: "w' = set_sock fd s2 w1" "read_broken s1 (nat (count - (totlen + n))) s2"
      using "1.IH" [OF False rd [symmetric] refl more] by blast
    have "length bs + nat (count - (totlen + n)) = nat (count - totlen)" using k(3,4) by simp
    then have "read_broken s (nat (count - totlen)) s2"
      using read_broken_after [OF s1(3,2) _ _ s2(2)] k(1,2) by blast
    with s2(1) s1(1) show ?thesis by auto
  qed
qed

text \<open>\<open>writev\<close>: one call that is not interrupted decides, however much of the data it took.\<close>

lemma writev_loop_step: "writev_loop fd bs w = (case sys_write fd bs w of (ret, err, w') \<Rightarrow>
    if ret = -1 \<and> err = EINTR then writev_loop fd bs w' else Some (ret, w'))"
  by (subst writev_loop.simps) (simp add: Let_def)

definition writev_done :: "int \<Rightarrow> bytes \<Rightarrow> socket \<Rightarrow> world \<Rightarrow> int \<times> world" where
  "writev_done fd bs s w = (let s1 = s\<lparr>wr_pos := Suc (wr_pos s)\<rparr> in
     case wr_script s (wr_pos s) of
       Io_error e \<Rightarrow> (-1, set_sock fd s1 w)
     | Io k \<Rightarrow> (int (min k (length bs)), set_sock fd (s1\<lparr>outgoing := outgoing s @ take (min k (length bs)) bs\<rparr>) w))"

lemma writev_loop_returns:
  assumes "socks w fd = Some s" and "\<forall>i < n. wr_script s (wr_pos s + i) = Io_error EINTR"
    and "wr_script s (wr_pos s + n) \<noteq> Io_error EINTR"
  shows "writev_loop fd bs w = Some (writev_done fd bs (s\<lparr>wr_pos := wr_pos s + n\<rparr>) w)"
  using assms
proof (induction n arbitrary: s w)
  case 0
  then show ?case
    by (subst writev_loop_step)
      (auto simp: sys_write_def writev_done_def Let_def split: io_event.splits errno.splits)
next
  case (Suc n)
  let ?s1 = "s\<lparr>wr_pos := Suc (wr_pos s)\<rparr>"
  from Suc.prems(2) have first: "wr_script s (wr_pos s) = Io_error EINTR" by force
  have "writev_loop fd bs w = writev_loop fd bs (set_sock fd ?s1 w)"
    using Suc.prems(1) first by (subst writev_loop_step) (simp add: sys_write_def)
  also have "\<dots> = Some (writev_done fd bs (?s1\<lparr>wr_pos := wr_pos ?s1 + n\<rparr>) (set_sock fd ?s1 w))"
    using Suc.prems by (intro Suc.IH) auto
  finally show ?case
    by (simp add: writev_done_def Let_def split: io_event.splits)
qed

lemma writev_loop_stuck:
  assumes "writev_loop fd bs w = Some res"
  shows "\<not> (\<exists>s. socks w fd = Some s \<and> (\<forall>i \<ge> wr_pos s. wr_script s i = Io_error EINTR))"
proof (rule writev_loop.raw_induct [where P = "\<lambda>fd bs w res. \<not> (\<exists>s. socks w fd = Some s \<and>
      (\<forall>i \<ge> wr_pos s. wr_script s i = Io_error EINTR))", OF _ assms])
  fix f fd bs w res
  assume IH: "\<And>fd bs w res. f fd bs w = Some res \<Longrightarrow>
      \<not> (\<exists>s. socks w fd = Some s \<and> (\<forall>i \<ge> wr_pos s. wr_script s i = Io_error EINTR))"
    and eq: "(let (ret, err, w') = sys_write fd bs w in
      if ret = -1 \<and> err = EINTR then f fd bs w' else Some (ret, w')) = Some res"
  show "\<not> (\<exists>s. socks w fd = Some s \<and> (\<forall>i \<ge> wr_pos s. wr_script s i = Io_error EINTR))"
  proof
    assume "\<exists>s. socks w fd = Some s \<and> (\<forall>i \<ge> wr_pos s. wr_script s i = Io_error EINTR)"
    then obtain s where s: "socks w fd = Some s" "\<forall>i \<ge> wr_pos s. wr_script s i = Io_error EINTR"
      by blast
    let ?s1 = "s\<lparr>wr_pos := Suc (wr_pos s)\<rparr>"
    from s eq have "f fd bs (set_sock fd ?s1 w) = Some res"
      by (simp add: sys_write_def Let_def)
    from IH [OF this] s(2) show False by simp
  qed
qed

lemma writev_loop_None_iff:
  "writev_loop fd bs w = None \<longleftrightarrow>
     (\<exists>s. socks w fd = Some s \<and> (\<forall>i \<ge> wr_pos s. wr_script s i = Io_error EINTR))"
proof (cases "socks w fd")
  case None
  then show ?thesis
    by (subst writev_loop_step) (simp add: sys_write_def)
next
  case (Some s)
  show ?thesis
  proof (cases "\<forall>i \<ge> wr_pos s. wr_script s i = Io_error EINTR")
    case True
    with Some writev_loop_stuck [of fd bs w] show ?thesis by (cases "writev_loop fd bs w") auto
  next
    case False
    let ?P = "\<lambda>n. wr_script s (wr_pos s + n) \<noteq> Io_error EINTR"
    from False obtain i where "wr_pos s \<le> i" "wr_script s i \<noteq> Io_error EINTR" by blast
    then have "?P (i - wr_pos s)" by simp
    then have "?P (LEAST n. ?P n)" by (rule LeastI)
    moreover have "\<forall>i < (LEAST n. ?P n). \<not> ?P i" by (blast dest: not_less_Least)
    ultimately show ?thesis
      using writev_loop_returns [OF Some, of "LEAST n. ?P n" bs] False Some by auto
  qed
qed

section \<open>The client calls\<close>

text \<open>\<open>client_sock p w s\<close>: the client at \<open>p\<close> exists and its descriptor is the open socket \<open>s\<close>.\<close>

definition client_sock :: "ptr \<Rightarrow> world \<Rightarrow> socket \<Rightarrow> bool" where
  "client_sock p w s \<longleftrightarrow> (\<exists>c. get_client p w = Some c \<and> socks w (c_fd c) = Some s)"

definition with_sock :: "ptr \<Rightarrow> socket \<Rightarrow> world \<Rightarrow> world" where
  "with_sock p s w = (case get_client p w of None \<Rightarrow> w | Some c \<Rightarrow> set_sock (c_fd c) s w)"

lemma with_sock_simps [simp]:
  "clients (with_sock p s w) = clients w" "list_hdrs (with_sock p s w) = list_hdrs w"
  "nodes (with_sock p s w) = nodes w" "objs (with_sock p s w) = objs w"
  "msgs (with_sock p s w) = msgs w" "bufs (with_sock p s w) = bufs w"
  "brk (with_sock p s w) = brk w" "alloc_ok (with_sock p s w) = alloc_ok w"
  "get_client q (with_sock p s w) = get_client q w"
  "with_sock p s (with_sock p t w) = with_sock p s w"
  by (auto simp: with_sock_def split: option.splits)

lemma client_sock_with [simp]: "client_sock p w t \<Longrightarrow> client_sock p (with_sock p s w) s' = (s' = s)"
  by (auto simp: client_sock_def with_sock_def)

lemma with_sock_same: "client_sock p w s \<Longrightarrow> with_sock p s w = w"
  by (auto simp: client_sock_def with_sock_def set_sock_same)

lemma emq_client_read_stream:
  assumes "client_sock p w s" and "emq_client_read p n w = Some (r, bs, w')"
  shows "\<exists>s'. w' = with_sock p s' w \<and> sock_read s bs s' \<and> (r = -1 \<or> r = n \<and> int (length bs) = n)"
  using assms read_loop_stream [of w _ s n 0 "[]" r bs w']
  by (fastforce simp: client_sock_def with_sock_def emq_client_read_def)

lemma emq_client_read_live:
  assumes "client_sock p w s" and "live_reads s" and "n \<le> length (incoming s)"
  shows "\<exists>s'. emq_client_read p (int n) w = Some (int n, take n (incoming s), with_sock p s' w) \<and>
    sock_read s (take n (incoming s)) s'"
  using assms read_loop_live [of w _ s 0 "int n" "[]"]
  by (fastforce simp: client_sock_def with_sock_def emq_client_read_def)

lemma emq_client_read_total: "get_client p w \<noteq> None \<Longrightarrow> \<exists>r bs w'. emq_client_read p n w = Some (r, bs, w')"
  by (auto simp: emq_client_read_def) (metis prod_cases3)

lemma emq_client_write_stream:
  assumes "client_sock p w s" and "emq_client_write p buf w = Some (r, w')"
  shows "\<exists>k s'. k \<le> length buf \<and> w' = with_sock p s' w \<and> sock_wrote s (take k buf) s' \<and>
    (r = -1 \<or> r = int k)"
  using assms write_loop_stream [of w _ s "int (length buf)" 0 buf r w']
  by (fastforce simp: client_sock_def with_sock_def emq_client_write_def)

lemma emq_client_write_live:
  assumes "client_sock p w s" and "live_writes s"
  shows "\<exists>s'. emq_client_write p buf w = Some (int (length buf), with_sock p s' w) \<and> sock_wrote s buf s'"
  using assms write_loop_live [of w _ s "int (length buf)" 0 buf]
  by (fastforce simp: client_sock_def with_sock_def emq_client_write_def)

lemma emq_client_write_complete:
  assumes "client_sock p w s" and "no_empty_writes s" and "emq_client_write p buf w = Some (r, w')"
  shows "r = -1 \<or> r = int (length buf)"
  using assms write_loop_complete [of w _ s "int (length buf)" 0 buf r w']
  by (fastforce simp: client_sock_def emq_client_write_def)

text \<open>How a call of the client ended.\<close>

lemma emq_client_write_outcome:
  assumes "client_sock p w s" and "emq_client_write p buf w = Some (r, w')"
  shows "\<exists>s'. w' = with_sock p s' w \<and> (if r = -1 then \<exists>e. write_broken s buf (Io_error e) s'
    else sock_wrote s buf s' \<or> write_broken s buf (Io 0) s')"
  using assms write_loop_outcome [of w _ s 0 "int (length buf)" buf r w']
  by (fastforce simp: client_sock_def with_sock_def emq_client_write_def)

lemma emq_client_read_broken:
  assumes "client_sock p w s" and "0 \<le> n" and "emq_client_read p n w = Some (-1, bs, w')"
  shows "\<exists>s'. w' = with_sock p s' w \<and> read_broken s (nat n) s'"
  using assms read_loop_broken [of w _ s 0 n "[]" bs w']
  by (fastforce simp: client_sock_def with_sock_def emq_client_read_def)

end
