(* ===== verification/Emq_List.thy ===== *)
theory Emq_List
  imports Emq_State
begin

text \<open>
  The doubly linked list of \<^verbatim>\<open>src/src/emq.c\<close> (lines 133 to 233), at the level of its pointers.

  \<open>list_rep w lp fr ns\<close> says that the list structure at \<open>lp\<close> and the nodes reachable from it
  represent the sequence \<open>ns\<close> of (node address, value address) pairs: next pointers forward,
  previous pointers backward, head, tail and length all agreeing. The lemmas state each
  operation as the corresponding operation on \<open>ns\<close>, and what it leaves alone.
\<close>

section \<open>Operations\<close>

definition emq_list_init :: "world \<Rightarrow> ptr \<times> world" where
  "emq_list_init w = (case malloc 32 w of
     (None, w) \<Rightarrow> (None, w)
   | (Some a, w) \<Rightarrow> (Some a, w\<lparr>list_hdrs := (list_hdrs w)(a \<mapsto>
        \<lparr>list_head = None, list_tail = None, list_length = 0, list_free = None\<rparr>)\<rparr>))"

definition EMQ_LIST_SET_FREE_METHOD :: "ptr \<Rightarrow> free_handler \<Rightarrow> world \<Rightarrow> world option" where
  "EMQ_LIST_SET_FREE_METHOD list m w = (case list of None \<Rightarrow> None
     | Some lp \<Rightarrow> (case list_hdrs w lp of None \<Rightarrow> None
         | Some l \<Rightarrow> Some (w\<lparr>list_hdrs := (list_hdrs w)(lp \<mapsto> l\<lparr>list_free := Some m\<rparr>)\<rparr>)))"

text \<open>The values of a list and their release.\<close>

definition emq_user_release :: "ptr \<Rightarrow> world \<Rightarrow> world option" where
  "emq_user_release p w = free_obj p w"

definition emq_queue_release :: "ptr \<Rightarrow> world \<Rightarrow> world option" where
  "emq_queue_release p w = free_obj p w"

definition emq_route_release :: "ptr \<Rightarrow> world \<Rightarrow> world option" where
  "emq_route_release p w = free_obj p w"

definition emq_channel_release :: "ptr \<Rightarrow> world \<Rightarrow> world option" where
  "emq_channel_release p w = free_obj p w"

definition emq_route_key_release :: "ptr \<Rightarrow> world \<Rightarrow> world option" where
  "emq_route_key_release p w = free_obj p w"

definition emq_queue_subscription_release :: "ptr \<Rightarrow> world \<Rightarrow> world option" where
  "emq_queue_subscription_release p w = free_obj p w"

definition emq_channel_subscription_release :: "ptr \<Rightarrow> world \<Rightarrow> world option" where
  "emq_channel_subscription_release p w = free_obj p w"

text \<open>Calling a list's \<open>free\<close> method: every handler releases the value with \<open>free\<close>.\<close>

fun call_free_handler :: "free_handler \<Rightarrow> addr \<Rightarrow> world \<Rightarrow> world option" where
  "call_free_handler emq_user_list_free_handler v w = emq_user_release (Some v) w"
| "call_free_handler emq_queue_list_free_handler v w = emq_queue_release (Some v) w"
| "call_free_handler emq_route_list_free_handler v w = emq_route_release (Some v) w"
| "call_free_handler emq_channel_list_free_handler v w = emq_channel_release (Some v) w"
| "call_free_handler emq_route_key_list_free_handler v w = emq_route_key_release (Some v) w"
| "call_free_handler emq_queue_subscription_list_free_handler v w = emq_queue_subscription_release (Some v) w"
| "call_free_handler emq_channel_subscription_list_free_handler v w = emq_channel_subscription_release (Some v) w"

lemmas release_defs = emq_user_release_def emq_queue_release_def emq_route_release_def emq_channel_release_def
  emq_route_key_release_def emq_queue_subscription_release_def emq_channel_subscription_release_def

definition free_value :: "free_handler option \<Rightarrow> addr \<Rightarrow> world \<Rightarrow> world option" where
  "free_value fr v w = (case fr of None \<Rightarrow> Some w | Some h \<Rightarrow> call_free_handler h v w)"

definition emq_list_add_value :: "ptr \<Rightarrow> addr \<Rightarrow> world \<Rightarrow> (int \<times> world) option" where
  "emq_list_add_value list value w = (
     let (node, w) = malloc 24 w in
     case node of
       None \<Rightarrow> Some (EMQ_STATUS_ERR, w)
     | Some n \<Rightarrow> do {
         lp \<leftarrow> list;
         l \<leftarrow> list_hdrs w lp;
         (if list_length l = 0
          then Some (EMQ_STATUS_OK, w\<lparr>
            nodes := (nodes w)(n \<mapsto> \<lparr>node_prev = None, node_next = None, node_value = value\<rparr>),
            list_hdrs := (list_hdrs w)(lp \<mapsto> l\<lparr>list_head := Some n, list_tail := Some n,
              list_length := list_length l + 1\<rparr>)\<rparr>)
          else do {
            h \<leftarrow> list_head l;
            hn \<leftarrow> nodes w h;
            Some (EMQ_STATUS_OK, w\<lparr>
              nodes := (nodes w)(
                n \<mapsto> \<lparr>node_prev = None, node_next = list_head l, node_value = value\<rparr>,
                h \<mapsto> hn\<lparr>node_prev := Some n\<rparr>),
              list_hdrs := (list_hdrs w)(lp \<mapsto> l\<lparr>list_head := Some n,
                list_length := list_length l + 1\<rparr>)\<rparr>) }) })"

text \<open>The two halves of unlinking a node: \<open>node->prev->next = node->next\<close> or the head, and
  \<open>node->next->prev = node->prev\<close> or the tail.\<close>

definition unlink_prev :: "addr \<Rightarrow> emq_list_node \<Rightarrow> world \<Rightarrow> world option" where
  "unlink_prev lp node w = (case node_prev node of
     Some p \<Rightarrow> do {
       pn \<leftarrow> nodes w p;
       Some (w\<lparr>nodes := (nodes w)(p \<mapsto> pn\<lparr>node_next := node_next node\<rparr>)\<rparr>) }
   | None \<Rightarrow> do {
       l \<leftarrow> list_hdrs w lp;
       Some (w\<lparr>list_hdrs := (list_hdrs w)(lp \<mapsto> l\<lparr>list_head := node_next node\<rparr>)\<rparr>) })"

definition unlink_next :: "addr \<Rightarrow> emq_list_node \<Rightarrow> world \<Rightarrow> world option" where
  "unlink_next lp node w = (case node_next node of
     Some q \<Rightarrow> do {
       qn \<leftarrow> nodes w q;
       Some (w\<lparr>nodes := (nodes w)(q \<mapsto> qn\<lparr>node_prev := node_prev node\<rparr>)\<rparr>) }
   | None \<Rightarrow> do {
       l \<leftarrow> list_hdrs w lp;
       Some (w\<lparr>list_hdrs := (list_hdrs w)(lp \<mapsto> l\<lparr>list_tail := node_prev node\<rparr>)\<rparr>) })"

text \<open>\<open>list->length--\<close> on a \<open>size_t\<close>.\<close>

definition dec_length :: "addr \<Rightarrow> world \<Rightarrow> world option" where
  "dec_length lp w = do {
     l \<leftarrow> list_hdrs w lp;
     Some (w\<lparr>list_hdrs := (list_hdrs w)(lp \<mapsto> l\<lparr>list_length :=
       (if list_length l = 0 then 2 ^ 64 - 1 else list_length l - 1)\<rparr>)\<rparr>) }"

definition emq_list_delete_node :: "ptr \<Rightarrow> ptr \<Rightarrow> world \<Rightarrow> world option" where
  "emq_list_delete_node list node w = do {
     lp \<leftarrow> list;
     a \<leftarrow> node;
     n \<leftarrow> nodes w a;
     w \<leftarrow> unlink_prev lp n w;
     n \<leftarrow> nodes w a;
     w \<leftarrow> unlink_next lp n w;
     l \<leftarrow> list_hdrs w lp;
     w \<leftarrow> free_value (list_free l) (node_value n) w;
     w \<leftarrow> free_node node w;
     dec_length lp w }"

primrec release_nodes :: "nat \<Rightarrow> ptr \<Rightarrow> free_handler option \<Rightarrow> world \<Rightarrow> world option" where
  "release_nodes 0 current fr w = Some w"
| "release_nodes (Suc n) current fr w = do {
     c \<leftarrow> deref (nodes w) current;
     w \<leftarrow> free_value fr (node_value c) w;
     w \<leftarrow> free_node current w;
     release_nodes n (node_next c) fr w }"

definition emq_list_release :: "ptr \<Rightarrow> world \<Rightarrow> world option" where
  "emq_list_release list w = do {
     l \<leftarrow> deref (list_hdrs w) list;
     w \<leftarrow> release_nodes (list_length l) (list_head l) (list_free l) w;
     free_list list w }"

text \<open>An iterator is its one member, the next node.\<close>

type_synonym emq_list_iterator = ptr

definition emq_list_rewind :: "ptr \<Rightarrow> world \<Rightarrow> emq_list_iterator option" where
  "emq_list_rewind list w = do {
     l \<leftarrow> deref (list_hdrs w) list;
     Some (list_head l) }"

definition emq_list_next :: "emq_list_iterator \<Rightarrow> world \<Rightarrow> (ptr \<times> emq_list_iterator) option" where
  "emq_list_next iter w = (case iter of
     None \<Rightarrow> Some (None, None)
   | Some current \<Rightarrow> do {
       n \<leftarrow> nodes w current;
       Some (Some current, node_next n) })"

section \<open>Doubly linked segments\<close>

fun first_ptr :: "(addr \<times> addr) list \<Rightarrow> ptr \<Rightarrow> ptr" where
  "first_ptr [] nx = nx"
| "first_ptr ((a, v) # ns) nx = Some a"

fun last_ptr :: "ptr \<Rightarrow> (addr \<times> addr) list \<Rightarrow> ptr" where
  "last_ptr pv [] = pv"
| "last_ptr pv ((a, v) # ns) = last_ptr (Some a) ns"

fun seg :: "(addr \<rightharpoonup> emq_list_node) \<Rightarrow> ptr \<Rightarrow> (addr \<times> addr) list \<Rightarrow> ptr \<Rightarrow> bool" where
  "seg h pv [] nx = True"
| "seg h pv ((a, v) # ns) nx =
     (h a = Some \<lparr>node_prev = pv, node_next = first_ptr ns nx, node_value = v\<rparr> \<and> seg h (Some a) ns nx)"

definition list_rep :: "world \<Rightarrow> addr \<Rightarrow> free_handler option \<Rightarrow> (addr \<times> addr) list \<Rightarrow> bool" where
  "list_rep w lp fr ns \<longleftrightarrow>
     list_hdrs w lp = Some \<lparr>list_head = first_ptr ns None, list_tail = last_ptr None ns,
       list_length = length ns, list_free = fr\<rparr> \<and>
     seg (nodes w) None ns None \<and> distinct (map fst ns)"

lemma call_free_handler_eq [simp]: "call_free_handler h v w = free_obj (Some v) w"
  by (cases h) (simp_all add: release_defs)

lemma first_ptr_append [simp]: "first_ptr (xs @ ys) nx = first_ptr xs (first_ptr ys nx)"
  by (cases xs) auto

lemma last_ptr_append [simp]: "last_ptr pv (xs @ ys) = last_ptr (last_ptr pv xs) ys"
  by (induction pv xs rule: last_ptr.induct) auto

lemma seg_append [simp]:
  "seg h pv (xs @ ys) nx \<longleftrightarrow> seg h pv xs (first_ptr ys nx) \<and> seg h (last_ptr pv xs) ys nx"
  by (induction h pv xs nx rule: seg.induct) auto

lemma seg_upd [simp]: "a \<notin> fst ` set ns \<Longrightarrow> seg (h(a := x)) pv ns nx = seg h pv ns nx"
  by (induction h pv ns nx rule: seg.induct) auto

lemma seg_cong: "(\<And>a. a \<in> fst ` set ns \<Longrightarrow> h' a = h a) \<Longrightarrow> seg h' pv ns nx = seg h pv ns nx"
  by (induction h pv ns nx rule: seg.induct) auto

lemma seg_in_dom: "seg h pv ns nx \<Longrightarrow> a \<in> fst ` set ns \<Longrightarrow> h a \<noteq> None"
  by (induction h pv ns nx rule: seg.induct) auto

lemma list_rep_cong:
  assumes "list_rep w lp fr ns" and "list_hdrs w' lp = list_hdrs w lp"
    and "\<And>a. a \<in> fst ` set ns \<Longrightarrow> nodes w' a = nodes w a"
  shows "list_rep w' lp fr ns"
  using assms seg_cong [of ns "nodes w'" "nodes w"] by (simp add: list_rep_def)

lemma list_rep_unique: "list_rep w lp fr ns \<Longrightarrow> list_rep w lp fr' ns' \<Longrightarrow> fr' = fr \<and> length ns' = length ns"
  by (auto simp: list_rep_def)

section \<open>Each operation as an operation on sequences\<close>

text \<open>
  \<open>list_frame lp A w w'\<close>: between \<open>w\<close> and \<open>w'\<close> only the list structure at \<open>lp\<close> and nodes of
  \<open>A\<close> changed.
\<close>

definition list_frame :: "addr \<Rightarrow> addr set \<Rightarrow> world \<Rightarrow> world \<Rightarrow> bool" where
  "list_frame lp A w w' \<longleftrightarrow> (\<exists>ls nd. w' = w\<lparr>list_hdrs := ls, nodes := nd\<rparr> \<and>
     (\<forall>q. q \<noteq> lp \<longrightarrow> ls q = list_hdrs w q) \<and> (\<forall>a. a \<notin> A \<longrightarrow> nd a = nodes w a) \<and>
     dom ls = dom (list_hdrs w))"

lemma list_frameI:
  "w' = w\<lparr>list_hdrs := ls, nodes := nd\<rparr> \<Longrightarrow> (\<And>q. q \<noteq> lp \<Longrightarrow> ls q = list_hdrs w q) \<Longrightarrow>
   (\<And>a. a \<notin> A \<Longrightarrow> nd a = nodes w a) \<Longrightarrow> dom ls = dom (list_hdrs w) \<Longrightarrow> list_frame lp A w w'"
  unfolding list_frame_def by blast

lemma list_frame_refl [simp]: "list_frame lp A w w"
  by (rule list_frameI [where ls = "list_hdrs w" and nd = "nodes w"]) simp_all

lemma list_frame_fields:
  "list_frame lp A w w' \<Longrightarrow> clients w' = clients w \<and> objs w' = objs w \<and> msgs w' = msgs w \<and>
     bufs w' = bufs w \<and> brk w' = brk w \<and> alloc_ok w' = alloc_ok w \<and> socks w' = socks w \<and>
     dom (list_hdrs w') = dom (list_hdrs w)"
  unfolding list_frame_def by (elim exE conjE) simp

lemma list_frame_other:
  "list_frame lp A w w' \<Longrightarrow> list_rep w lq fr ns \<Longrightarrow> lq \<noteq> lp \<Longrightarrow> A \<inter> fst ` set ns = {} \<Longrightarrow> list_rep w' lq fr ns"
  unfolding list_frame_def by (elim exE conjE, rule list_rep_cong [of w]) (simp, simp, force)

lemma malloc_small:
  "n < 2 ^ 63 \<Longrightarrow> malloc n w = (if alloc_ok w (brk w) then Some (brk w) else None, w\<lparr>brk := Suc (brk w)\<rparr>)"
  by (simp add: malloc_def)

lemma emq_list_init_rep:
  assumes "emq_list_init w = (Some lp, w')"
  shows "lp = brk w \<and> list_rep w' lp None [] \<and>
    w' = w\<lparr>brk := Suc (brk w), list_hdrs := list_hdrs w'\<rparr> \<and> list_hdrs w' = (list_hdrs w)(lp \<mapsto>
      \<lparr>list_head = None, list_tail = None, list_length = 0, list_free = None\<rparr>)"
  using assms by (auto simp: emq_list_init_def malloc_small list_rep_def split: if_splits)

lemma set_free_method_rep:
  assumes "list_rep w lp fr ns"
  shows "\<exists>w'. EMQ_LIST_SET_FREE_METHOD (Some lp) m w = Some w' \<and> list_rep w' lp (Some m) ns \<and>
    list_frame lp {} w w'"
proof -
  let ?l = "\<lparr>list_head = first_ptr ns None, list_tail = last_ptr None ns,
      list_length = length ns, list_free = Some m\<rparr>"
  have "list_frame lp {} w (w\<lparr>list_hdrs := (list_hdrs w)(lp \<mapsto> ?l)\<rparr>)"
    using assms by (intro list_frameI [where ls = "(list_hdrs w)(lp \<mapsto> ?l)" and nd = "nodes w"])
      (auto simp: list_rep_def)
  with assms show ?thesis
    by (simp add: EMQ_LIST_SET_FREE_METHOD_def list_rep_def)
qed

lemma emq_list_add_value_fails:
  "\<not> alloc_ok w (brk w) \<Longrightarrow> emq_list_add_value lp v w = Some (EMQ_STATUS_ERR, w\<lparr>brk := Suc (brk w)\<rparr>)"
  by (simp add: emq_list_add_value_def malloc_small)

lemma emq_list_add_value_rep:
  assumes rep: "list_rep w lp fr ns" and fresh: "brk w \<notin> fst ` set ns" and ok: "alloc_ok w (brk w)"
  shows "\<exists>w'. emq_list_add_value (Some lp) v w = Some (EMQ_STATUS_OK, w') \<and>
    list_rep w' lp fr ((brk w, v) # ns) \<and>
    list_frame lp (insert (brk w) (fst ` set ns)) (w\<lparr>brk := Suc (brk w)\<rparr>) w' \<and>
    dom (nodes w') = insert (brk w) (dom (nodes w))"
proof (cases ns)
  case Nil
  let ?nd = "(nodes w)(brk w \<mapsto> \<lparr>node_prev = None, node_next = None, node_value = v\<rparr>)"
  let ?ls = "(list_hdrs w)(lp \<mapsto> \<lparr>list_head = Some (brk w), list_tail = Some (brk w),
      list_length = 1, list_free = fr\<rparr>)"
  let ?w = "w\<lparr>brk := Suc (brk w), list_hdrs := ?ls, nodes := ?nd\<rparr>"
  have call: "emq_list_add_value (Some lp) v w = Some (EMQ_STATUS_OK, ?w)"
    using rep ok by (simp add: emq_list_add_value_def malloc_small list_rep_def Nil)
  have "list_frame lp (insert (brk w) (fst ` set ns)) (w\<lparr>brk := Suc (brk w)\<rparr>) ?w"
    using rep by (intro list_frameI [where ls = ?ls and nd = ?nd]) (auto simp: list_rep_def)
  moreover have "list_rep ?w lp fr ((brk w, v) # ns)"
    by (simp add: list_rep_def Nil)
  moreover have "dom (nodes ?w) = insert (brk w) (dom (nodes w))" by auto
  ultimately show ?thesis using call by blast
next
  case (Cons av ms)
  obtain a u where av: "av = (a, u)" by (cases av)
  let ?n = "brk w" and ?h = "\<lparr>node_prev = None, node_next = first_ptr ms None, node_value = u\<rparr>"
  let ?nd = "(nodes w)(?n \<mapsto> \<lparr>node_prev = None, node_next = Some a, node_value = v\<rparr>,
      a \<mapsto> ?h\<lparr>node_prev := Some ?n\<rparr>)"
  let ?ls = "(list_hdrs w)(lp \<mapsto> \<lparr>list_head = Some ?n, list_tail = last_ptr (Some a) ms,
      list_length = length ns + 1, list_free = fr\<rparr>)"
  let ?w = "w\<lparr>brk := Suc (brk w), list_hdrs := ?ls, nodes := ?nd\<rparr>"
  have head: "nodes w a = Some ?h" and tail: "seg (nodes w) (Some a) ms None"
    and dist: "a \<notin> fst ` set ms" "distinct (map fst ms)"
    and lst: "list_hdrs w lp = Some \<lparr>list_head = Some a, list_tail = last_ptr (Some a) ms,
      list_length = length ns, list_free = fr\<rparr>"
    using rep by (auto simp: list_rep_def Cons av)
  have n: "?n \<noteq> a" "?n \<notin> fst ` set ms" using fresh by (auto simp: Cons av)
  have call: "emq_list_add_value (Some lp) v w = Some (EMQ_STATUS_OK, ?w)"
    using lst head n ok by (simp add: emq_list_add_value_def malloc_small Cons)
  have "list_rep ?w lp fr ((?n, v) # ns)"
    using tail dist n by (auto simp: list_rep_def Cons av)
  moreover have "list_frame lp (insert ?n (fst ` set ns)) (w\<lparr>brk := Suc (brk w)\<rparr>) ?w"
    using lst by (intro list_frameI [where ls = ?ls and nd = ?nd]) (auto simp: Cons av)
  moreover have "dom (nodes ?w) = insert ?n (dom (nodes w))"
    using head by auto
  ultimately show ?thesis using call by blast
qed

text \<open>Unlinking a node, one side at a time.\<close>

lemma unlink_prev_seg:
  assumes "list_hdrs w lp = Some l" and "seg (nodes w) None xs nx0" and "distinct (map fst xs)"
    and "node_prev n = last_ptr None xs"
  shows "\<exists>nd. unlink_prev lp n w = Some (w\<lparr>list_hdrs := (list_hdrs w)(lp \<mapsto>
        l\<lparr>list_head := (if xs = [] then node_next n else list_head l)\<rparr>), nodes := nd\<rparr>) \<and>
    seg nd None xs (node_next n) \<and> (\<forall>b. b \<notin> fst ` set xs \<longrightarrow> nd b = nodes w b) \<and>
    dom nd = dom (nodes w)"
proof (cases xs rule: rev_cases)
  case Nil
  with assms show ?thesis
    by (intro exI [of _ "nodes w"]) (simp add: unlink_prev_def)
next
  case (snoc zs z)
  obtain p u where z: "z = (p, u)" by (cases z)
  let ?pn = "\<lparr>node_prev = last_ptr None zs, node_next = nx0, node_value = u\<rparr>"
  let ?nd = "(nodes w)(p \<mapsto> ?pn\<lparr>node_next := node_next n\<rparr>)"
  have p: "nodes w p = Some ?pn" and p': "p \<notin> fst ` set zs" and zs: "seg (nodes w) None zs (Some p)"
    using assms(2,3) by (simp_all add: snoc z)
  have "unlink_prev lp n w = Some (w\<lparr>nodes := ?nd\<rparr>)"
    using p assms(4) by (simp add: unlink_prev_def snoc z)
  moreover have "w\<lparr>nodes := ?nd\<rparr> = w\<lparr>list_hdrs := (list_hdrs w)(lp \<mapsto>
        l\<lparr>list_head := (if xs = [] then node_next n else list_head l)\<rparr>), nodes := ?nd\<rparr>"
    using assms(1) by (simp add: snoc fun_upd_idem)
  moreover have "seg ?nd None xs (node_next n)"
    using p' zs by (simp add: snoc z)
  moreover have "dom ?nd = dom (nodes w)" using p by auto
  ultimately show ?thesis
    by (intro exI [of _ ?nd]) (simp add: snoc z)
qed

lemma unlink_next_seg:
  assumes "list_hdrs w lp = Some l" and "seg (nodes w) pv0 ys None" and "distinct (map fst ys)"
    and "node_next n = first_ptr ys None"
  shows "\<exists>nd. unlink_next lp n w = Some (w\<lparr>list_hdrs := (list_hdrs w)(lp \<mapsto>
        l\<lparr>list_tail := (if ys = [] then node_prev n else list_tail l)\<rparr>), nodes := nd\<rparr>) \<and>
    seg nd (node_prev n) ys None \<and> (\<forall>b. b \<notin> fst ` set ys \<longrightarrow> nd b = nodes w b) \<and>
    dom nd = dom (nodes w)"
proof (cases ys)
  case Nil
  with assms show ?thesis
    by (intro exI [of _ "nodes w"]) (simp add: unlink_next_def)
next
  case (Cons z zs)
  obtain q u where z: "z = (q, u)" by (cases z)
  let ?qn = "\<lparr>node_prev = pv0, node_next = first_ptr zs None, node_value = u\<rparr>"
  let ?nd = "(nodes w)(q \<mapsto> ?qn\<lparr>node_prev := node_prev n\<rparr>)"
  have q: "nodes w q = Some ?qn" and q': "q \<notin> fst ` set zs" and zs: "seg (nodes w) (Some q) zs None"
    using assms(2,3) by (simp_all add: Cons z)
  have "unlink_next lp n w = Some (w\<lparr>nodes := ?nd\<rparr>)"
    using q assms(4) by (simp add: unlink_next_def Cons z)
  moreover have "w\<lparr>nodes := ?nd\<rparr> = w\<lparr>list_hdrs := (list_hdrs w)(lp \<mapsto>
        l\<lparr>list_tail := (if ys = [] then node_prev n else list_tail l)\<rparr>), nodes := ?nd\<rparr>"
    using assms(1) by (simp add: Cons fun_upd_idem)
  moreover have "seg ?nd (node_prev n) ys None"
    using q' zs by (simp add: Cons z)
  moreover have "dom ?nd = dom (nodes w)" using q by auto
  ultimately show ?thesis
    by (intro exI [of _ ?nd]) (simp add: Cons z)
qed

definition freed_objs :: "free_handler option \<Rightarrow> addr list \<Rightarrow> world \<Rightarrow> (addr \<rightharpoonup> emq_object)" where
  "freed_objs fr vs w = (if fr = None then objs w else objs w |` (- set vs))"

lemma free_value_obj:
  "fr = None \<or> objs w v \<noteq> None \<Longrightarrow> free_value fr v w = Some (w\<lparr>objs := freed_objs fr [v] w\<rparr>)"
  by (auto simp: free_value_def free_obj_def free_at_def freed_objs_def restrict_complement_singleton_eq
      split: option.splits)

lemma emq_list_delete_node_rep:
  assumes rep: "list_rep w lp fr (xs @ (a, v) # ys)" and obj: "fr = None \<or> objs w v \<noteq> None"
  shows "\<exists>w'. emq_list_delete_node (Some lp) (Some a) w = Some w' \<and> list_rep w' lp fr (xs @ ys) \<and>
    list_frame lp (fst ` set (xs @ (a, v) # ys)) (w\<lparr>objs := freed_objs fr [v] w\<rparr>) w' \<and>
    dom (nodes w') = dom (nodes w) - {a}"
proof -
  let ?n = "\<lparr>node_prev = last_ptr None xs, node_next = first_ptr ys None, node_value = v\<rparr>"
  let ?l = "\<lparr>list_head = first_ptr xs (Some a), list_tail = last_ptr (Some a) ys,
      list_length = Suc (length xs + length ys), list_free = fr\<rparr>"
  have l: "list_hdrs w lp = Some ?l" and n: "nodes w a = Some ?n"
    and sx: "seg (nodes w) None xs (Some a)" and sy: "seg (nodes w) (Some a) ys None"
    and dx: "distinct (map fst xs)" and dy: "distinct (map fst ys)"
    and ax: "a \<notin> fst ` set xs" and ay: "a \<notin> fst ` set ys"
    and xy: "fst ` set xs \<inter> fst ` set ys = {}"
    using rep by (auto simp: list_rep_def)
  define l1 where "l1 = ?l\<lparr>list_head := first_ptr xs (first_ptr ys None)\<rparr>"
  have "(if xs = [] then node_next ?n else list_head ?l) = first_ptr xs (first_ptr ys None)"
    by (cases xs) auto
  with unlink_prev_seg [OF l sx dx, of ?n] obtain nd1 where
    nd1: "unlink_prev lp ?n w = Some (w\<lparr>list_hdrs := (list_hdrs w)(lp \<mapsto> l1), nodes := nd1\<rparr>)"
      "seg nd1 None xs (first_ptr ys None)" "\<And>b. b \<notin> fst ` set xs \<Longrightarrow> nd1 b = nodes w b"
      "dom nd1 = dom (nodes w)"
    by (auto simp: l1_def)
  define w1 where "w1 = w\<lparr>list_hdrs := (list_hdrs w)(lp \<mapsto> l1), nodes := nd1\<rparr>"
  have w1: "list_hdrs w1 lp = Some l1" "nodes w1 = nd1" "nodes w1 a = Some ?n"
    using nd1(3) [OF ax] n by (simp_all add: w1_def)
  have "b \<notin> fst ` set xs" if "b \<in> fst ` set ys" for b using xy that by auto
  then have sy1: "seg (nodes w1) (Some a) ys None"
    using sy seg_cong [of ys nd1 "nodes w"] nd1(3) by (simp add: w1(2))
  define l2 where "l2 = l1\<lparr>list_tail := last_ptr (last_ptr None xs) ys\<rparr>"
  have "l1\<lparr>list_tail := (if ys = [] then node_prev ?n else list_tail l1)\<rparr> = l2"
    by (cases ys) (auto simp: l1_def l2_def)
  with unlink_next_seg [OF w1(1) sy1 dy, of ?n] obtain nd2 where
    nd2: "unlink_next lp ?n w1 = Some (w1\<lparr>list_hdrs := (list_hdrs w1)(lp \<mapsto> l2), nodes := nd2\<rparr>)"
      "seg nd2 (last_ptr None xs) ys None" "\<And>b. b \<notin> fst ` set ys \<Longrightarrow> nd2 b = nd1 b"
      "dom nd2 = dom nd1"
    by (auto simp: w1(2))
  define ob where "ob = freed_objs fr [v] w"
  let ?ls = "(list_hdrs w)(lp \<mapsto> l2\<lparr>list_length := length xs + length ys\<rparr>)"
  let ?nd = "nd2(a := None)"
  let ?w = "w\<lparr>objs := ob, list_hdrs := ?ls, nodes := ?nd\<rparr>"
  have n2: "nd2 a = Some ?n" using nd2(3) [OF ay] w1 by simp
  define w2 where "w2 = w1\<lparr>list_hdrs := (list_hdrs w1)(lp \<mapsto> l2), nodes := nd2\<rparr>"
  have u1: "unlink_prev lp ?n w = Some w1" and u2: "unlink_next lp ?n w1 = Some w2"
    using nd1(1) nd2(1) by (simp_all add: w1_def w2_def)
  have w2: "list_hdrs w2 lp = Some l2" "list_free l2 = fr" "nodes w2 = nd2" "objs w2 = objs w"
    by (simp_all add: w2_def w1_def l2_def l1_def)
  have fv: "free_value fr v w2 = Some (w2\<lparr>objs := ob\<rparr>)"
    using free_value_obj [of fr w2 v] obj by (simp add: w2 ob_def freed_objs_def)
  have "emq_list_delete_node (Some lp) (Some a) w = dec_length lp (w2\<lparr>objs := ob, nodes := ?nd\<rparr>)"
    using n u1 w1(3) u2 w2 fv n2 by (simp add: emq_list_delete_node_def free_node_def)
  then have call: "emq_list_delete_node (Some lp) (Some a) w = Some ?w"
    using w2(1) by (simp add: dec_length_def w2_def w1_def l2_def l1_def)
  have "b \<notin> fst ` set ys" if "b \<in> fst ` set xs" for b using xy that by auto
  then have "seg nd2 None xs (first_ptr ys None)"
    using nd1(2) seg_cong [of xs nd2 nd1] nd2(3) by simp
  then have "list_rep ?w lp fr (xs @ ys)"
    using nd2(2) dx dy ax ay xy by (simp add: list_rep_def l2_def l1_def)
  moreover have "list_frame lp (fst ` set (xs @ (a, v) # ys)) (w\<lparr>objs := ob\<rparr>) ?w"
    using l nd1(3) nd2(3)
    by (intro list_frameI [where ls = ?ls and nd = ?nd]) (auto simp: image_Un)
  moreover have "dom (nodes ?w) = dom (nodes w) - {a}"
    using nd1(4) nd2(4) by simp
  ultimately show ?thesis using call by (auto simp: ob_def)
qed

lemma release_nodes_seg:
  assumes "seg (nodes w) pv ns None" and "distinct (map fst ns)" and "distinct (map snd ns)"
    and "fr = None \<or> snd ` set ns \<subseteq> dom (objs w)"
  shows "release_nodes (length ns) (first_ptr ns None) fr w =
    Some (w\<lparr>objs := freed_objs fr (map snd ns) w, nodes := nodes w |` (- fst ` set ns)\<rparr>)"
  using assms
proof (induction ns arbitrary: pv w)
  case Nil
  then show ?case by (simp add: freed_objs_def)
next
  case (Cons av ns)
  obtain a v where av: "av = (a, v)" by (cases av)
  let ?w1 = "w\<lparr>objs := freed_objs fr [v] w, nodes := (nodes w)(a := None)\<rparr>"
  have n: "nodes w a = Some \<lparr>node_prev = pv, node_next = first_ptr ns None, node_value = v\<rparr>"
    and tail: "seg (nodes w) (Some a) ns None" and a: "a \<notin> fst ` set ns" and v: "v \<notin> snd ` set ns"
    using Cons.prems by (auto simp: av)
  have "free_value fr v w = Some (w\<lparr>objs := freed_objs fr [v] w\<rparr>)"
    using Cons.prems(4) by (intro free_value_obj) (auto simp: av)
  then have "release_nodes (length (av # ns)) (first_ptr (av # ns) None) fr w
      = release_nodes (length ns) (first_ptr ns None) fr ?w1"
    using n by (simp add: av free_node_def)
  also have "\<dots> = Some (?w1\<lparr>objs := freed_objs fr (map snd ns) ?w1, nodes := nodes ?w1 |` (- fst ` set ns)\<rparr>)"
  proof (rule Cons.IH [where pv = "Some a"])
    show "seg (nodes ?w1) (Some a) ns None" using tail a by simp
    show "fr = None \<or> snd ` set ns \<subseteq> dom (objs ?w1)"
    proof (cases "fr = None")
      case False
      then have "snd ` set ns \<subseteq> dom (objs w) - {v}"
        using Cons.prems(4) v by (auto simp: av subset_Diff_insert simp del: not_None_eq)
      then show ?thesis by (simp add: freed_objs_def Diff_eq)
    qed simp
  qed (use Cons.prems in simp_all)
  also have "?w1\<lparr>objs := freed_objs fr (map snd ns) ?w1, nodes := nodes ?w1 |` (- fst ` set ns)\<rparr>
      = w\<lparr>objs := freed_objs fr (map snd (av # ns)) w, nodes := nodes w |` (- fst ` set (av # ns))\<rparr>"
    by (auto simp: av freed_objs_def restrict_map_def fun_eq_iff)
  finally show ?case .
qed

lemma emq_list_release_rep:
  assumes "list_rep w lp fr ns" and "distinct (map snd ns)"
    and "fr = None \<or> snd ` set ns \<subseteq> dom (objs w)"
  shows "emq_list_release (Some lp) w = Some (w\<lparr>objs := freed_objs fr (map snd ns) w,
    nodes := nodes w |` (- fst ` set ns), list_hdrs := (list_hdrs w)(lp := None)\<rparr>)"
  using assms release_nodes_seg [of w None ns fr]
  by (simp add: list_rep_def emq_list_release_def free_list_def)

lemma emq_list_rewind_rep:
  "list_rep w lp fr ns \<Longrightarrow> emq_list_rewind (Some lp) w = Some (first_ptr ns None)"
  by (simp add: list_rep_def emq_list_rewind_def)

lemma emq_list_next_rep:
  "list_rep w lp fr (xs @ (a, v) # ys) \<Longrightarrow> emq_list_next (Some a) w = Some (Some a, first_ptr ys None)"
  "list_rep w lp fr (xs @ (a, v) # ys) \<Longrightarrow> \<exists>n. nodes w a = Some n \<and> node_value n = v"
  by (auto simp: list_rep_def emq_list_next_def)

lemma emq_list_next_end [simp]: "emq_list_next None w = Some (None, None)"
  by (simp add: emq_list_next_def)

lemma list_rep_length: "list_rep w lp fr ns \<Longrightarrow> map_option list_length (list_hdrs w lp) = Some (length ns)"
  by (simp add: list_rep_def)

end
