(* ===== verification/Emq_Client.thy ===== *)
theory Emq_Client
  imports Emq_Network Emq_List
begin

text \<open>
  The client context of \<^verbatim>\<open>src/src/emq.c\<close>: its error text and status, its life from
  \<open>emq_client_init\<close> to \<open>emq_client_release\<close>, the public connect and disconnect calls and
  the acknowledgement switch. \<open>client_lists\<close> and \<open>client_buffer\<close> say what a client owns; what its
  creation and its end do with that is shown in \<open>Emq_Lifecycle\<close>.
\<close>

section \<open>Error text and status\<close>

definition emq_error_array :: "string list" where
  "emq_error_array = [
     '''',
     ''Error allocate memory'',
     ''Error input data'',
     ''Error write request'',
     ''Error read request'',
     ''Response error'',
     ''Packet error'',
     ''Command error'',
     ''Access error'',
     ''Memory error'',
     ''Value not declared'',
     ''Value not found'',
     ''No data'']"

definition emq_client_set_error :: "ptr \<Rightarrow> emq_error \<Rightarrow> world \<Rightarrow> world option" where
  "emq_client_set_error client error w = do {
     c \<leftarrow> get_client client w;
     put_client client (c\<lparr>c_error :=
       take (EMQ_ERROR_BUF_SIZE - 1) (emq_error_array ! error_code error)\<rparr>) w }"

definition EMQ_CLEAR_ERROR :: "ptr \<Rightarrow> world \<Rightarrow> world option" where
  "EMQ_CLEAR_ERROR client w = do {
     c \<leftarrow> get_client client w;
     put_client client (c\<lparr>c_error := ''''\<rparr>) w }"

definition EMQ_ISSET_ERROR :: "emq_client \<Rightarrow> bool" where
  "EMQ_ISSET_ERROR c \<longleftrightarrow> c_error c \<noteq> ''''"

definition EMQ_SET_STATUS :: "ptr \<Rightarrow> int \<Rightarrow> world \<Rightarrow> world option" where
  "EMQ_SET_STATUS client value w = do {
     c \<leftarrow> get_client client w;
     put_client client (c\<lparr>c_status := value\<rparr>) w }"

definition emq_last_error :: "ptr \<Rightarrow> world \<Rightarrow> string option" where
  "emq_last_error client w = map_option c_error (get_client client w)"

definition emq_version :: int where
  "emq_version = EMQ_VERSION EMQ_VERSION_MAJOR EMQ_VERSION_MINOR"

definition emq_noack_enable :: "ptr \<Rightarrow> world \<Rightarrow> world option" where
  "emq_noack_enable client w = do {
     c \<leftarrow> get_client client w;
     put_client client (c\<lparr>c_noack := 1\<rparr>) w }"

definition emq_noack_disable :: "ptr \<Rightarrow> world \<Rightarrow> world option" where
  "emq_noack_disable client w = do {
     c \<leftarrow> get_client client w;
     put_client client (c\<lparr>c_noack := 0\<rparr>) w }"

section \<open>Creation and release\<close>

definition emq_client_init :: "world \<Rightarrow> (ptr \<times> world) option" where
  "emq_client_init w = (
     let (client, w) = malloc 312 w in
     case client of
       None \<Rightarrow> Some (None, w)
     | Some a \<Rightarrow>
         let (request, w) = buf_alloc EMQ_DEFAULT_REQUEST_SIZE w;
             (queue_subscriptions, w) = emq_list_init w;
             (channel_subscriptions, w) = emq_list_init w;
             c = \<lparr>c_status = EMQ_STATUS_OK, c_error = '''', c_request = request,
                  c_size = EMQ_DEFAULT_REQUEST_SIZE, c_pos = 0, c_noack = 0, c_fd = 0,
                  c_queue_subscriptions = queue_subscriptions,
                  c_channel_subscriptions = channel_subscriptions\<rparr>;
             w = w\<lparr>clients := (clients w)(a \<mapsto> c)\<rparr>
         in if request = None then do {
              w \<leftarrow> free_client client w;
              Some (None, w) }
            else do {
              c \<leftarrow> get_client client w;
              w \<leftarrow> (if c_queue_subscriptions c = None then do {
                      w \<leftarrow> free_buf (c_request c) w;
                      free_client client w }
                    else Some w);
              c \<leftarrow> get_client client w;
              w \<leftarrow> (if c_channel_subscriptions c = None then do {
                      w \<leftarrow> emq_list_release (c_queue_subscriptions c) w;
                      w \<leftarrow> free_buf (c_request c) w;
                      free_client client w }
                    else Some w);
              c \<leftarrow> get_client client w;
              w \<leftarrow> EMQ_LIST_SET_FREE_METHOD (c_queue_subscriptions c)
                     emq_queue_subscription_list_free_handler w;
              w \<leftarrow> EMQ_LIST_SET_FREE_METHOD (c_channel_subscriptions c)
                     emq_channel_subscription_list_free_handler w;
              Some (client, w) })"

definition emq_client_release :: "ptr \<Rightarrow> world \<Rightarrow> world option" where
  "emq_client_release client w = do {
     c \<leftarrow> get_client client w;
     w \<leftarrow> emq_list_release (c_queue_subscriptions c) w;
     w \<leftarrow> emq_list_release (c_channel_subscriptions c) w;
     w \<leftarrow> free_buf (c_request c) w;
     free_client client w }"

definition emq_tcp_connect :: "string \<Rightarrow> world \<Rightarrow> (ptr \<times> world) option" where
  "emq_tcp_connect addr w = do {
     (client, w) \<leftarrow> emq_client_init w;
     if client = None then Some (None, w)
     else do {
       w \<leftarrow> EMQ_CLEAR_ERROR client w;
       (r, w) \<leftarrow> emq_client_tcp_connect client addr w;
       if r = EMQ_NET_ERR then do {
         w \<leftarrow> emq_client_release client w;
         Some (None, w) }
       else do {
         w \<leftarrow> EMQ_SET_STATUS client EMQ_STATUS_OK w;
         Some (client, w) } } }"

definition emq_unix_connect :: "world \<Rightarrow> (ptr \<times> world) option" where
  "emq_unix_connect w = do {
     (client, w) \<leftarrow> emq_client_init w;
     if client = None then Some (None, w)
     else do {
       w \<leftarrow> EMQ_CLEAR_ERROR client w;
       (r, w) \<leftarrow> emq_client_unix_connect client w;
       if r = EMQ_NET_ERR then do {
         w \<leftarrow> emq_client_release client w;
         Some (None, w) }
       else do {
         w \<leftarrow> EMQ_SET_STATUS client EMQ_STATUS_OK w;
         Some (client, w) } } }"

definition emq_disconnect :: "ptr \<Rightarrow> world \<Rightarrow> world option" where
  "emq_disconnect client w = (
     if client = None then Some w
     else do {
       w \<leftarrow> emq_client_disconnect client w;
       emq_client_release client w })"

section \<open>Subscription objects\<close>

definition emq_queue_subscription_create :: "bytes \<Rightarrow> callback \<Rightarrow> world \<Rightarrow> (ptr \<times> world) option" where
  "emq_queue_subscription_create name callback w = (
     let (subscription, w) = malloc 72 w in
     case subscription of
       None \<Rightarrow> Some (None, w)
     | Some a \<Rightarrow> do {
         name_field \<leftarrow> memcpy (replicate 64 0) (cstrz name);
         Some (subscription, w\<lparr>objs := (objs w)(a \<mapsto>
           QueueSubscription \<lparr>qs_name = name_field, qs_callback = callback\<rparr>)\<rparr>) })"

definition emq_channel_subscription_create ::
    "bytes \<Rightarrow> bytes \<Rightarrow> callback \<Rightarrow> world \<Rightarrow> (ptr \<times> world) option" where
  "emq_channel_subscription_create name data callback w = (
     let (subscription, w) = malloc 104 w in
     case subscription of
       None \<Rightarrow> Some (None, w)
     | Some a \<Rightarrow> do {
         name_field \<leftarrow> memcpy (replicate 64 0) (cstrz name);
         channel_field \<leftarrow> memcpy (replicate 32 0) (cstrz data);
         Some (subscription, w\<lparr>objs := (objs w)(a \<mapsto>
           ChannelSubscription \<lparr>cs_name = name_field, cs_channel = channel_field,
             cs_callback = callback\<rparr>)\<rparr>) })"

section \<open>The invariant of a client\<close>

text \<open>No address from \<open>brk\<close> on is in use, in any of the heaps.\<close>

definition world_wf :: "world \<Rightarrow> bool" where
  "world_wf w \<longleftrightarrow> (\<forall>a \<ge> brk w. clients w a = None \<and> list_hdrs w a = None \<and> nodes w a = None \<and>
     objs w a = None \<and> msgs w a = None \<and> bufs w a = None)"

definition is_queue_sub :: "world \<Rightarrow> addr \<Rightarrow> bool" where
  "is_queue_sub w v \<longleftrightarrow> (\<exists>s. objs w v = Some (QueueSubscription s) \<and>
     length (qs_name s) = 64 \<and> 0 \<in> set (qs_name s))"

definition is_channel_sub :: "world \<Rightarrow> addr \<Rightarrow> bool" where
  "is_channel_sub w v \<longleftrightarrow> (\<exists>s. objs w v = Some (ChannelSubscription s) \<and>
     length (cs_name s) = 64 \<and> 0 \<in> set (cs_name s))"

text \<open>
  \<open>client_inv p w qs cs\<close>: the client at \<open>p\<close> is alive, its request buffer is as large as it
  says, and its two lists represent \<open>qs\<close> and \<open>cs\<close>, share nothing, and hold subscriptions
  whose names are terminated inside their fields.
\<close>

definition client_lists :: "emq_client \<Rightarrow> world \<Rightarrow> (addr \<times> addr) list \<Rightarrow> (addr \<times> addr) list \<Rightarrow> bool" where
  "client_lists c w qs cs \<longleftrightarrow> (\<exists>ql cl.
     c_queue_subscriptions c = Some ql \<and> c_channel_subscriptions c = Some cl \<and> ql \<noteq> cl \<and>
     list_rep w ql (Some emq_queue_subscription_list_free_handler) qs \<and>
     list_rep w cl (Some emq_channel_subscription_list_free_handler) cs \<and>
     fst ` set qs \<inter> fst ` set cs = {} \<and> distinct (map snd qs @ map snd cs) \<and>
     (\<forall>v \<in> snd ` set qs. is_queue_sub w v) \<and> (\<forall>v \<in> snd ` set cs. is_channel_sub w v))"

definition client_buffer :: "emq_client \<Rightarrow> world \<Rightarrow> bool" where
  "client_buffer c w \<longleftrightarrow> (\<exists>r b. c_request c = Some r \<and> bufs w r = Some b \<and>
     length b = c_size c \<and> 168 \<le> c_size c)"

definition client_inv :: "ptr \<Rightarrow> world \<Rightarrow> (addr \<times> addr) list \<Rightarrow> (addr \<times> addr) list \<Rightarrow> bool" where
  "client_inv p w qs cs \<longleftrightarrow> (\<exists>c. get_client p w = Some c \<and> client_buffer c w \<and> client_lists c w qs cs)"

end
