(* ===== verification/Emq_Protocol.thy ===== *)
theory Emq_Protocol
  imports Emq_Prelude
begin

text \<open>
  \<^verbatim>\<open>src/src/protocol.h\<close>: the codes of the binary protocol and the packed structs of its
  headers and bodies. A struct is a record; its \<open>_bytes\<close> function is the memory image that
  \<open>memcpy\<close> and \<open>write\<close> see, and \<open>sizeof_*_body\<close> is the size of its \<open>body\<close> member.
\<close>

section \<open>Codes\<close>

definition EMQ_PROTOCOL_REQ :: u16 where "EMQ_PROTOCOL_REQ = 0x70"
definition EMQ_PROTOCOL_RES :: u16 where "EMQ_PROTOCOL_RES = 0x80"
definition EMQ_PROTOCOL_EVENT :: u16 where "EMQ_PROTOCOL_EVENT = 0x90"

datatype protocol_command =
    EMQ_PROTOCOL_CMD_AUTH | EMQ_PROTOCOL_CMD_PING
  | EMQ_PROTOCOL_CMD_STAT | EMQ_PROTOCOL_CMD_SAVE
  | EMQ_PROTOCOL_CMD_FLUSH | EMQ_PROTOCOL_CMD_DISCONNECT
  | EMQ_PROTOCOL_CMD_USER_CREATE | EMQ_PROTOCOL_CMD_USER_LIST
  | EMQ_PROTOCOL_CMD_USER_RENAME | EMQ_PROTOCOL_CMD_USER_SET_PERM
  | EMQ_PROTOCOL_CMD_USER_DELETE | EMQ_PROTOCOL_CMD_QUEUE_CREATE
  | EMQ_PROTOCOL_CMD_QUEUE_DECLARE | EMQ_PROTOCOL_CMD_QUEUE_EXIST
  | EMQ_PROTOCOL_CMD_QUEUE_LIST | EMQ_PROTOCOL_CMD_QUEUE_RENAME
  | EMQ_PROTOCOL_CMD_QUEUE_SIZE | EMQ_PROTOCOL_CMD_QUEUE_PUSH
  | EMQ_PROTOCOL_CMD_QUEUE_GET | EMQ_PROTOCOL_CMD_QUEUE_POP
  | EMQ_PROTOCOL_CMD_QUEUE_CONFIRM | EMQ_PROTOCOL_CMD_QUEUE_SUBSCRIBE
  | EMQ_PROTOCOL_CMD_QUEUE_UNSUBSCRIBE | EMQ_PROTOCOL_CMD_QUEUE_PURGE
  | EMQ_PROTOCOL_CMD_QUEUE_DELETE | EMQ_PROTOCOL_CMD_ROUTE_CREATE
  | EMQ_PROTOCOL_CMD_ROUTE_EXIST | EMQ_PROTOCOL_CMD_ROUTE_LIST
  | EMQ_PROTOCOL_CMD_ROUTE_KEYS | EMQ_PROTOCOL_CMD_ROUTE_RENAME
  | EMQ_PROTOCOL_CMD_ROUTE_BIND | EMQ_PROTOCOL_CMD_ROUTE_UNBIND
  | EMQ_PROTOCOL_CMD_ROUTE_PUSH | EMQ_PROTOCOL_CMD_ROUTE_DELETE
  | EMQ_PROTOCOL_CMD_CHANNEL_CREATE | EMQ_PROTOCOL_CMD_CHANNEL_EXIST
  | EMQ_PROTOCOL_CMD_CHANNEL_LIST | EMQ_PROTOCOL_CMD_CHANNEL_RENAME
  | EMQ_PROTOCOL_CMD_CHANNEL_PUBLISH | EMQ_PROTOCOL_CMD_CHANNEL_SUBSCRIBE
  | EMQ_PROTOCOL_CMD_CHANNEL_PSUBSCRIBE | EMQ_PROTOCOL_CMD_CHANNEL_UNSUBSCRIBE
  | EMQ_PROTOCOL_CMD_CHANNEL_PUNSUBSCRIBE | EMQ_PROTOCOL_CMD_CHANNEL_DELETE

fun cmd_code :: "protocol_command \<Rightarrow> byte" where
  "cmd_code EMQ_PROTOCOL_CMD_AUTH = 10"
| "cmd_code EMQ_PROTOCOL_CMD_PING = 11"
| "cmd_code EMQ_PROTOCOL_CMD_STAT = 12"
| "cmd_code EMQ_PROTOCOL_CMD_SAVE = 13"
| "cmd_code EMQ_PROTOCOL_CMD_FLUSH = 14"
| "cmd_code EMQ_PROTOCOL_CMD_DISCONNECT = 15"
| "cmd_code EMQ_PROTOCOL_CMD_USER_CREATE = 30"
| "cmd_code EMQ_PROTOCOL_CMD_USER_LIST = 31"
| "cmd_code EMQ_PROTOCOL_CMD_USER_RENAME = 32"
| "cmd_code EMQ_PROTOCOL_CMD_USER_SET_PERM = 33"
| "cmd_code EMQ_PROTOCOL_CMD_USER_DELETE = 34"
| "cmd_code EMQ_PROTOCOL_CMD_QUEUE_CREATE = 35"
| "cmd_code EMQ_PROTOCOL_CMD_QUEUE_DECLARE = 36"
| "cmd_code EMQ_PROTOCOL_CMD_QUEUE_EXIST = 37"
| "cmd_code EMQ_PROTOCOL_CMD_QUEUE_LIST = 38"
| "cmd_code EMQ_PROTOCOL_CMD_QUEUE_RENAME = 39"
| "cmd_code EMQ_PROTOCOL_CMD_QUEUE_SIZE = 40"
| "cmd_code EMQ_PROTOCOL_CMD_QUEUE_PUSH = 41"
| "cmd_code EMQ_PROTOCOL_CMD_QUEUE_GET = 42"
| "cmd_code EMQ_PROTOCOL_CMD_QUEUE_POP = 43"
| "cmd_code EMQ_PROTOCOL_CMD_QUEUE_CONFIRM = 44"
| "cmd_code EMQ_PROTOCOL_CMD_QUEUE_SUBSCRIBE = 45"
| "cmd_code EMQ_PROTOCOL_CMD_QUEUE_UNSUBSCRIBE = 46"
| "cmd_code EMQ_PROTOCOL_CMD_QUEUE_PURGE = 47"
| "cmd_code EMQ_PROTOCOL_CMD_QUEUE_DELETE = 48"
| "cmd_code EMQ_PROTOCOL_CMD_ROUTE_CREATE = 49"
| "cmd_code EMQ_PROTOCOL_CMD_ROUTE_EXIST = 50"
| "cmd_code EMQ_PROTOCOL_CMD_ROUTE_LIST = 51"
| "cmd_code EMQ_PROTOCOL_CMD_ROUTE_KEYS = 52"
| "cmd_code EMQ_PROTOCOL_CMD_ROUTE_RENAME = 53"
| "cmd_code EMQ_PROTOCOL_CMD_ROUTE_BIND = 54"
| "cmd_code EMQ_PROTOCOL_CMD_ROUTE_UNBIND = 55"
| "cmd_code EMQ_PROTOCOL_CMD_ROUTE_PUSH = 56"
| "cmd_code EMQ_PROTOCOL_CMD_ROUTE_DELETE = 57"
| "cmd_code EMQ_PROTOCOL_CMD_CHANNEL_CREATE = 58"
| "cmd_code EMQ_PROTOCOL_CMD_CHANNEL_EXIST = 59"
| "cmd_code EMQ_PROTOCOL_CMD_CHANNEL_LIST = 60"
| "cmd_code EMQ_PROTOCOL_CMD_CHANNEL_RENAME = 61"
| "cmd_code EMQ_PROTOCOL_CMD_CHANNEL_PUBLISH = 62"
| "cmd_code EMQ_PROTOCOL_CMD_CHANNEL_SUBSCRIBE = 63"
| "cmd_code EMQ_PROTOCOL_CMD_CHANNEL_PSUBSCRIBE = 64"
| "cmd_code EMQ_PROTOCOL_CMD_CHANNEL_UNSUBSCRIBE = 65"
| "cmd_code EMQ_PROTOCOL_CMD_CHANNEL_PUNSUBSCRIBE = 66"
| "cmd_code EMQ_PROTOCOL_CMD_CHANNEL_DELETE = 67"

definition EMQ_PROTOCOL_STATUS_SUCCESS :: byte where "EMQ_PROTOCOL_STATUS_SUCCESS = 0x1"
definition EMQ_PROTOCOL_STATUS_ERROR :: byte where "EMQ_PROTOCOL_STATUS_ERROR = 0x2"
definition EMQ_PROTOCOL_STATUS_ERROR_PACKET :: byte where "EMQ_PROTOCOL_STATUS_ERROR_PACKET = 0x3"
definition EMQ_PROTOCOL_STATUS_ERROR_COMMAND :: byte where "EMQ_PROTOCOL_STATUS_ERROR_COMMAND = 0x4"
definition EMQ_PROTOCOL_STATUS_ERROR_ACCESS :: byte where "EMQ_PROTOCOL_STATUS_ERROR_ACCESS = 0x5"
definition EMQ_PROTOCOL_STATUS_ERROR_MEMORY :: byte where "EMQ_PROTOCOL_STATUS_ERROR_MEMORY = 0x6"
definition EMQ_PROTOCOL_STATUS_ERROR_VALUE :: byte where "EMQ_PROTOCOL_STATUS_ERROR_VALUE = 0x7"
definition EMQ_PROTOCOL_STATUS_ERROR_NOT_DECLARED :: byte where
  "EMQ_PROTOCOL_STATUS_ERROR_NOT_DECLARED = 0x8"
definition EMQ_PROTOCOL_STATUS_ERROR_NOT_FOUND :: byte where
  "EMQ_PROTOCOL_STATUS_ERROR_NOT_FOUND = 0x9"
definition EMQ_PROTOCOL_STATUS_ERROR_NO_DATA :: byte where
  "EMQ_PROTOCOL_STATUS_ERROR_NO_DATA = 0xA"

definition EMQ_PROTOCOL_EVENT_NOTIFY :: byte where "EMQ_PROTOCOL_EVENT_NOTIFY = 0x1"
definition EMQ_PROTOCOL_EVENT_MESSAGE :: byte where "EMQ_PROTOCOL_EVENT_MESSAGE = 0x2"

lemmas status_codes = EMQ_PROTOCOL_STATUS_SUCCESS_def EMQ_PROTOCOL_STATUS_ERROR_def
  EMQ_PROTOCOL_STATUS_ERROR_PACKET_def EMQ_PROTOCOL_STATUS_ERROR_COMMAND_def
  EMQ_PROTOCOL_STATUS_ERROR_ACCESS_def EMQ_PROTOCOL_STATUS_ERROR_MEMORY_def
  EMQ_PROTOCOL_STATUS_ERROR_VALUE_def EMQ_PROTOCOL_STATUS_ERROR_NOT_DECLARED_def
  EMQ_PROTOCOL_STATUS_ERROR_NOT_FOUND_def EMQ_PROTOCOL_STATUS_ERROR_NO_DATA_def

section \<open>Headers\<close>

record protocol_request_header =
  req_magic :: u16
  req_cmd :: byte
  req_noack :: byte
  req_bodylen :: u32

record protocol_response_header =
  res_magic :: u16
  res_cmd :: byte
  res_status :: byte
  res_bodylen :: u32

record protocol_event_header =
  ev_magic :: u16
  ev_cmd :: byte
  ev_type :: byte
  ev_bodylen :: u32

definition sizeof_header :: nat where "sizeof_header = 2 + 1 + 1 + 4"

definition request_header_bytes :: "protocol_request_header \<Rightarrow> bytes" where
  "request_header_bytes h =
     le_bytes 2 (req_magic h) @ [req_cmd h, req_noack h] @ le_bytes 4 (req_bodylen h)"

definition response_header_bytes :: "protocol_response_header \<Rightarrow> bytes" where
  "response_header_bytes h =
     le_bytes 2 (res_magic h) @ [res_cmd h, res_status h] @ le_bytes 4 (res_bodylen h)"

definition event_header_bytes :: "protocol_event_header \<Rightarrow> bytes" where
  "event_header_bytes h =
     le_bytes 2 (ev_magic h) @ [ev_cmd h, ev_type h] @ le_bytes 4 (ev_bodylen h)"

text \<open>What the members of a header struct hold after \<open>read\<close> filled its eight bytes.\<close>

definition request_header_of :: "bytes \<Rightarrow> protocol_request_header" where
  "request_header_of bs = \<lparr>req_magic = le_word (take 2 bs), req_cmd = bs ! 2, req_noack = bs ! 3,
     req_bodylen = le_word (take 4 (drop 4 bs))\<rparr>"

definition response_header_of :: "bytes \<Rightarrow> protocol_response_header" where
  "response_header_of bs = \<lparr>res_magic = le_word (take 2 bs), res_cmd = bs ! 2, res_status = bs ! 3,
     res_bodylen = le_word (take 4 (drop 4 bs))\<rparr>"

definition event_header_of :: "bytes \<Rightarrow> protocol_event_header" where
  "event_header_of bs = \<lparr>ev_magic = le_word (take 2 bs), ev_cmd = bs ! 2, ev_type = bs ! 3,
     ev_bodylen = le_word (take 4 (drop 4 bs))\<rparr>"

section \<open>Request structs\<close>

record protocol_request_auth =
  auth_header :: protocol_request_header
  auth_name :: bytes
  auth_password :: bytes

definition sizeof_auth_body :: nat where
  "sizeof_auth_body = 32 + 32"

definition protocol_request_auth_bytes :: "protocol_request_auth \<Rightarrow> bytes" where
  "protocol_request_auth_bytes r =
     request_header_bytes (auth_header r) @ auth_name r @ auth_password r"

type_synonym protocol_request_ping = protocol_request_header

type_synonym protocol_request_stat = protocol_request_header

record protocol_request_save =
  save_header :: protocol_request_header
  save_async :: byte

definition sizeof_save_body :: nat where
  "sizeof_save_body = 1"

definition protocol_request_save_bytes :: "protocol_request_save \<Rightarrow> bytes" where
  "protocol_request_save_bytes r =
     request_header_bytes (save_header r) @ [save_async r]"

record protocol_request_flush =
  flush_header :: protocol_request_header
  flush_flags :: u32

definition sizeof_flush_body :: nat where
  "sizeof_flush_body = 4"

definition protocol_request_flush_bytes :: "protocol_request_flush \<Rightarrow> bytes" where
  "protocol_request_flush_bytes r =
     request_header_bytes (flush_header r) @ le_bytes 4 (flush_flags r)"

record protocol_request_user_create =
  user_create_header :: protocol_request_header
  user_create_name :: bytes
  user_create_password :: bytes
  user_create_perm :: u64

definition sizeof_user_create_body :: nat where
  "sizeof_user_create_body = 32 + 32 + 8"

definition protocol_request_user_create_bytes :: "protocol_request_user_create \<Rightarrow> bytes" where
  "protocol_request_user_create_bytes r =
     request_header_bytes (user_create_header r) @ user_create_name r @ user_create_password r @ le_bytes 8 (user_create_perm r)"

type_synonym protocol_request_user_list = protocol_request_header

record protocol_request_user_rename =
  user_rename_header :: protocol_request_header
  user_rename_from :: bytes
  user_rename_to :: bytes

definition sizeof_user_rename_body :: nat where
  "sizeof_user_rename_body = 32 + 32"

definition protocol_request_user_rename_bytes :: "protocol_request_user_rename \<Rightarrow> bytes" where
  "protocol_request_user_rename_bytes r =
     request_header_bytes (user_rename_header r) @ user_rename_from r @ user_rename_to r"

record protocol_request_user_set_perm =
  user_set_perm_header :: protocol_request_header
  user_set_perm_name :: bytes
  user_set_perm_perm :: u64

definition sizeof_user_set_perm_body :: nat where
  "sizeof_user_set_perm_body = 32 + 8"

definition protocol_request_user_set_perm_bytes :: "protocol_request_user_set_perm \<Rightarrow> bytes" where
  "protocol_request_user_set_perm_bytes r =
     request_header_bytes (user_set_perm_header r) @ user_set_perm_name r @ le_bytes 8 (user_set_perm_perm r)"

record protocol_request_user_delete =
  user_delete_header :: protocol_request_header
  user_delete_name :: bytes

definition sizeof_user_delete_body :: nat where
  "sizeof_user_delete_body = 32"

definition protocol_request_user_delete_bytes :: "protocol_request_user_delete \<Rightarrow> bytes" where
  "protocol_request_user_delete_bytes r =
     request_header_bytes (user_delete_header r) @ user_delete_name r"

record protocol_request_queue_create =
  queue_create_header :: protocol_request_header
  queue_create_name :: bytes
  queue_create_max_msg :: u32
  queue_create_max_msg_size :: u32
  queue_create_flags :: u32

definition sizeof_queue_create_body :: nat where
  "sizeof_queue_create_body = 64 + 4 + 4 + 4"

definition protocol_request_queue_create_bytes :: "protocol_request_queue_create \<Rightarrow> bytes" where
  "protocol_request_queue_create_bytes r =
     request_header_bytes (queue_create_header r) @ queue_create_name r @ le_bytes 4 (queue_create_max_msg r) @ le_bytes 4 (queue_create_max_msg_size r) @ le_bytes 4 (queue_create_flags r)"

record protocol_request_queue_declare =
  queue_declare_header :: protocol_request_header
  queue_declare_name :: bytes

definition sizeof_queue_declare_body :: nat where
  "sizeof_queue_declare_body = 64"

definition protocol_request_queue_declare_bytes :: "protocol_request_queue_declare \<Rightarrow> bytes" where
  "protocol_request_queue_declare_bytes r =
     request_header_bytes (queue_declare_header r) @ queue_declare_name r"

record protocol_request_queue_exist =
  queue_exist_header :: protocol_request_header
  queue_exist_name :: bytes

definition sizeof_queue_exist_body :: nat where
  "sizeof_queue_exist_body = 64"

definition protocol_request_queue_exist_bytes :: "protocol_request_queue_exist \<Rightarrow> bytes" where
  "protocol_request_queue_exist_bytes r =
     request_header_bytes (queue_exist_header r) @ queue_exist_name r"

type_synonym protocol_request_queue_list = protocol_request_header

record protocol_request_queue_rename =
  queue_rename_header :: protocol_request_header
  queue_rename_from :: bytes
  queue_rename_to :: bytes

definition sizeof_queue_rename_body :: nat where
  "sizeof_queue_rename_body = 64 + 64"

definition protocol_request_queue_rename_bytes :: "protocol_request_queue_rename \<Rightarrow> bytes" where
  "protocol_request_queue_rename_bytes r =
     request_header_bytes (queue_rename_header r) @ queue_rename_from r @ queue_rename_to r"

record protocol_request_queue_size =
  queue_size_header :: protocol_request_header
  queue_size_name :: bytes

definition sizeof_queue_size_body :: nat where
  "sizeof_queue_size_body = 64"

definition protocol_request_queue_size_bytes :: "protocol_request_queue_size \<Rightarrow> bytes" where
  "protocol_request_queue_size_bytes r =
     request_header_bytes (queue_size_header r) @ queue_size_name r"

record protocol_request_queue_push =
  queue_push_header :: protocol_request_header
  queue_push_name :: bytes

definition sizeof_queue_push_body :: nat where
  "sizeof_queue_push_body = 64"

definition protocol_request_queue_push_bytes :: "protocol_request_queue_push \<Rightarrow> bytes" where
  "protocol_request_queue_push_bytes r =
     request_header_bytes (queue_push_header r) @ queue_push_name r"

record protocol_request_queue_get =
  queue_get_header :: protocol_request_header
  queue_get_name :: bytes

definition sizeof_queue_get_body :: nat where
  "sizeof_queue_get_body = 64"

definition protocol_request_queue_get_bytes :: "protocol_request_queue_get \<Rightarrow> bytes" where
  "protocol_request_queue_get_bytes r =
     request_header_bytes (queue_get_header r) @ queue_get_name r"

record protocol_request_queue_pop =
  queue_pop_header :: protocol_request_header
  queue_pop_name :: bytes
  queue_pop_timeout :: u32

definition sizeof_queue_pop_body :: nat where
  "sizeof_queue_pop_body = 64 + 4"

definition protocol_request_queue_pop_bytes :: "protocol_request_queue_pop \<Rightarrow> bytes" where
  "protocol_request_queue_pop_bytes r =
     request_header_bytes (queue_pop_header r) @ queue_pop_name r @ le_bytes 4 (queue_pop_timeout r)"

record protocol_request_queue_confirm =
  queue_confirm_header :: protocol_request_header
  queue_confirm_name :: bytes
  queue_confirm_tag :: u64

definition sizeof_queue_confirm_body :: nat where
  "sizeof_queue_confirm_body = 64 + 8"

definition protocol_request_queue_confirm_bytes :: "protocol_request_queue_confirm \<Rightarrow> bytes" where
  "protocol_request_queue_confirm_bytes r =
     request_header_bytes (queue_confirm_header r) @ queue_confirm_name r @ le_bytes 8 (queue_confirm_tag r)"

record protocol_request_queue_subscribe =
  queue_subscribe_header :: protocol_request_header
  queue_subscribe_name :: bytes
  queue_subscribe_flags :: u32

definition sizeof_queue_subscribe_body :: nat where
  "sizeof_queue_subscribe_body = 64 + 4"

definition protocol_request_queue_subscribe_bytes :: "protocol_request_queue_subscribe \<Rightarrow> bytes" where
  "protocol_request_queue_subscribe_bytes r =
     request_header_bytes (queue_subscribe_header r) @ queue_subscribe_name r @ le_bytes 4 (queue_subscribe_flags r)"

record protocol_request_queue_unsubscribe =
  queue_unsubscribe_header :: protocol_request_header
  queue_unsubscribe_name :: bytes

definition sizeof_queue_unsubscribe_body :: nat where
  "sizeof_queue_unsubscribe_body = 64"

definition protocol_request_queue_unsubscribe_bytes :: "protocol_request_queue_unsubscribe \<Rightarrow> bytes" where
  "protocol_request_queue_unsubscribe_bytes r =
     request_header_bytes (queue_unsubscribe_header r) @ queue_unsubscribe_name r"

record protocol_request_queue_purge =
  queue_purge_header :: protocol_request_header
  queue_purge_name :: bytes

definition sizeof_queue_purge_body :: nat where
  "sizeof_queue_purge_body = 64"

definition protocol_request_queue_purge_bytes :: "protocol_request_queue_purge \<Rightarrow> bytes" where
  "protocol_request_queue_purge_bytes r =
     request_header_bytes (queue_purge_header r) @ queue_purge_name r"

record protocol_request_queue_delete =
  queue_delete_header :: protocol_request_header
  queue_delete_name :: bytes

definition sizeof_queue_delete_body :: nat where
  "sizeof_queue_delete_body = 64"

definition protocol_request_queue_delete_bytes :: "protocol_request_queue_delete \<Rightarrow> bytes" where
  "protocol_request_queue_delete_bytes r =
     request_header_bytes (queue_delete_header r) @ queue_delete_name r"

record protocol_request_route_create =
  route_create_header :: protocol_request_header
  route_create_name :: bytes
  route_create_flags :: u32

definition sizeof_route_create_body :: nat where
  "sizeof_route_create_body = 64 + 4"

definition protocol_request_route_create_bytes :: "protocol_request_route_create \<Rightarrow> bytes" where
  "protocol_request_route_create_bytes r =
     request_header_bytes (route_create_header r) @ route_create_name r @ le_bytes 4 (route_create_flags r)"

record protocol_request_route_exist =
  route_exist_header :: protocol_request_header
  route_exist_name :: bytes

definition sizeof_route_exist_body :: nat where
  "sizeof_route_exist_body = 64"

definition protocol_request_route_exist_bytes :: "protocol_request_route_exist \<Rightarrow> bytes" where
  "protocol_request_route_exist_bytes r =
     request_header_bytes (route_exist_header r) @ route_exist_name r"

type_synonym protocol_request_route_list = protocol_request_header

record protocol_request_route_keys =
  route_keys_header :: protocol_request_header
  route_keys_name :: bytes

definition sizeof_route_keys_body :: nat where
  "sizeof_route_keys_body = 64"

definition protocol_request_route_keys_bytes :: "protocol_request_route_keys \<Rightarrow> bytes" where
  "protocol_request_route_keys_bytes r =
     request_header_bytes (route_keys_header r) @ route_keys_name r"

record protocol_request_route_rename =
  route_rename_header :: protocol_request_header
  route_rename_from :: bytes
  route_rename_to :: bytes

definition sizeof_route_rename_body :: nat where
  "sizeof_route_rename_body = 64 + 64"

definition protocol_request_route_rename_bytes :: "protocol_request_route_rename \<Rightarrow> bytes" where
  "protocol_request_route_rename_bytes r =
     request_header_bytes (route_rename_header r) @ route_rename_from r @ route_rename_to r"

record protocol_request_route_bind =
  route_bind_header :: protocol_request_header
  route_bind_name :: bytes
  route_bind_queue :: bytes
  route_bind_key :: bytes

definition sizeof_route_bind_body :: nat where
  "sizeof_route_bind_body = 64 + 64 + 32"

definition protocol_request_route_bind_bytes :: "protocol_request_route_bind \<Rightarrow> bytes" where
  "protocol_request_route_bind_bytes r =
     request_header_bytes (route_bind_header r) @ route_bind_name r @ route_bind_queue r @ route_bind_key r"

record protocol_request_route_unbind =
  route_unbind_header :: protocol_request_header
  route_unbind_name :: bytes
  route_unbind_queue :: bytes
  route_unbind_key :: bytes

definition sizeof_route_unbind_body :: nat where
  "sizeof_route_unbind_body = 64 + 64 + 32"

definition protocol_request_route_unbind_bytes :: "protocol_request_route_unbind \<Rightarrow> bytes" where
  "protocol_request_route_unbind_bytes r =
     request_header_bytes (route_unbind_header r) @ route_unbind_name r @ route_unbind_queue r @ route_unbind_key r"

record protocol_request_route_push =
  route_push_header :: protocol_request_header
  route_push_name :: bytes
  route_push_key :: bytes

definition sizeof_route_push_body :: nat where
  "sizeof_route_push_body = 64 + 32"

definition protocol_request_route_push_bytes :: "protocol_request_route_push \<Rightarrow> bytes" where
  "protocol_request_route_push_bytes r =
     request_header_bytes (route_push_header r) @ route_push_name r @ route_push_key r"

record protocol_request_route_delete =
  route_delete_header :: protocol_request_header
  route_delete_name :: bytes

definition sizeof_route_delete_body :: nat where
  "sizeof_route_delete_body = 64"

definition protocol_request_route_delete_bytes :: "protocol_request_route_delete \<Rightarrow> bytes" where
  "protocol_request_route_delete_bytes r =
     request_header_bytes (route_delete_header r) @ route_delete_name r"

record protocol_request_channel_create =
  channel_create_header :: protocol_request_header
  channel_create_name :: bytes
  channel_create_flags :: u32

definition sizeof_channel_create_body :: nat where
  "sizeof_channel_create_body = 64 + 4"

definition protocol_request_channel_create_bytes :: "protocol_request_channel_create \<Rightarrow> bytes" where
  "protocol_request_channel_create_bytes r =
     request_header_bytes (channel_create_header r) @ channel_create_name r @ le_bytes 4 (channel_create_flags r)"

record protocol_request_channel_exist =
  channel_exist_header :: protocol_request_header
  channel_exist_name :: bytes

definition sizeof_channel_exist_body :: nat where
  "sizeof_channel_exist_body = 64"

definition protocol_request_channel_exist_bytes :: "protocol_request_channel_exist \<Rightarrow> bytes" where
  "protocol_request_channel_exist_bytes r =
     request_header_bytes (channel_exist_header r) @ channel_exist_name r"

type_synonym protocol_request_channel_list = protocol_request_header

record protocol_request_channel_rename =
  channel_rename_header :: protocol_request_header
  channel_rename_from :: bytes
  channel_rename_to :: bytes

definition sizeof_channel_rename_body :: nat where
  "sizeof_channel_rename_body = 64 + 64"

definition protocol_request_channel_rename_bytes :: "protocol_request_channel_rename \<Rightarrow> bytes" where
  "protocol_request_channel_rename_bytes r =
     request_header_bytes (channel_rename_header r) @ channel_rename_from r @ channel_rename_to r"

record protocol_request_channel_publish =
  channel_publish_header :: protocol_request_header
  channel_publish_name :: bytes
  channel_publish_topic :: bytes

definition sizeof_channel_publish_body :: nat where
  "sizeof_channel_publish_body = 64 + 32"

definition protocol_request_channel_publish_bytes :: "protocol_request_channel_publish \<Rightarrow> bytes" where
  "protocol_request_channel_publish_bytes r =
     request_header_bytes (channel_publish_header r) @ channel_publish_name r @ channel_publish_topic r"

record protocol_request_channel_subscribe =
  channel_subscribe_header :: protocol_request_header
  channel_subscribe_name :: bytes
  channel_subscribe_topic :: bytes

definition sizeof_channel_subscribe_body :: nat where
  "sizeof_channel_subscribe_body = 64 + 32"

definition protocol_request_channel_subscribe_bytes :: "protocol_request_channel_subscribe \<Rightarrow> bytes" where
  "protocol_request_channel_subscribe_bytes r =
     request_header_bytes (channel_subscribe_header r) @ channel_subscribe_name r @ channel_subscribe_topic r"

record protocol_request_channel_psubscribe =
  channel_psubscribe_header :: protocol_request_header
  channel_psubscribe_name :: bytes
  channel_psubscribe_pattern :: bytes

definition sizeof_channel_psubscribe_body :: nat where
  "sizeof_channel_psubscribe_body = 64 + 32"

definition protocol_request_channel_psubscribe_bytes :: "protocol_request_channel_psubscribe \<Rightarrow> bytes" where
  "protocol_request_channel_psubscribe_bytes r =
     request_header_bytes (channel_psubscribe_header r) @ channel_psubscribe_name r @ channel_psubscribe_pattern r"

record protocol_request_channel_unsubscribe =
  channel_unsubscribe_header :: protocol_request_header
  channel_unsubscribe_name :: bytes
  channel_unsubscribe_topic :: bytes

definition sizeof_channel_unsubscribe_body :: nat where
  "sizeof_channel_unsubscribe_body = 64 + 32"

definition protocol_request_channel_unsubscribe_bytes :: "protocol_request_channel_unsubscribe \<Rightarrow> bytes" where
  "protocol_request_channel_unsubscribe_bytes r =
     request_header_bytes (channel_unsubscribe_header r) @ channel_unsubscribe_name r @ channel_unsubscribe_topic r"

record protocol_request_channel_punsubscribe =
  channel_punsubscribe_header :: protocol_request_header
  channel_punsubscribe_name :: bytes
  channel_punsubscribe_pattern :: bytes

definition sizeof_channel_punsubscribe_body :: nat where
  "sizeof_channel_punsubscribe_body = 64 + 32"

definition protocol_request_channel_punsubscribe_bytes :: "protocol_request_channel_punsubscribe \<Rightarrow> bytes" where
  "protocol_request_channel_punsubscribe_bytes r =
     request_header_bytes (channel_punsubscribe_header r) @ channel_punsubscribe_name r @ channel_punsubscribe_pattern r"

record protocol_request_channel_delete =
  channel_delete_header :: protocol_request_header
  channel_delete_name :: bytes

definition sizeof_channel_delete_body :: nat where
  "sizeof_channel_delete_body = 64"

definition protocol_request_channel_delete_bytes :: "protocol_request_channel_delete \<Rightarrow> bytes" where
  "protocol_request_channel_delete_bytes r =
     request_header_bytes (channel_delete_header r) @ channel_delete_name r"


lemmas request_struct_defs =
  sizeof_auth_body_def protocol_request_auth_bytes_def
  sizeof_save_body_def protocol_request_save_bytes_def
  sizeof_flush_body_def protocol_request_flush_bytes_def
  sizeof_user_create_body_def protocol_request_user_create_bytes_def
  sizeof_user_rename_body_def protocol_request_user_rename_bytes_def
  sizeof_user_set_perm_body_def protocol_request_user_set_perm_bytes_def
  sizeof_user_delete_body_def protocol_request_user_delete_bytes_def
  sizeof_queue_create_body_def protocol_request_queue_create_bytes_def
  sizeof_queue_declare_body_def protocol_request_queue_declare_bytes_def
  sizeof_queue_exist_body_def protocol_request_queue_exist_bytes_def
  sizeof_queue_rename_body_def protocol_request_queue_rename_bytes_def
  sizeof_queue_size_body_def protocol_request_queue_size_bytes_def
  sizeof_queue_push_body_def protocol_request_queue_push_bytes_def
  sizeof_queue_get_body_def protocol_request_queue_get_bytes_def
  sizeof_queue_pop_body_def protocol_request_queue_pop_bytes_def
  sizeof_queue_confirm_body_def protocol_request_queue_confirm_bytes_def
  sizeof_queue_subscribe_body_def protocol_request_queue_subscribe_bytes_def
  sizeof_queue_unsubscribe_body_def protocol_request_queue_unsubscribe_bytes_def
  sizeof_queue_purge_body_def protocol_request_queue_purge_bytes_def
  sizeof_queue_delete_body_def protocol_request_queue_delete_bytes_def
  sizeof_route_create_body_def protocol_request_route_create_bytes_def
  sizeof_route_exist_body_def protocol_request_route_exist_bytes_def
  sizeof_route_keys_body_def protocol_request_route_keys_bytes_def
  sizeof_route_rename_body_def protocol_request_route_rename_bytes_def
  sizeof_route_bind_body_def protocol_request_route_bind_bytes_def
  sizeof_route_unbind_body_def protocol_request_route_unbind_bytes_def
  sizeof_route_push_body_def protocol_request_route_push_bytes_def
  sizeof_route_delete_body_def protocol_request_route_delete_bytes_def
  sizeof_channel_create_body_def protocol_request_channel_create_bytes_def
  sizeof_channel_exist_body_def protocol_request_channel_exist_bytes_def
  sizeof_channel_rename_body_def protocol_request_channel_rename_bytes_def
  sizeof_channel_publish_body_def protocol_request_channel_publish_bytes_def
  sizeof_channel_subscribe_body_def protocol_request_channel_subscribe_bytes_def
  sizeof_channel_psubscribe_body_def protocol_request_channel_psubscribe_bytes_def
  sizeof_channel_unsubscribe_body_def protocol_request_channel_unsubscribe_bytes_def
  sizeof_channel_punsubscribe_body_def protocol_request_channel_punsubscribe_bytes_def
  sizeof_channel_delete_body_def protocol_request_channel_delete_bytes_def

section \<open>Response structs\<close>

text \<open>
  The body of the \<open>STAT\<close> response, which is also \<open>emq_status\<close> of \<^verbatim>\<open>emq.h\<close>; a \<open>float\<close> is
  kept as its 32-bit image.
\<close>

record emq_status =
  st_major :: byte
  st_minor :: byte
  st_patch :: byte
  st_uptime :: u32
  st_used_cpu_sys :: u32
  st_used_cpu_user :: u32
  st_used_memory :: u32
  st_used_memory_rss :: u32
  st_fragmentation_ratio :: u32
  st_clients :: u32
  st_users :: u32
  st_queues :: u32
  st_routes :: u32
  st_channels :: u32
  st_resv3 :: u32
  st_resv4 :: u32

definition sizeof_stat_body :: nat where
  "sizeof_stat_body = 3 * 1 + 13 * 4"

definition u32_at :: "bytes \<Rightarrow> nat \<Rightarrow> u32" where
  "u32_at bs i = le_word (take 4 (drop i bs))"

definition emq_status_of :: "bytes \<Rightarrow> emq_status" where
  "emq_status_of bs = \<lparr>st_major = bs ! 0, st_minor = bs ! 1, st_patch = bs ! 2,
     st_uptime = u32_at bs 3, st_used_cpu_sys = u32_at bs 7, st_used_cpu_user = u32_at bs 11,
     st_used_memory = u32_at bs 15, st_used_memory_rss = u32_at bs 19,
     st_fragmentation_ratio = u32_at bs 23, st_clients = u32_at bs 27, st_users = u32_at bs 31,
     st_queues = u32_at bs 35, st_routes = u32_at bs 39, st_channels = u32_at bs 43,
     st_resv3 = u32_at bs 47, st_resv4 = u32_at bs 51\<rparr>"

text \<open>The bodies of the \<open>EXIST\<close> responses and of \<open>QUEUE_SIZE\<close> are one \<open>uint32_t\<close>.\<close>

definition sizeof_u32_body :: nat where "sizeof_u32_body = 4"

section \<open>Images and their inverses\<close>

lemma length_header_bytes [simp, emq_wire]:
  "length (request_header_bytes h) = sizeof_header"
  "length (response_header_bytes h') = sizeof_header"
  "length (event_header_bytes h'') = sizeof_header"
  by (simp_all add: request_header_bytes_def response_header_bytes_def event_header_bytes_def
      sizeof_header_def)

lemma take_le_bytes: "n = m \<Longrightarrow> take n (le_bytes m x @ ys) = le_bytes m x"
  by simp

lemma request_header_roundtrip: "request_header_of (request_header_bytes h @ rest) = h"
  by (simp add: request_header_of_def request_header_bytes_def nth_append)

lemma response_header_roundtrip: "response_header_of (response_header_bytes h @ rest) = h"
  by (simp add: response_header_of_def response_header_bytes_def nth_append)

lemma event_header_roundtrip: "event_header_of (event_header_bytes h @ rest) = h"
  by (simp add: event_header_of_def event_header_bytes_def nth_append)

text \<open>Every eight bytes are the image of the header they are read as.\<close>

lemma list8: "length bs = 8 \<Longrightarrow> \<exists>b0 b1 b2 b3 b4 b5 b6 b7. bs = [b0, b1, b2, b3, b4, b5, b6, b7]"
  by (auto simp: numeral_eq_Suc length_Suc_conv)

lemma response_header_surj:
  assumes "length bs = sizeof_header"
  shows "response_header_bytes (response_header_of bs) = bs"
proof -
  from assms obtain b0 b1 b2 b3 b4 b5 b6 b7 where "bs = [b0, b1, b2, b3, b4, b5, b6, b7]"
    using list8 [of bs] by (auto simp: sizeof_header_def)
  then show ?thesis
    by (simp add: response_header_bytes_def response_header_of_def le_bytes_le_word
        del: le_bytes.simps le_word.simps)
qed

lemma event_header_surj:
  assumes "length bs = sizeof_header"
  shows "event_header_bytes (event_header_of bs) = bs"
proof -
  from assms obtain b0 b1 b2 b3 b4 b5 b6 b7 where "bs = [b0, b1, b2, b3, b4, b5, b6, b7]"
    using list8 [of bs] by (auto simp: sizeof_header_def)
  then show ?thesis
    by (simp add: event_header_bytes_def event_header_of_def le_bytes_le_word
        del: le_bytes.simps le_word.simps)
qed

end
