(* ===== verification/Emq_Packet.thy ===== *)
theory Emq_Packet
  imports Emq_State Emq_Protocol
begin

text \<open>
  \<^verbatim>\<open>src/src/packet.c\<close>: the checks of a response header, the request buffer of a client and
  one builder per request.

  Every builder has the same contract, the locale \<open>request_builder\<close> below: arguments that do
  not fit their fields are refused and nothing changes; otherwise the request buffer of the
  client holds exactly the header and the body, and \<open>pos\<close> is their length. The locale is
  interpreted on every builder, which also shows that no builder overruns a field or the
  request buffer.
\<close>

section \<open>Headers\<close>

definition emq_set_header_request :: "byte \<Rightarrow> byte \<Rightarrow> u32 \<Rightarrow> protocol_request_header" where
  "emq_set_header_request cmd noack bodylen =
     \<lparr>req_magic = EMQ_PROTOCOL_REQ, req_cmd = cmd, req_noack = noack, req_bodylen = bodylen\<rparr>"

definition emq_check_response_header :: "protocol_response_header \<Rightarrow> byte \<Rightarrow> u32 \<Rightarrow> int" where
  "emq_check_response_header header cmd bodylen =
     (if res_magic header \<noteq> EMQ_PROTOCOL_RES \<or> res_cmd header \<noteq> cmd \<or> res_bodylen header \<noteq> bodylen
      then EMQ_STATUS_ERR else EMQ_STATUS_OK)"

definition emq_check_response_header_mini :: "protocol_response_header \<Rightarrow> byte \<Rightarrow> int" where
  "emq_check_response_header_mini header cmd =
     (if res_magic header \<noteq> EMQ_PROTOCOL_RES \<or> res_cmd header \<noteq> cmd
      then EMQ_STATUS_ERR else EMQ_STATUS_OK)"

definition emq_check_event_header :: "protocol_event_header \<Rightarrow> byte \<Rightarrow> byte \<Rightarrow> int" where
  "emq_check_event_header header type1 type2 =
     (if ev_magic header \<noteq> EMQ_PROTOCOL_EVENT \<or> (ev_type header \<noteq> type1 \<and> ev_type header \<noteq> type2)
      then EMQ_STATUS_ERR else EMQ_STATUS_OK)"

definition emq_check_status :: "protocol_response_header \<Rightarrow> byte \<Rightarrow> int" where
  "emq_check_status header status = (if res_status header = status then EMQ_STATUS_OK else EMQ_STATUS_ERR)"

definition emq_get_error :: "protocol_response_header \<Rightarrow> emq_error" where
  "emq_get_error header = (
     if res_status header = EMQ_PROTOCOL_STATUS_ERROR_PACKET then EMQ_ERROR_PACKET
     else if res_status header = EMQ_PROTOCOL_STATUS_ERROR_COMMAND then EMQ_ERROR_COMMAND
     else if res_status header = EMQ_PROTOCOL_STATUS_ERROR_ACCESS then EMQ_ERROR_ACCESS
     else if res_status header = EMQ_PROTOCOL_STATUS_ERROR_MEMORY then EMQ_ERROR_MEMORY
     else if res_status header = EMQ_PROTOCOL_STATUS_ERROR_NOT_DECLARED then EMQ_ERROR_NOT_DECLARED
     else if res_status header = EMQ_PROTOCOL_STATUS_ERROR_NOT_FOUND then EMQ_ERROR_NOT_FOUND
     else if res_status header = EMQ_PROTOCOL_STATUS_ERROR_NO_DATA then EMQ_ERROR_NO_DATA
     else EMQ_ERROR_NONE)"

lemma get_error_none_iff: "emq_get_error h = EMQ_ERROR_NONE \<longleftrightarrow> res_status h \<notin> {3, 4, 5, 6, 8, 9, 10}"
  by (simp add: emq_get_error_def EMQ_PROTOCOL_STATUS_ERROR_PACKET_def EMQ_PROTOCOL_STATUS_ERROR_COMMAND_def
      EMQ_PROTOCOL_STATUS_ERROR_ACCESS_def EMQ_PROTOCOL_STATUS_ERROR_MEMORY_def
      EMQ_PROTOCOL_STATUS_ERROR_NOT_DECLARED_def EMQ_PROTOCOL_STATUS_ERROR_NOT_FOUND_def
      EMQ_PROTOCOL_STATUS_ERROR_NO_DATA_def)

section \<open>The request buffer\<close>

text \<open>\<open>realloc\<close>: a new block with the old contents as far as they fit, or the null pointer and
  the old block untouched.\<close>

definition buf_realloc :: "ptr \<Rightarrow> nat \<Rightarrow> world \<Rightarrow> (ptr \<times> world) option" where
  "buf_realloc p n w = (case p of
     None \<Rightarrow> Some (buf_alloc n w)
   | Some a \<Rightarrow> do {
       b \<leftarrow> bufs w a;
       (case malloc n w of
          (None, w) \<Rightarrow> Some (None, w)
        | (Some a', w) \<Rightarrow> Some (Some a', w\<lparr>bufs := (bufs w)(a := None,
            a' \<mapsto> take n b @ replicate (n - length b) None)\<rparr>)) })"

definition emq_check_realloc_client_request :: "ptr \<Rightarrow> nat \<Rightarrow> world \<Rightarrow> (int \<times> world) option" where
  "emq_check_realloc_client_request client sz w = do {
     c \<leftarrow> get_client client w;
     if c_size c < sz then
       if sz > EMQ_MAX_REQUEST_SIZE then Some (EMQ_STATUS_ERR, w)
       else do {
         (request, w) \<leftarrow> buf_realloc (c_request c) sz w;
         w \<leftarrow> put_client client (c\<lparr>c_request := request, c_size := sz\<rparr>) w;
         if request = None then Some (EMQ_STATUS_ERR, w) else Some (EMQ_STATUS_OK, w) }
     else Some (EMQ_STATUS_OK, w) }"

definition emq_set_client_request :: "ptr \<Rightarrow> bytes \<Rightarrow> world \<Rightarrow> world option" where
  "emq_set_client_request client request w = do {
     c \<leftarrow> get_client client w;
     w \<leftarrow> buf_store (c_request c) 0 request w;
     put_client client (c\<lparr>c_pos := length request\<rparr>) w }"

text \<open>The last lines of every builder: make room, copy the struct, report success.\<close>

definition emq_store_request :: "ptr \<Rightarrow> bytes \<Rightarrow> nat \<Rightarrow> world \<Rightarrow> (int \<times> world) option" where
  "emq_store_request client req sz w = do {
     (r, w) \<leftarrow> emq_check_realloc_client_request client sz w;
     if r = EMQ_STATUS_ERR then Some (EMQ_STATUS_ERR, w)
     else do {
       w \<leftarrow> emq_set_client_request client req w;
       Some (EMQ_STATUS_OK, w) } }"

text \<open>The \<open>int noack\<close> of the client as the \<open>uint8_t\<close> argument of \<open>emq_set_header_request\<close>.\<close>

definition client_noack :: "emq_client \<Rightarrow> byte" where
  "client_noack c = word_of_int (c_noack c)"

section \<open>The request builders\<close>

definition emq_auth_request :: "ptr \<Rightarrow> bytes \<Rightarrow> bytes \<Rightarrow> world \<Rightarrow> (int \<times> world) option" where
  "emq_auth_request client name password w = (
     if strlenz name > 32 \<or> strlenz password > 32 then Some (EMQ_STATUS_ERR, w)
     else do {
       c \<leftarrow> get_client client w;
       let header = emq_set_header_request (cmd_code EMQ_PROTOCOL_CMD_AUTH) (client_noack c)
         (word_of_nat sizeof_auth_body);
       name_field \<leftarrow> memcpy (replicate 32 0) (cstrz name);
       password_field \<leftarrow> memcpy (replicate 32 0) (cstrz password);
       let req = \<lparr>auth_header = header, auth_name = name_field,
         auth_password = password_field\<rparr>;
       emq_store_request client (protocol_request_auth_bytes req)
         (sizeof_header + sizeof_auth_body) w })"

definition emq_ping_request :: "ptr \<Rightarrow> world \<Rightarrow> (int \<times> world) option" where
  "emq_ping_request client w = do {
     c \<leftarrow> get_client client w;
     let header = emq_set_header_request (cmd_code EMQ_PROTOCOL_CMD_PING) (client_noack c) 0;
     emq_store_request client (request_header_bytes header) sizeof_header w }"

definition emq_stat_request :: "ptr \<Rightarrow> world \<Rightarrow> (int \<times> world) option" where
  "emq_stat_request client w = do {
     c \<leftarrow> get_client client w;
     let header = emq_set_header_request (cmd_code EMQ_PROTOCOL_CMD_STAT) (client_noack c) 0;
     emq_store_request client (request_header_bytes header) sizeof_header w }"

definition emq_save_request :: "ptr \<Rightarrow> byte \<Rightarrow> world \<Rightarrow> (int \<times> world) option" where
  "emq_save_request client is_async w = do {
     c \<leftarrow> get_client client w;
     let header = emq_set_header_request (cmd_code EMQ_PROTOCOL_CMD_SAVE) (client_noack c)
       (word_of_nat sizeof_save_body);
     let req = \<lparr>save_header = header, save_async = is_async\<rparr>;
     emq_store_request client (protocol_request_save_bytes req)
       (sizeof_header + sizeof_save_body) w }"

definition emq_flush_request :: "ptr \<Rightarrow> u32 \<Rightarrow> world \<Rightarrow> (int \<times> world) option" where
  "emq_flush_request client flags w = do {
     c \<leftarrow> get_client client w;
     let header = emq_set_header_request (cmd_code EMQ_PROTOCOL_CMD_FLUSH) (client_noack c)
       (word_of_nat sizeof_flush_body);
     let req = \<lparr>flush_header = header, flush_flags = flags\<rparr>;
     emq_store_request client (protocol_request_flush_bytes req)
       (sizeof_header + sizeof_flush_body) w }"

definition emq_user_create_request :: "ptr \<Rightarrow> bytes \<Rightarrow> bytes \<Rightarrow> u64 \<Rightarrow> world \<Rightarrow> (int \<times> world) option" where
  "emq_user_create_request client name password perm w = (
     if strlenz name > 32 \<or> strlenz password > 32 then Some (EMQ_STATUS_ERR, w)
     else do {
       c \<leftarrow> get_client client w;
       let header = emq_set_header_request (cmd_code EMQ_PROTOCOL_CMD_USER_CREATE) (client_noack c)
         (word_of_nat sizeof_user_create_body);
       name_field \<leftarrow> memcpy (replicate 32 0) (cstrz name);
       password_field \<leftarrow> memcpy (replicate 32 0) (cstrz password);
       let req = \<lparr>user_create_header = header, user_create_name = name_field,
         user_create_password = password_field, user_create_perm = perm\<rparr>;
       emq_store_request client (protocol_request_user_create_bytes req)
         (sizeof_header + sizeof_user_create_body) w })"

definition emq_user_list_request :: "ptr \<Rightarrow> world \<Rightarrow> (int \<times> world) option" where
  "emq_user_list_request client w = do {
     c \<leftarrow> get_client client w;
     let header = emq_set_header_request (cmd_code EMQ_PROTOCOL_CMD_USER_LIST) (client_noack c) 0;
     emq_store_request client (request_header_bytes header) sizeof_header w }"

definition emq_user_rename_request :: "ptr \<Rightarrow> bytes \<Rightarrow> bytes \<Rightarrow> world \<Rightarrow> (int \<times> world) option" where
  "emq_user_rename_request client from_name to_name w = (
     if strlenz from_name > 32 \<or> strlenz to_name > 32 then Some (EMQ_STATUS_ERR, w)
     else do {
       c \<leftarrow> get_client client w;
       let header = emq_set_header_request (cmd_code EMQ_PROTOCOL_CMD_USER_RENAME) (client_noack c)
         (word_of_nat sizeof_user_rename_body);
       from_field \<leftarrow> memcpy (replicate 32 0) (cstrz from_name);
       to_field \<leftarrow> memcpy (replicate 32 0) (cstrz to_name);
       let req = \<lparr>user_rename_header = header, user_rename_from = from_field,
         user_rename_to = to_field\<rparr>;
       emq_store_request client (protocol_request_user_rename_bytes req)
         (sizeof_header + sizeof_user_rename_body) w })"

definition emq_user_set_perm_request :: "ptr \<Rightarrow> bytes \<Rightarrow> u64 \<Rightarrow> world \<Rightarrow> (int \<times> world) option" where
  "emq_user_set_perm_request client name perm w = (
     if strlenz name > 32 then Some (EMQ_STATUS_ERR, w)
     else do {
       c \<leftarrow> get_client client w;
       let header = emq_set_header_request (cmd_code EMQ_PROTOCOL_CMD_USER_SET_PERM) (client_noack c)
         (word_of_nat sizeof_user_set_perm_body);
       name_field \<leftarrow> memcpy (replicate 32 0) (cstrz name);
       let req = \<lparr>user_set_perm_header = header, user_set_perm_name = name_field,
         user_set_perm_perm = perm\<rparr>;
       emq_store_request client (protocol_request_user_set_perm_bytes req)
         (sizeof_header + sizeof_user_set_perm_body) w })"

definition emq_user_delete_request :: "ptr \<Rightarrow> bytes \<Rightarrow> world \<Rightarrow> (int \<times> world) option" where
  "emq_user_delete_request client name w = (
     if strlenz name > 32 then Some (EMQ_STATUS_ERR, w)
     else do {
       c \<leftarrow> get_client client w;
       let header = emq_set_header_request (cmd_code EMQ_PROTOCOL_CMD_USER_DELETE) (client_noack c)
         (word_of_nat sizeof_user_delete_body);
       name_field \<leftarrow> memcpy (replicate 32 0) (cstrz name);
       let req = \<lparr>user_delete_header = header, user_delete_name = name_field\<rparr>;
       emq_store_request client (protocol_request_user_delete_bytes req)
         (sizeof_header + sizeof_user_delete_body) w })"

definition emq_queue_create_request :: "ptr \<Rightarrow> bytes \<Rightarrow> u32 \<Rightarrow> u32 \<Rightarrow> u32 \<Rightarrow> world \<Rightarrow> (int \<times> world) option" where
  "emq_queue_create_request client name max_msg max_msg_size flags w = (
     if strlenz name > 64 then Some (EMQ_STATUS_ERR, w)
     else do {
       c \<leftarrow> get_client client w;
       let header = emq_set_header_request (cmd_code EMQ_PROTOCOL_CMD_QUEUE_CREATE) (client_noack c)
         (word_of_nat sizeof_queue_create_body);
       name_field \<leftarrow> memcpy (replicate 64 0) (cstrz name);
       let req = \<lparr>queue_create_header = header, queue_create_name = name_field,
         queue_create_max_msg = max_msg, queue_create_max_msg_size = max_msg_size, queue_create_flags = flags\<rparr>;
       emq_store_request client (protocol_request_queue_create_bytes req)
         (sizeof_header + sizeof_queue_create_body) w })"

definition emq_queue_declare_request :: "ptr \<Rightarrow> bytes \<Rightarrow> world \<Rightarrow> (int \<times> world) option" where
  "emq_queue_declare_request client name w = (
     if strlenz name > 64 then Some (EMQ_STATUS_ERR, w)
     else do {
       c \<leftarrow> get_client client w;
       let header = emq_set_header_request (cmd_code EMQ_PROTOCOL_CMD_QUEUE_DECLARE) (client_noack c)
         (word_of_nat sizeof_queue_declare_body);
       name_field \<leftarrow> memcpy (replicate 64 0) (cstrz name);
       let req = \<lparr>queue_declare_header = header, queue_declare_name = name_field\<rparr>;
       emq_store_request client (protocol_request_queue_declare_bytes req)
         (sizeof_header + sizeof_queue_declare_body) w })"

definition emq_queue_exist_request :: "ptr \<Rightarrow> bytes \<Rightarrow> world \<Rightarrow> (int \<times> world) option" where
  "emq_queue_exist_request client name w = (
     if strlenz name > 64 then Some (EMQ_STATUS_ERR, w)
     else do {
       c \<leftarrow> get_client client w;
       let header = emq_set_header_request (cmd_code EMQ_PROTOCOL_CMD_QUEUE_EXIST) (client_noack c)
         (word_of_nat sizeof_queue_exist_body);
       name_field \<leftarrow> memcpy (replicate 64 0) (cstrz name);
       let req = \<lparr>queue_exist_header = header, queue_exist_name = name_field\<rparr>;
       emq_store_request client (protocol_request_queue_exist_bytes req)
         (sizeof_header + sizeof_queue_exist_body) w })"

definition emq_queue_list_request :: "ptr \<Rightarrow> world \<Rightarrow> (int \<times> world) option" where
  "emq_queue_list_request client w = do {
     c \<leftarrow> get_client client w;
     let header = emq_set_header_request (cmd_code EMQ_PROTOCOL_CMD_QUEUE_LIST) (client_noack c) 0;
     emq_store_request client (request_header_bytes header) sizeof_header w }"

definition emq_queue_rename_request :: "ptr \<Rightarrow> bytes \<Rightarrow> bytes \<Rightarrow> world \<Rightarrow> (int \<times> world) option" where
  "emq_queue_rename_request client from_name to_name w = (
     if strlenz from_name > 64 \<or> strlenz to_name > 64 then Some (EMQ_STATUS_ERR, w)
     else do {
       c \<leftarrow> get_client client w;
       let header = emq_set_header_request (cmd_code EMQ_PROTOCOL_CMD_QUEUE_RENAME) (client_noack c)
         (word_of_nat sizeof_queue_rename_body);
       from_field \<leftarrow> memcpy (replicate 64 0) (cstrz from_name);
       to_field \<leftarrow> memcpy (replicate 64 0) (cstrz to_name);
       let req = \<lparr>queue_rename_header = header, queue_rename_from = from_field,
         queue_rename_to = to_field\<rparr>;
       emq_store_request client (protocol_request_queue_rename_bytes req)
         (sizeof_header + sizeof_queue_rename_body) w })"

definition emq_queue_size_request :: "ptr \<Rightarrow> bytes \<Rightarrow> world \<Rightarrow> (int \<times> world) option" where
  "emq_queue_size_request client name w = (
     if strlenz name > 64 then Some (EMQ_STATUS_ERR, w)
     else do {
       c \<leftarrow> get_client client w;
       let header = emq_set_header_request (cmd_code EMQ_PROTOCOL_CMD_QUEUE_SIZE) (client_noack c)
         (word_of_nat sizeof_queue_size_body);
       name_field \<leftarrow> memcpy (replicate 64 0) (cstrz name);
       let req = \<lparr>queue_size_header = header, queue_size_name = name_field\<rparr>;
       emq_store_request client (protocol_request_queue_size_bytes req)
         (sizeof_header + sizeof_queue_size_body) w })"

definition emq_queue_push_request :: "ptr \<Rightarrow> bytes \<Rightarrow> u32 \<Rightarrow> world \<Rightarrow> (int \<times> world) option" where
  "emq_queue_push_request client name msg_size w = (
     if strlenz name > 64 then Some (EMQ_STATUS_ERR, w)
     else do {
       c \<leftarrow> get_client client w;
       let header = emq_set_header_request (cmd_code EMQ_PROTOCOL_CMD_QUEUE_PUSH) (client_noack c)
         (word_of_nat sizeof_queue_push_body + msg_size);
       name_field \<leftarrow> memcpy (replicate 64 0) (cstrz name);
       let req = \<lparr>queue_push_header = header, queue_push_name = name_field\<rparr>;
       emq_store_request client (protocol_request_queue_push_bytes req)
         (sizeof_header + sizeof_queue_push_body) w })"

definition emq_queue_get_request :: "ptr \<Rightarrow> bytes \<Rightarrow> world \<Rightarrow> (int \<times> world) option" where
  "emq_queue_get_request client name w = (
     if strlenz name > 64 then Some (EMQ_STATUS_ERR, w)
     else do {
       c \<leftarrow> get_client client w;
       let header = emq_set_header_request (cmd_code EMQ_PROTOCOL_CMD_QUEUE_GET) (client_noack c)
         (word_of_nat sizeof_queue_get_body);
       name_field \<leftarrow> memcpy (replicate 64 0) (cstrz name);
       let req = \<lparr>queue_get_header = header, queue_get_name = name_field\<rparr>;
       emq_store_request client (protocol_request_queue_get_bytes req)
         (sizeof_header + sizeof_queue_get_body) w })"

definition emq_queue_pop_request :: "ptr \<Rightarrow> bytes \<Rightarrow> u32 \<Rightarrow> world \<Rightarrow> (int \<times> world) option" where
  "emq_queue_pop_request client name timeout w = (
     if strlenz name > 64 then Some (EMQ_STATUS_ERR, w)
     else do {
       c \<leftarrow> get_client client w;
       let header = emq_set_header_request (cmd_code EMQ_PROTOCOL_CMD_QUEUE_POP) (client_noack c)
         (word_of_nat sizeof_queue_pop_body);
       name_field \<leftarrow> memcpy (replicate 64 0) (cstrz name);
       let req = \<lparr>queue_pop_header = header, queue_pop_name = name_field,
         queue_pop_timeout = timeout\<rparr>;
       emq_store_request client (protocol_request_queue_pop_bytes req)
         (sizeof_header + sizeof_queue_pop_body) w })"

definition emq_queue_confirm_request :: "ptr \<Rightarrow> bytes \<Rightarrow> u64 \<Rightarrow> world \<Rightarrow> (int \<times> world) option" where
  "emq_queue_confirm_request client name tag w = (
     if strlenz name > 64 then Some (EMQ_STATUS_ERR, w)
     else do {
       c \<leftarrow> get_client client w;
       let header = emq_set_header_request (cmd_code EMQ_PROTOCOL_CMD_QUEUE_CONFIRM) (client_noack c)
         (word_of_nat sizeof_queue_confirm_body);
       name_field \<leftarrow> memcpy (replicate 64 0) (cstrz name);
       let req = \<lparr>queue_confirm_header = header, queue_confirm_name = name_field,
         queue_confirm_tag = tag\<rparr>;
       emq_store_request client (protocol_request_queue_confirm_bytes req)
         (sizeof_header + sizeof_queue_confirm_body) w })"

definition emq_queue_subscribe_request :: "ptr \<Rightarrow> bytes \<Rightarrow> u32 \<Rightarrow> world \<Rightarrow> (int \<times> world) option" where
  "emq_queue_subscribe_request client name flags w = (
     if strlenz name > 64 then Some (EMQ_STATUS_ERR, w)
     else do {
       c \<leftarrow> get_client client w;
       let header = emq_set_header_request (cmd_code EMQ_PROTOCOL_CMD_QUEUE_SUBSCRIBE) (client_noack c)
         (word_of_nat sizeof_queue_subscribe_body);
       name_field \<leftarrow> memcpy (replicate 64 0) (cstrz name);
       let req = \<lparr>queue_subscribe_header = header, queue_subscribe_name = name_field,
         queue_subscribe_flags = flags\<rparr>;
       emq_store_request client (protocol_request_queue_subscribe_bytes req)
         (sizeof_header + sizeof_queue_subscribe_body) w })"

definition emq_queue_unsubscribe_request :: "ptr \<Rightarrow> bytes \<Rightarrow> world \<Rightarrow> (int \<times> world) option" where
  "emq_queue_unsubscribe_request client name w = (
     if strlenz name > 64 then Some (EMQ_STATUS_ERR, w)
     else do {
       c \<leftarrow> get_client client w;
       let header = emq_set_header_request (cmd_code EMQ_PROTOCOL_CMD_QUEUE_UNSUBSCRIBE) (client_noack c)
         (word_of_nat sizeof_queue_unsubscribe_body);
       name_field \<leftarrow> memcpy (replicate 64 0) (cstrz name);
       let req = \<lparr>queue_unsubscribe_header = header, queue_unsubscribe_name = name_field\<rparr>;
       emq_store_request client (protocol_request_queue_unsubscribe_bytes req)
         (sizeof_header + sizeof_queue_unsubscribe_body) w })"

definition emq_queue_purge_request :: "ptr \<Rightarrow> bytes \<Rightarrow> world \<Rightarrow> (int \<times> world) option" where
  "emq_queue_purge_request client name w = (
     if strlenz name > 64 then Some (EMQ_STATUS_ERR, w)
     else do {
       c \<leftarrow> get_client client w;
       let header = emq_set_header_request (cmd_code EMQ_PROTOCOL_CMD_QUEUE_PURGE) (client_noack c)
         (word_of_nat sizeof_queue_purge_body);
       name_field \<leftarrow> memcpy (replicate 64 0) (cstrz name);
       let req = \<lparr>queue_purge_header = header, queue_purge_name = name_field\<rparr>;
       emq_store_request client (protocol_request_queue_purge_bytes req)
         (sizeof_header + sizeof_queue_purge_body) w })"

definition emq_queue_delete_request :: "ptr \<Rightarrow> bytes \<Rightarrow> world \<Rightarrow> (int \<times> world) option" where
  "emq_queue_delete_request client name w = (
     if strlenz name > 64 then Some (EMQ_STATUS_ERR, w)
     else do {
       c \<leftarrow> get_client client w;
       let header = emq_set_header_request (cmd_code EMQ_PROTOCOL_CMD_QUEUE_DELETE) (client_noack c)
         (word_of_nat sizeof_queue_delete_body);
       name_field \<leftarrow> memcpy (replicate 64 0) (cstrz name);
       let req = \<lparr>queue_delete_header = header, queue_delete_name = name_field\<rparr>;
       emq_store_request client (protocol_request_queue_delete_bytes req)
         (sizeof_header + sizeof_queue_delete_body) w })"

definition emq_route_create_request :: "ptr \<Rightarrow> bytes \<Rightarrow> u32 \<Rightarrow> world \<Rightarrow> (int \<times> world) option" where
  "emq_route_create_request client name flags w = (
     if strlenz name > 64 then Some (EMQ_STATUS_ERR, w)
     else do {
       c \<leftarrow> get_client client w;
       let header = emq_set_header_request (cmd_code EMQ_PROTOCOL_CMD_ROUTE_CREATE) (client_noack c)
         (word_of_nat sizeof_route_create_body);
       name_field \<leftarrow> memcpy (replicate 64 0) (cstrz name);
       let req = \<lparr>route_create_header = header, route_create_name = name_field,
         route_create_flags = flags\<rparr>;
       emq_store_request client (protocol_request_route_create_bytes req)
         (sizeof_header + sizeof_route_create_body) w })"

definition emq_route_exist_request :: "ptr \<Rightarrow> bytes \<Rightarrow> world \<Rightarrow> (int \<times> world) option" where
  "emq_route_exist_request client name w = (
     if strlenz name > 64 then Some (EMQ_STATUS_ERR, w)
     else do {
       c \<leftarrow> get_client client w;
       let header = emq_set_header_request (cmd_code EMQ_PROTOCOL_CMD_ROUTE_EXIST) (client_noack c)
         (word_of_nat sizeof_route_exist_body);
       name_field \<leftarrow> memcpy (replicate 64 0) (cstrz name);
       let req = \<lparr>route_exist_header = header, route_exist_name = name_field\<rparr>;
       emq_store_request client (protocol_request_route_exist_bytes req)
         (sizeof_header + sizeof_route_exist_body) w })"

definition emq_route_list_request :: "ptr \<Rightarrow> world \<Rightarrow> (int \<times> world) option" where
  "emq_route_list_request client w = do {
     c \<leftarrow> get_client client w;
     let header = emq_set_header_request (cmd_code EMQ_PROTOCOL_CMD_ROUTE_LIST) (client_noack c) 0;
     emq_store_request client (request_header_bytes header) sizeof_header w }"

definition emq_route_keys_request :: "ptr \<Rightarrow> bytes \<Rightarrow> world \<Rightarrow> (int \<times> world) option" where
  "emq_route_keys_request client name w = (
     if strlenz name > 64 then Some (EMQ_STATUS_ERR, w)
     else do {
       c \<leftarrow> get_client client w;
       let header = emq_set_header_request (cmd_code EMQ_PROTOCOL_CMD_ROUTE_KEYS) (client_noack c)
         (word_of_nat sizeof_route_keys_body);
       name_field \<leftarrow> memcpy (replicate 64 0) (cstrz name);
       let req = \<lparr>route_keys_header = header, route_keys_name = name_field\<rparr>;
       emq_store_request client (protocol_request_route_keys_bytes req)
         (sizeof_header + sizeof_route_keys_body) w })"

definition emq_route_rename_request :: "ptr \<Rightarrow> bytes \<Rightarrow> bytes \<Rightarrow> world \<Rightarrow> (int \<times> world) option" where
  "emq_route_rename_request client from_name to_name w = (
     if strlenz from_name > 64 \<or> strlenz to_name > 64 then Some (EMQ_STATUS_ERR, w)
     else do {
       c \<leftarrow> get_client client w;
       let header = emq_set_header_request (cmd_code EMQ_PROTOCOL_CMD_ROUTE_RENAME) (client_noack c)
         (word_of_nat sizeof_route_rename_body);
       from_field \<leftarrow> memcpy (replicate 64 0) (cstrz from_name);
       to_field \<leftarrow> memcpy (replicate 64 0) (cstrz to_name);
       let req = \<lparr>route_rename_header = header, route_rename_from = from_field,
         route_rename_to = to_field\<rparr>;
       emq_store_request client (protocol_request_route_rename_bytes req)
         (sizeof_header + sizeof_route_rename_body) w })"

definition emq_route_bind_request :: "ptr \<Rightarrow> bytes \<Rightarrow> bytes \<Rightarrow> bytes \<Rightarrow> world \<Rightarrow> (int \<times> world) option" where
  "emq_route_bind_request client name queue key w = (
     if strlenz name > 64 \<or> strlenz queue > 64 \<or> strlenz key > 32 then Some (EMQ_STATUS_ERR, w)
     else do {
       c \<leftarrow> get_client client w;
       let header = emq_set_header_request (cmd_code EMQ_PROTOCOL_CMD_ROUTE_BIND) (client_noack c)
         (word_of_nat sizeof_route_bind_body);
       name_field \<leftarrow> memcpy (replicate 64 0) (cstrz name);
       queue_field \<leftarrow> memcpy (replicate 64 0) (cstrz queue);
       key_field \<leftarrow> memcpy (replicate 32 0) (cstrz key);
       let req = \<lparr>route_bind_header = header, route_bind_name = name_field,
         route_bind_queue = queue_field, route_bind_key = key_field\<rparr>;
       emq_store_request client (protocol_request_route_bind_bytes req)
         (sizeof_header + sizeof_route_bind_body) w })"

definition emq_route_unbind_request :: "ptr \<Rightarrow> bytes \<Rightarrow> bytes \<Rightarrow> bytes \<Rightarrow> world \<Rightarrow> (int \<times> world) option" where
  "emq_route_unbind_request client name queue key w = (
     if strlenz name > 64 \<or> strlenz queue > 64 \<or> strlenz key > 32 then Some (EMQ_STATUS_ERR, w)
     else do {
       c \<leftarrow> get_client client w;
       let header = emq_set_header_request (cmd_code EMQ_PROTOCOL_CMD_ROUTE_UNBIND) (client_noack c)
         (word_of_nat sizeof_route_unbind_body);
       name_field \<leftarrow> memcpy (replicate 64 0) (cstrz name);
       queue_field \<leftarrow> memcpy (replicate 64 0) (cstrz queue);
       key_field \<leftarrow> memcpy (replicate 32 0) (cstrz key);
       let req = \<lparr>route_unbind_header = header, route_unbind_name = name_field,
         route_unbind_queue = queue_field, route_unbind_key = key_field\<rparr>;
       emq_store_request client (protocol_request_route_unbind_bytes req)
         (sizeof_header + sizeof_route_unbind_body) w })"

definition emq_route_push_request :: "ptr \<Rightarrow> bytes \<Rightarrow> bytes \<Rightarrow> u32 \<Rightarrow> world \<Rightarrow> (int \<times> world) option" where
  "emq_route_push_request client name key msg_size w = (
     if strlenz name > 64 \<or> strlenz key > 32 then Some (EMQ_STATUS_ERR, w)
     else do {
       c \<leftarrow> get_client client w;
       let header = emq_set_header_request (cmd_code EMQ_PROTOCOL_CMD_ROUTE_PUSH) (client_noack c)
         (word_of_nat sizeof_route_push_body + msg_size);
       name_field \<leftarrow> memcpy (replicate 64 0) (cstrz name);
       key_field \<leftarrow> memcpy (replicate 32 0) (cstrz key);
       let req = \<lparr>route_push_header = header, route_push_name = name_field,
         route_push_key = key_field\<rparr>;
       emq_store_request client (protocol_request_route_push_bytes req)
         (sizeof_header + sizeof_route_push_body) w })"

definition emq_route_delete_request :: "ptr \<Rightarrow> bytes \<Rightarrow> world \<Rightarrow> (int \<times> world) option" where
  "emq_route_delete_request client name w = (
     if strlenz name > 64 then Some (EMQ_STATUS_ERR, w)
     else do {
       c \<leftarrow> get_client client w;
       let header = emq_set_header_request (cmd_code EMQ_PROTOCOL_CMD_ROUTE_DELETE) (client_noack c)
         (word_of_nat sizeof_route_delete_body);
       name_field \<leftarrow> memcpy (replicate 64 0) (cstrz name);
       let req = \<lparr>route_delete_header = header, route_delete_name = name_field\<rparr>;
       emq_store_request client (protocol_request_route_delete_bytes req)
         (sizeof_header + sizeof_route_delete_body) w })"

definition emq_channel_create_request :: "ptr \<Rightarrow> bytes \<Rightarrow> u32 \<Rightarrow> world \<Rightarrow> (int \<times> world) option" where
  "emq_channel_create_request client name flags w = (
     if strlenz name > 64 then Some (EMQ_STATUS_ERR, w)
     else do {
       c \<leftarrow> get_client client w;
       let header = emq_set_header_request (cmd_code EMQ_PROTOCOL_CMD_CHANNEL_CREATE) (client_noack c)
         (word_of_nat sizeof_channel_create_body);
       name_field \<leftarrow> memcpy (replicate 64 0) (cstrz name);
       let req = \<lparr>channel_create_header = header, channel_create_name = name_field,
         channel_create_flags = flags\<rparr>;
       emq_store_request client (protocol_request_channel_create_bytes req)
         (sizeof_header + sizeof_channel_create_body) w })"

definition emq_channel_exist_request :: "ptr \<Rightarrow> bytes \<Rightarrow> world \<Rightarrow> (int \<times> world) option" where
  "emq_channel_exist_request client name w = (
     if strlenz name > 64 then Some (EMQ_STATUS_ERR, w)
     else do {
       c \<leftarrow> get_client client w;
       let header = emq_set_header_request (cmd_code EMQ_PROTOCOL_CMD_CHANNEL_EXIST) (client_noack c)
         (word_of_nat sizeof_channel_exist_body);
       name_field \<leftarrow> memcpy (replicate 64 0) (cstrz name);
       let req = \<lparr>channel_exist_header = header, channel_exist_name = name_field\<rparr>;
       emq_store_request client (protocol_request_channel_exist_bytes req)
         (sizeof_header + sizeof_channel_exist_body) w })"

definition emq_channel_list_request :: "ptr \<Rightarrow> world \<Rightarrow> (int \<times> world) option" where
  "emq_channel_list_request client w = do {
     c \<leftarrow> get_client client w;
     let header = emq_set_header_request (cmd_code EMQ_PROTOCOL_CMD_CHANNEL_LIST) (client_noack c) 0;
     emq_store_request client (request_header_bytes header) sizeof_header w }"

definition emq_channel_rename_request :: "ptr \<Rightarrow> bytes \<Rightarrow> bytes \<Rightarrow> world \<Rightarrow> (int \<times> world) option" where
  "emq_channel_rename_request client from_name to_name w = (
     if strlenz from_name > 64 \<or> strlenz to_name > 64 then Some (EMQ_STATUS_ERR, w)
     else do {
       c \<leftarrow> get_client client w;
       let header = emq_set_header_request (cmd_code EMQ_PROTOCOL_CMD_CHANNEL_RENAME) (client_noack c)
         (word_of_nat sizeof_channel_rename_body);
       from_field \<leftarrow> memcpy (replicate 64 0) (cstrz from_name);
       to_field \<leftarrow> memcpy (replicate 64 0) (cstrz to_name);
       let req = \<lparr>channel_rename_header = header, channel_rename_from = from_field,
         channel_rename_to = to_field\<rparr>;
       emq_store_request client (protocol_request_channel_rename_bytes req)
         (sizeof_header + sizeof_channel_rename_body) w })"

definition emq_channel_publish_request :: "ptr \<Rightarrow> bytes \<Rightarrow> bytes \<Rightarrow> u32 \<Rightarrow> world \<Rightarrow> (int \<times> world) option" where
  "emq_channel_publish_request client name topic msg_size w = (
     if strlenz name > 64 \<or> strlenz topic > 32 then Some (EMQ_STATUS_ERR, w)
     else do {
       c \<leftarrow> get_client client w;
       let header = emq_set_header_request (cmd_code EMQ_PROTOCOL_CMD_CHANNEL_PUBLISH) (client_noack c)
         (word_of_nat sizeof_channel_publish_body + msg_size);
       name_field \<leftarrow> memcpy (replicate 64 0) (cstrz name);
       topic_field \<leftarrow> memcpy (replicate 32 0) (cstrz topic);
       let req = \<lparr>channel_publish_header = header, channel_publish_name = name_field,
         channel_publish_topic = topic_field\<rparr>;
       emq_store_request client (protocol_request_channel_publish_bytes req)
         (sizeof_header + sizeof_channel_publish_body) w })"

definition emq_channel_subscribe_request :: "ptr \<Rightarrow> bytes \<Rightarrow> bytes \<Rightarrow> world \<Rightarrow> (int \<times> world) option" where
  "emq_channel_subscribe_request client name topic w = (
     if strlenz name > 64 \<or> strlenz topic > 32 then Some (EMQ_STATUS_ERR, w)
     else do {
       c \<leftarrow> get_client client w;
       let header = emq_set_header_request (cmd_code EMQ_PROTOCOL_CMD_CHANNEL_SUBSCRIBE) (client_noack c)
         (word_of_nat sizeof_channel_subscribe_body);
       name_field \<leftarrow> memcpy (replicate 64 0) (cstrz name);
       topic_field \<leftarrow> memcpy (replicate 32 0) (cstrz topic);
       let req = \<lparr>channel_subscribe_header = header, channel_subscribe_name = name_field,
         channel_subscribe_topic = topic_field\<rparr>;
       emq_store_request client (protocol_request_channel_subscribe_bytes req)
         (sizeof_header + sizeof_channel_subscribe_body) w })"

definition emq_channel_psubscribe_request :: "ptr \<Rightarrow> bytes \<Rightarrow> bytes \<Rightarrow> world \<Rightarrow> (int \<times> world) option" where
  "emq_channel_psubscribe_request client name pattern w = (
     if strlenz name > 64 \<or> strlenz pattern > 32 then Some (EMQ_STATUS_ERR, w)
     else do {
       c \<leftarrow> get_client client w;
       let header = emq_set_header_request (cmd_code EMQ_PROTOCOL_CMD_CHANNEL_PSUBSCRIBE) (client_noack c)
         (word_of_nat sizeof_channel_psubscribe_body);
       name_field \<leftarrow> memcpy (replicate 64 0) (cstrz name);
       pattern_field \<leftarrow> memcpy (replicate 32 0) (cstrz pattern);
       let req = \<lparr>channel_psubscribe_header = header, channel_psubscribe_name = name_field,
         channel_psubscribe_pattern = pattern_field\<rparr>;
       emq_store_request client (protocol_request_channel_psubscribe_bytes req)
         (sizeof_header + sizeof_channel_psubscribe_body) w })"

definition emq_channel_unsubscribe_request :: "ptr \<Rightarrow> bytes \<Rightarrow> bytes \<Rightarrow> world \<Rightarrow> (int \<times> world) option" where
  "emq_channel_unsubscribe_request client name topic w = (
     if strlenz name > 64 \<or> strlenz topic > 32 then Some (EMQ_STATUS_ERR, w)
     else do {
       c \<leftarrow> get_client client w;
       let header = emq_set_header_request (cmd_code EMQ_PROTOCOL_CMD_CHANNEL_UNSUBSCRIBE) (client_noack c)
         (word_of_nat sizeof_channel_unsubscribe_body);
       name_field \<leftarrow> memcpy (replicate 64 0) (cstrz name);
       topic_field \<leftarrow> memcpy (replicate 32 0) (cstrz topic);
       let req = \<lparr>channel_unsubscribe_header = header, channel_unsubscribe_name = name_field,
         channel_unsubscribe_topic = topic_field\<rparr>;
       emq_store_request client (protocol_request_channel_unsubscribe_bytes req)
         (sizeof_header + sizeof_channel_unsubscribe_body) w })"

definition emq_channel_punsubscribe_request :: "ptr \<Rightarrow> bytes \<Rightarrow> bytes \<Rightarrow> world \<Rightarrow> (int \<times> world) option" where
  "emq_channel_punsubscribe_request client name pattern w = (
     if strlenz name > 64 \<or> strlenz pattern > 32 then Some (EMQ_STATUS_ERR, w)
     else do {
       c \<leftarrow> get_client client w;
       let header = emq_set_header_request (cmd_code EMQ_PROTOCOL_CMD_CHANNEL_PUNSUBSCRIBE) (client_noack c)
         (word_of_nat sizeof_channel_punsubscribe_body);
       name_field \<leftarrow> memcpy (replicate 64 0) (cstrz name);
       pattern_field \<leftarrow> memcpy (replicate 32 0) (cstrz pattern);
       let req = \<lparr>channel_punsubscribe_header = header, channel_punsubscribe_name = name_field,
         channel_punsubscribe_pattern = pattern_field\<rparr>;
       emq_store_request client (protocol_request_channel_punsubscribe_bytes req)
         (sizeof_header + sizeof_channel_punsubscribe_body) w })"

definition emq_channel_delete_request :: "ptr \<Rightarrow> bytes \<Rightarrow> world \<Rightarrow> (int \<times> world) option" where
  "emq_channel_delete_request client name w = (
     if strlenz name > 64 then Some (EMQ_STATUS_ERR, w)
     else do {
       c \<leftarrow> get_client client w;
       let header = emq_set_header_request (cmd_code EMQ_PROTOCOL_CMD_CHANNEL_DELETE) (client_noack c)
         (word_of_nat sizeof_channel_delete_body);
       name_field \<leftarrow> memcpy (replicate 64 0) (cstrz name);
       let req = \<lparr>channel_delete_header = header, channel_delete_name = name_field\<rparr>;
       emq_store_request client (protocol_request_channel_delete_bytes req)
         (sizeof_header + sizeof_channel_delete_body) w })"

section \<open>The contract of a builder\<close>

text \<open>
  \<open>request_ready p w\<close>: the client at \<open>p\<close> has a request buffer of the size it says, large
  enough for every request (the largest, \<open>route_bind\<close>, has 168 bytes; the buffer is created
  with 4096).
\<close>

definition request_ready :: "ptr \<Rightarrow> world \<Rightarrow> bool" where
  "request_ready p w \<longleftrightarrow> (\<exists>c r b. get_client p w = Some c \<and> c_request c = Some r \<and>
     bufs w r = Some b \<and> length b = c_size c \<and> 168 \<le> c_size c)"

text \<open>The world after the builder stored \<open>bs\<close> as the request of the client at \<open>p\<close>.\<close>

definition put_request :: "ptr \<Rightarrow> bytes \<Rightarrow> world \<Rightarrow> world" where
  "put_request p bs w = (case p of None \<Rightarrow> w | Some a \<Rightarrow> (case clients w a of None \<Rightarrow> w
     | Some c \<Rightarrow> (case c_request c of None \<Rightarrow> w | Some r \<Rightarrow> (case bufs w r of None \<Rightarrow> w
         | Some b \<Rightarrow> w\<lparr>bufs := (bufs w)(r \<mapsto> map Some bs @ drop (length bs) b),
                      clients := (clients w)(a \<mapsto> c\<lparr>c_pos := length bs\<rparr>)\<rparr>))))"

definition request_wire :: "protocol_command \<Rightarrow> byte \<Rightarrow> u32 \<Rightarrow> bytes \<Rightarrow> bytes" where
  "request_wire cmd noack bodylen body =
     request_header_bytes (emq_set_header_request (cmd_code cmd) noack bodylen) @ body"

lemma length_request_wire [simp]: "length (request_wire cmd na n body) = sizeof_header + length body"
  by (simp add: request_wire_def)

lemma request_readyE:
  assumes "request_ready p w"
  obtains a c r b where "p = Some a" "clients w a = Some c" "c_request c = Some r"
    "bufs w r = Some b" "length b = c_size c" "168 \<le> c_size c"
  using assms by (cases p) (auto simp: request_ready_def get_client_def)

lemma emq_check_realloc_ready:
  "request_ready p w \<Longrightarrow> n \<le> 168 \<Longrightarrow> emq_check_realloc_client_request p n w = Some (EMQ_STATUS_OK, w)"
  by (elim request_readyE) (simp add: emq_check_realloc_client_request_def)

lemma emq_store_request_ready:
  assumes "request_ready p w" and "length req = n" and "n \<le> 168"
  shows "emq_store_request p req n w = Some (EMQ_STATUS_OK, put_request p req w)"
proof -
  from assms(1) obtain a c r b where "p = Some a" "clients w a = Some c" "c_request c = Some r"
    "bufs w r = Some b" "length b = c_size c" "168 \<le> c_size c"
    by (rule request_readyE)
  with assms show ?thesis
    by (simp add: emq_store_request_def emq_check_realloc_ready emq_set_client_request_def put_request_def
        EMQ_STATUS_OK_def EMQ_STATUS_ERR_def)
qed

lemma put_request_client:
  assumes "get_client p w = Some c" and "request_ready p w"
  shows "get_client p (put_request p bs w) = Some (c\<lparr>c_pos := length bs\<rparr>)"
  using assms by (elim request_readyE) (simp add: put_request_def)

lemma put_request_fields [simp]:
  "list_hdrs (put_request p bs w) = list_hdrs w" "nodes (put_request p bs w) = nodes w"
  "objs (put_request p bs w) = objs w" "msgs (put_request p bs w) = msgs w"
  "brk (put_request p bs w) = brk w" "alloc_ok (put_request p bs w) = alloc_ok w"
  "socks (put_request p bs w) = socks w"
  by (auto simp: put_request_def split: option.splits)

locale request_builder =
  fixes build :: "ptr \<Rightarrow> world \<Rightarrow> (int \<times> world) option"
    and ok :: bool
    and cmd :: protocol_command
    and bodylen :: u32
    and body :: bytes
  assumes build_rejects: "\<not> ok \<Longrightarrow> build p w = Some (EMQ_STATUS_ERR, w)"
    and build_accepts: "ok \<Longrightarrow> request_ready p w \<Longrightarrow> get_client p w = Some c \<Longrightarrow>
      build p w = Some (EMQ_STATUS_OK, put_request p (request_wire cmd (client_noack c) bodylen body) w)"
    and body_fits: "ok \<Longrightarrow> length body \<le> 160"
begin

lemma build_cases:
  assumes "request_ready p w"
  obtains (rejected) "\<not> ok" "build p w = Some (EMQ_STATUS_ERR, w)"
    | (built) c where "ok" "get_client p w = Some c"
        "build p w = Some (EMQ_STATUS_OK,
           put_request p (request_wire cmd (client_noack c) bodylen body) w)"
  using assms build_accepts build_rejects that unfolding request_ready_def by blast

lemma build_defined: "request_ready p w \<Longrightarrow> build p w \<noteq> None"
  by (erule build_cases) simp_all

lemma build_result:
  assumes "request_ready p w" and "build p w = Some (r, w')"
  shows "r = (if ok then EMQ_STATUS_OK else EMQ_STATUS_ERR)" and "\<not> ok \<Longrightarrow> w' = w"
  using assms(2) by (auto intro: build_cases [OF assms(1)])

lemma build_pos:
  assumes "ok" and "request_ready p w" and "get_client p w = Some c" and "build p w = Some (r, w')"
  shows "get_client p w' = Some (c\<lparr>c_pos := sizeof_header + length body\<rparr>)"
  using put_request_client [OF assms(3,2)] build_accepts [OF assms(1-3)] assms(4) by simp

end

lemmas builder_simps = emq_store_request_ready request_wire_def not_le sizeof_header_def request_struct_defs

section \<open>Every builder meets the contract\<close>

interpretation auth_req: request_builder
  "\<lambda>client. emq_auth_request client name password"
  "strlenz name \<le> 32 \<and> strlenz password \<le> 32"
  EMQ_PROTOCOL_CMD_AUTH "64" "zfield 32 name @ zfield 32 password"
  for name password
  by unfold_locales (auto simp: emq_auth_request_def builder_simps)

interpretation ping_req: request_builder
  "emq_ping_request"
  "True"
  EMQ_PROTOCOL_CMD_PING "0" "[]"
  by unfold_locales (auto simp: emq_ping_request_def builder_simps)

interpretation stat_req: request_builder
  "emq_stat_request"
  "True"
  EMQ_PROTOCOL_CMD_STAT "0" "[]"
  by unfold_locales (auto simp: emq_stat_request_def builder_simps)

interpretation save_req: request_builder
  "\<lambda>client. emq_save_request client is_async"
  "True"
  EMQ_PROTOCOL_CMD_SAVE "1" "[is_async]"
  for is_async
  by unfold_locales (auto simp: emq_save_request_def builder_simps)

interpretation flush_req: request_builder
  "\<lambda>client. emq_flush_request client flags"
  "True"
  EMQ_PROTOCOL_CMD_FLUSH "4" "le_bytes 4 flags"
  for flags
  by unfold_locales (auto simp: emq_flush_request_def builder_simps)

interpretation user_create_req: request_builder
  "\<lambda>client. emq_user_create_request client name password perm"
  "strlenz name \<le> 32 \<and> strlenz password \<le> 32"
  EMQ_PROTOCOL_CMD_USER_CREATE "72" "zfield 32 name @ zfield 32 password @ le_bytes 8 perm"
  for name password perm
  by unfold_locales (auto simp: emq_user_create_request_def builder_simps)

interpretation user_list_req: request_builder
  "emq_user_list_request"
  "True"
  EMQ_PROTOCOL_CMD_USER_LIST "0" "[]"
  by unfold_locales (auto simp: emq_user_list_request_def builder_simps)

interpretation user_rename_req: request_builder
  "\<lambda>client. emq_user_rename_request client from_name to_name"
  "strlenz from_name \<le> 32 \<and> strlenz to_name \<le> 32"
  EMQ_PROTOCOL_CMD_USER_RENAME "64" "zfield 32 from_name @ zfield 32 to_name"
  for from_name to_name
  by unfold_locales (auto simp: emq_user_rename_request_def builder_simps)

interpretation user_set_perm_req: request_builder
  "\<lambda>client. emq_user_set_perm_request client name perm"
  "strlenz name \<le> 32"
  EMQ_PROTOCOL_CMD_USER_SET_PERM "40" "zfield 32 name @ le_bytes 8 perm"
  for name perm
  by unfold_locales (auto simp: emq_user_set_perm_request_def builder_simps)

interpretation user_delete_req: request_builder
  "\<lambda>client. emq_user_delete_request client name"
  "strlenz name \<le> 32"
  EMQ_PROTOCOL_CMD_USER_DELETE "32" "zfield 32 name"
  for name
  by unfold_locales (auto simp: emq_user_delete_request_def builder_simps)

interpretation queue_create_req: request_builder
  "\<lambda>client. emq_queue_create_request client name max_msg max_msg_size flags"
  "strlenz name \<le> 64"
  EMQ_PROTOCOL_CMD_QUEUE_CREATE "76" "zfield 64 name @ le_bytes 4 max_msg @ le_bytes 4 max_msg_size @ le_bytes 4 flags"
  for name max_msg max_msg_size flags
  by unfold_locales (auto simp: emq_queue_create_request_def builder_simps)

interpretation queue_declare_req: request_builder
  "\<lambda>client. emq_queue_declare_request client name"
  "strlenz name \<le> 64"
  EMQ_PROTOCOL_CMD_QUEUE_DECLARE "64" "zfield 64 name"
  for name
  by unfold_locales (auto simp: emq_queue_declare_request_def builder_simps)

interpretation queue_exist_req: request_builder
  "\<lambda>client. emq_queue_exist_request client name"
  "strlenz name \<le> 64"
  EMQ_PROTOCOL_CMD_QUEUE_EXIST "64" "zfield 64 name"
  for name
  by unfold_locales (auto simp: emq_queue_exist_request_def builder_simps)

interpretation queue_list_req: request_builder
  "emq_queue_list_request"
  "True"
  EMQ_PROTOCOL_CMD_QUEUE_LIST "0" "[]"
  by unfold_locales (auto simp: emq_queue_list_request_def builder_simps)

interpretation queue_rename_req: request_builder
  "\<lambda>client. emq_queue_rename_request client from_name to_name"
  "strlenz from_name \<le> 64 \<and> strlenz to_name \<le> 64"
  EMQ_PROTOCOL_CMD_QUEUE_RENAME "128" "zfield 64 from_name @ zfield 64 to_name"
  for from_name to_name
  by unfold_locales (auto simp: emq_queue_rename_request_def builder_simps)

interpretation queue_size_req: request_builder
  "\<lambda>client. emq_queue_size_request client name"
  "strlenz name \<le> 64"
  EMQ_PROTOCOL_CMD_QUEUE_SIZE "64" "zfield 64 name"
  for name
  by unfold_locales (auto simp: emq_queue_size_request_def builder_simps)

interpretation queue_push_req: request_builder
  "\<lambda>client. emq_queue_push_request client name msg_size"
  "strlenz name \<le> 64"
  EMQ_PROTOCOL_CMD_QUEUE_PUSH "64 + msg_size" "zfield 64 name"
  for name msg_size
  by unfold_locales (auto simp: emq_queue_push_request_def builder_simps)

interpretation queue_get_req: request_builder
  "\<lambda>client. emq_queue_get_request client name"
  "strlenz name \<le> 64"
  EMQ_PROTOCOL_CMD_QUEUE_GET "64" "zfield 64 name"
  for name
  by unfold_locales (auto simp: emq_queue_get_request_def builder_simps)

interpretation queue_pop_req: request_builder
  "\<lambda>client. emq_queue_pop_request client name timeout"
  "strlenz name \<le> 64"
  EMQ_PROTOCOL_CMD_QUEUE_POP "68" "zfield 64 name @ le_bytes 4 timeout"
  for name timeout
  by unfold_locales (auto simp: emq_queue_pop_request_def builder_simps)

interpretation queue_confirm_req: request_builder
  "\<lambda>client. emq_queue_confirm_request client name tag"
  "strlenz name \<le> 64"
  EMQ_PROTOCOL_CMD_QUEUE_CONFIRM "72" "zfield 64 name @ le_bytes 8 tag"
  for name tag
  by unfold_locales (auto simp: emq_queue_confirm_request_def builder_simps)

interpretation queue_subscribe_req: request_builder
  "\<lambda>client. emq_queue_subscribe_request client name flags"
  "strlenz name \<le> 64"
  EMQ_PROTOCOL_CMD_QUEUE_SUBSCRIBE "68" "zfield 64 name @ le_bytes 4 flags"
  for name flags
  by unfold_locales (auto simp: emq_queue_subscribe_request_def builder_simps)

interpretation queue_unsubscribe_req: request_builder
  "\<lambda>client. emq_queue_unsubscribe_request client name"
  "strlenz name \<le> 64"
  EMQ_PROTOCOL_CMD_QUEUE_UNSUBSCRIBE "64" "zfield 64 name"
  for name
  by unfold_locales (auto simp: emq_queue_unsubscribe_request_def builder_simps)

interpretation queue_purge_req: request_builder
  "\<lambda>client. emq_queue_purge_request client name"
  "strlenz name \<le> 64"
  EMQ_PROTOCOL_CMD_QUEUE_PURGE "64" "zfield 64 name"
  for name
  by unfold_locales (auto simp: emq_queue_purge_request_def builder_simps)

interpretation queue_delete_req: request_builder
  "\<lambda>client. emq_queue_delete_request client name"
  "strlenz name \<le> 64"
  EMQ_PROTOCOL_CMD_QUEUE_DELETE "64" "zfield 64 name"
  for name
  by unfold_locales (auto simp: emq_queue_delete_request_def builder_simps)

interpretation route_create_req: request_builder
  "\<lambda>client. emq_route_create_request client name flags"
  "strlenz name \<le> 64"
  EMQ_PROTOCOL_CMD_ROUTE_CREATE "68" "zfield 64 name @ le_bytes 4 flags"
  for name flags
  by unfold_locales (auto simp: emq_route_create_request_def builder_simps)

interpretation route_exist_req: request_builder
  "\<lambda>client. emq_route_exist_request client name"
  "strlenz name \<le> 64"
  EMQ_PROTOCOL_CMD_ROUTE_EXIST "64" "zfield 64 name"
  for name
  by unfold_locales (auto simp: emq_route_exist_request_def builder_simps)

interpretation route_list_req: request_builder
  "emq_route_list_request"
  "True"
  EMQ_PROTOCOL_CMD_ROUTE_LIST "0" "[]"
  by unfold_locales (auto simp: emq_route_list_request_def builder_simps)

interpretation route_keys_req: request_builder
  "\<lambda>client. emq_route_keys_request client name"
  "strlenz name \<le> 64"
  EMQ_PROTOCOL_CMD_ROUTE_KEYS "64" "zfield 64 name"
  for name
  by unfold_locales (auto simp: emq_route_keys_request_def builder_simps)

interpretation route_rename_req: request_builder
  "\<lambda>client. emq_route_rename_request client from_name to_name"
  "strlenz from_name \<le> 64 \<and> strlenz to_name \<le> 64"
  EMQ_PROTOCOL_CMD_ROUTE_RENAME "128" "zfield 64 from_name @ zfield 64 to_name"
  for from_name to_name
  by unfold_locales (auto simp: emq_route_rename_request_def builder_simps)

interpretation route_bind_req: request_builder
  "\<lambda>client. emq_route_bind_request client name queue key"
  "strlenz name \<le> 64 \<and> strlenz queue \<le> 64 \<and> strlenz key \<le> 32"
  EMQ_PROTOCOL_CMD_ROUTE_BIND "160" "zfield 64 name @ zfield 64 queue @ zfield 32 key"
  for name queue key
  by unfold_locales (auto simp: emq_route_bind_request_def builder_simps)

interpretation route_unbind_req: request_builder
  "\<lambda>client. emq_route_unbind_request client name queue key"
  "strlenz name \<le> 64 \<and> strlenz queue \<le> 64 \<and> strlenz key \<le> 32"
  EMQ_PROTOCOL_CMD_ROUTE_UNBIND "160" "zfield 64 name @ zfield 64 queue @ zfield 32 key"
  for name queue key
  by unfold_locales (auto simp: emq_route_unbind_request_def builder_simps)

interpretation route_push_req: request_builder
  "\<lambda>client. emq_route_push_request client name key msg_size"
  "strlenz name \<le> 64 \<and> strlenz key \<le> 32"
  EMQ_PROTOCOL_CMD_ROUTE_PUSH "96 + msg_size" "zfield 64 name @ zfield 32 key"
  for name key msg_size
  by unfold_locales (auto simp: emq_route_push_request_def builder_simps)

interpretation route_delete_req: request_builder
  "\<lambda>client. emq_route_delete_request client name"
  "strlenz name \<le> 64"
  EMQ_PROTOCOL_CMD_ROUTE_DELETE "64" "zfield 64 name"
  for name
  by unfold_locales (auto simp: emq_route_delete_request_def builder_simps)

interpretation channel_create_req: request_builder
  "\<lambda>client. emq_channel_create_request client name flags"
  "strlenz name \<le> 64"
  EMQ_PROTOCOL_CMD_CHANNEL_CREATE "68" "zfield 64 name @ le_bytes 4 flags"
  for name flags
  by unfold_locales (auto simp: emq_channel_create_request_def builder_simps)

interpretation channel_exist_req: request_builder
  "\<lambda>client. emq_channel_exist_request client name"
  "strlenz name \<le> 64"
  EMQ_PROTOCOL_CMD_CHANNEL_EXIST "64" "zfield 64 name"
  for name
  by unfold_locales (auto simp: emq_channel_exist_request_def builder_simps)

interpretation channel_list_req: request_builder
  "emq_channel_list_request"
  "True"
  EMQ_PROTOCOL_CMD_CHANNEL_LIST "0" "[]"
  by unfold_locales (auto simp: emq_channel_list_request_def builder_simps)

interpretation channel_rename_req: request_builder
  "\<lambda>client. emq_channel_rename_request client from_name to_name"
  "strlenz from_name \<le> 64 \<and> strlenz to_name \<le> 64"
  EMQ_PROTOCOL_CMD_CHANNEL_RENAME "128" "zfield 64 from_name @ zfield 64 to_name"
  for from_name to_name
  by unfold_locales (auto simp: emq_channel_rename_request_def builder_simps)

interpretation channel_publish_req: request_builder
  "\<lambda>client. emq_channel_publish_request client name topic msg_size"
  "strlenz name \<le> 64 \<and> strlenz topic \<le> 32"
  EMQ_PROTOCOL_CMD_CHANNEL_PUBLISH "96 + msg_size" "zfield 64 name @ zfield 32 topic"
  for name topic msg_size
  by unfold_locales (auto simp: emq_channel_publish_request_def builder_simps)

interpretation channel_subscribe_req: request_builder
  "\<lambda>client. emq_channel_subscribe_request client name topic"
  "strlenz name \<le> 64 \<and> strlenz topic \<le> 32"
  EMQ_PROTOCOL_CMD_CHANNEL_SUBSCRIBE "96" "zfield 64 name @ zfield 32 topic"
  for name topic
  by unfold_locales (auto simp: emq_channel_subscribe_request_def builder_simps)

interpretation channel_psubscribe_req: request_builder
  "\<lambda>client. emq_channel_psubscribe_request client name pattern"
  "strlenz name \<le> 64 \<and> strlenz pattern \<le> 32"
  EMQ_PROTOCOL_CMD_CHANNEL_PSUBSCRIBE "96" "zfield 64 name @ zfield 32 pattern"
  for name pattern
  by unfold_locales (auto simp: emq_channel_psubscribe_request_def builder_simps)

interpretation channel_unsubscribe_req: request_builder
  "\<lambda>client. emq_channel_unsubscribe_request client name topic"
  "strlenz name \<le> 64 \<and> strlenz topic \<le> 32"
  EMQ_PROTOCOL_CMD_CHANNEL_UNSUBSCRIBE "96" "zfield 64 name @ zfield 32 topic"
  for name topic
  by unfold_locales (auto simp: emq_channel_unsubscribe_request_def builder_simps)

interpretation channel_punsubscribe_req: request_builder
  "\<lambda>client. emq_channel_punsubscribe_request client name pattern"
  "strlenz name \<le> 64 \<and> strlenz pattern \<le> 32"
  EMQ_PROTOCOL_CMD_CHANNEL_PUNSUBSCRIBE "96" "zfield 64 name @ zfield 32 pattern"
  for name pattern
  by unfold_locales (auto simp: emq_channel_punsubscribe_request_def builder_simps)

interpretation channel_delete_req: request_builder
  "\<lambda>client. emq_channel_delete_request client name"
  "strlenz name \<le> 64"
  EMQ_PROTOCOL_CMD_CHANNEL_DELETE "64" "zfield 64 name"
  for name
  by unfold_locales (auto simp: emq_channel_delete_request_def builder_simps)


end
