(* ===== verification/Emq_Session.thy ===== *)
theory Emq_Session
  imports Emq_Client Emq_Packet
begin

text \<open>
  The part of the world one call of the client touches: its own context, its request buffer
  and its socket. \<open>sess\<close> replaces these three and leaves everything else, and each primitive
  step of a call (setting the error text, building the request, writing, reading the reply) is
  an equation on \<open>sess\<close>.

  The second half states what a call may do on the connection, as relations between the socket
  before and after: \<open>request_sent\<close>, \<open>reply_read\<close> and their composition \<open>acked_call\<close>.
\<close>

section \<open>Error text\<close>

definition error_text :: "emq_error \<Rightarrow> string" where
  "error_text e = emq_error_array ! error_code e"

lemma error_text_simps [simp]:
  "error_text EMQ_ERROR_NONE = ''''"
  "error_text EMQ_ERROR_ALLOC = ''Error allocate memory''"
  "error_text EMQ_ERROR_DATA = ''Error input data''"
  "error_text EMQ_ERROR_WRITE = ''Error write request''"
  "error_text EMQ_ERROR_READ = ''Error read request''"
  "error_text EMQ_ERROR_RESPONSE = ''Response error''"
  "error_text EMQ_ERROR_PACKET = ''Packet error''"
  "error_text EMQ_ERROR_COMMAND = ''Command error''"
  "error_text EMQ_ERROR_ACCESS = ''Access error''"
  "error_text EMQ_ERROR_MEMORY = ''Memory error''"
  "error_text EMQ_ERROR_NOT_DECLARED = ''Value not declared''"
  "error_text EMQ_ERROR_NOT_FOUND = ''Value not found''"
  "error_text EMQ_ERROR_NO_DATA = ''No data''"
  by (simp_all add: error_text_def emq_error_array_def)

lemma error_text_empty_iff [simp]: "error_text e = '''' \<longleftrightarrow> e = EMQ_ERROR_NONE"
  by (cases e) simp_all

lemma take_error_text: "take (EMQ_ERROR_BUF_SIZE - Suc 0) (emq_error_array ! error_code e) = error_text e"
  by (cases e) (simp_all add: error_text_def emq_error_array_def EMQ_ERROR_BUF_SIZE_def)

section \<open>The session of a client\<close>

definition sess :: "addr \<Rightarrow> emq_client \<Rightarrow> byte option list \<Rightarrow> socket \<Rightarrow> world \<Rightarrow> world" where
  "sess a c b s w = w\<lparr>clients := (clients w)(a \<mapsto> c),
     bufs := (bufs w)(the (c_request c) \<mapsto> b), socks := (socks w)(c_fd c \<mapsto> s)\<rparr>"

definition sess_ok :: "emq_client \<Rightarrow> byte option list \<Rightarrow> bool" where
  "sess_ok c b \<longleftrightarrow> c_request c \<noteq> None \<and> length b = c_size c \<and> 168 \<le> c_size c"

text \<open>\<open>session a c b s w\<close>: the client at \<open>a\<close> has the context \<open>c\<close>, the request buffer \<open>b\<close> and the
  open connection \<open>s\<close>.\<close>

definition session :: "addr \<Rightarrow> emq_client \<Rightarrow> byte option list \<Rightarrow> socket \<Rightarrow> world \<Rightarrow> bool" where
  "session a c b s w \<longleftrightarrow> clients w a = Some c \<and> sess_ok c b \<and>
     bufs w (the (c_request c)) = Some b \<and> socks w (c_fd c) = Some s"

text \<open>The members of the context that no call but \<open>noack_enable\<close> and \<open>noack_disable\<close> changes.\<close>

definition same_client :: "emq_client \<Rightarrow> emq_client \<Rightarrow> bool" where
  "same_client c c' \<longleftrightarrow> c' = c\<lparr>c_status := c_status c', c_error := c_error c', c_pos := c_pos c'\<rparr>"

lemma same_clientD:
  assumes "same_client c c'"
  shows "c_request c' = c_request c" "c_fd c' = c_fd c" "c_noack c' = c_noack c" "c_size c' = c_size c"
    "c_queue_subscriptions c' = c_queue_subscriptions c" "c_channel_subscriptions c' = c_channel_subscriptions c"
  using assms by (cases c; cases c'; simp add: same_client_def)+

lemma sess_same: "session a c b s w \<Longrightarrow> sess a c b s w = w"
  by (simp add: sess_def session_def fun_upd_idem)

lemma session_sess [simp]: "session a c b s (sess a c b s w) \<longleftrightarrow> sess_ok c b"
  by (simp add: session_def sess_def)

lemma sess_sess [simp]:
  "c_request c' = c_request c \<Longrightarrow> c_fd c' = c_fd c \<Longrightarrow> sess a c' b' s' (sess a c b s w) = sess a c' b' s' w"
  by (simp add: sess_def)

lemma sess_ok_upd [simp]:
  "sess_ok (c\<lparr>c_status := x\<rparr>) b = sess_ok c b"
  "sess_ok (c\<lparr>c_error := e\<rparr>) b = sess_ok c b"
  "sess_ok (c\<lparr>c_pos := n\<rparr>) b = sess_ok c b"
  by (simp_all add: sess_ok_def)

text \<open>Updates of the context in a fixed order.\<close>

lemma client_upd_order [simp]:
  "c\<lparr>c_pos := n, c_error := e\<rparr> = c\<lparr>c_error := e, c_pos := n\<rparr>"
  "c\<lparr>c_status := x, c_error := e\<rparr> = c\<lparr>c_error := e, c_status := x\<rparr>"
  "c\<lparr>c_status := x, c_pos := n\<rparr> = c\<lparr>c_pos := n, c_status := x\<rparr>"
  by (cases c; simp)+

lemma sess_fields [simp]:
  "list_hdrs (sess a c b s w) = list_hdrs w" "nodes (sess a c b s w) = nodes w"
  "objs (sess a c b s w) = objs w" "msgs (sess a c b s w) = msgs w"
  "brk (sess a c b s w) = brk w" "alloc_ok (sess a c b s w) = alloc_ok w"
  "message_counter (sess a c b s w) = message_counter w"
  "clients (sess a c b s w) = (clients w)(a \<mapsto> c)"
  "socks (sess a c b s w) = (socks w)(c_fd c \<mapsto> s)"
  "bufs (sess a c b s w) = (bufs w)(the (c_request c) \<mapsto> b)"
  by (simp_all add: sess_def)

lemma get_client_sess [simp]: "get_client (Some a) (sess a c b s w) = Some c"
  by simp

lemma sess_socket: "sess a c b s w = sess a c b s' w \<Longrightarrow> s' = s"
  by (drule arg_cong [where f = "\<lambda>w. socks w (c_fd c)"]) (simp add: sess_def)

lemma put_client_sess [simp]:
  "c_request c' = c_request c \<Longrightarrow> c_fd c' = c_fd c \<Longrightarrow>
   put_client (Some a) c' (sess a c b s w) = Some (sess a c' b s w)"
  by (simp add: sess_def)

declare put_client_Some [simp del]

lemma set_sock_sess [simp]: "set_sock (c_fd c) s' (sess a c b s w) = sess a c b s' w"
  by (simp add: sess_def set_sock_def)

lemma client_sock_sess [simp]: "client_sock (Some a) (sess a c b s w) s' \<longleftrightarrow> s' = s"
  by (auto simp: client_sock_def)

lemma with_sock_sess [simp]: "with_sock (Some a) s' (sess a c b s w) = sess a c b s' w"
  by (simp add: with_sock_def)

lemma request_ready_sess [simp]: "request_ready (Some a) (sess a c b s w) = sess_ok c b"
  by (auto simp: request_ready_def sess_ok_def)

lemma put_request_sess [simp]:
  "sess_ok c b \<Longrightarrow> put_request (Some a) bs (sess a c b s w) =
     sess a (c\<lparr>c_pos := length bs\<rparr>) (map Some bs @ drop (length bs) b) s w"
  by (auto simp: put_request_def sess_ok_def sess_def)

lemma sess_ok_request [simp]:
  "sess_ok c b \<Longrightarrow> length bs \<le> 168 \<Longrightarrow> sess_ok c (map Some bs @ drop (length bs) b)"
  by (auto simp: sess_ok_def)

lemma buf_load_sess [simp]:
  "sess_ok c b \<Longrightarrow> buf_load (c_request c) 0 (length bs) (sess a c (map Some bs @ rest) s w) = Some bs"
  by (auto simp: sess_ok_def buf_load_def)

lemma set_error_sess [simp]:
  "emq_client_set_error (Some a) e (sess a c b s w) = Some (sess a (c\<lparr>c_error := error_text e\<rparr>) b s w)"
  by (simp add: emq_client_set_error_def take_error_text)

lemma clear_error_sess [simp]:
  "EMQ_CLEAR_ERROR (Some a) (sess a c b s w) = Some (sess a (c\<lparr>c_error := ''''\<rparr>) b s w)"
  by (simp add: EMQ_CLEAR_ERROR_def)

lemma set_status_sess [simp]:
  "EMQ_SET_STATUS (Some a) v (sess a c b s w) = Some (sess a (c\<lparr>c_status := v\<rparr>) b s w)"
  by (simp add: EMQ_SET_STATUS_def)

lemma status_distinct [simp]: "EMQ_STATUS_OK \<noteq> EMQ_STATUS_ERR" "EMQ_STATUS_ERR \<noteq> EMQ_STATUS_OK"
  by (simp_all add: EMQ_STATUS_OK_def EMQ_STATUS_ERR_def)

text \<open>Operations on other blocks and on the other heaps commute with \<open>sess\<close>.\<close>

lemma bind_map_option [simp]: "Option.bind (map_option f x) g = Option.bind x (g \<circ> f)"
  by (cases x) simp_all

lemma sess_upd [simp]:
  "(sess a c b s w)\<lparr>brk := n\<rparr> = sess a c b s (w\<lparr>brk := n\<rparr>)"
  "(sess a c b s w)\<lparr>msgs := ms\<rparr> = sess a c b s (w\<lparr>msgs := ms\<rparr>)"
  "(sess a c b s w)\<lparr>objs := os\<rparr> = sess a c b s (w\<lparr>objs := os\<rparr>)"
  "(sess a c b s w)\<lparr>nodes := ns\<rparr> = sess a c b s (w\<lparr>nodes := ns\<rparr>)"
  "(sess a c b s w)\<lparr>list_hdrs := ls\<rparr> = sess a c b s (w\<lparr>list_hdrs := ls\<rparr>)"
  by (simp_all add: sess_def)

lemma sess_bufs_upd:
  "q \<noteq> the (c_request c) \<Longrightarrow>
   (sess a c b s w)\<lparr>bufs := m(the (c_request c) \<mapsto> b, q := x)\<rparr> = sess a c b s (w\<lparr>bufs := m(q := x)\<rparr>)"
  by (simp add: sess_def fun_upd_twist)

lemma malloc_sess [simp]: "malloc n (sess a c b s w) = apsnd (sess a c b s) (malloc n w)"
  by (simp add: malloc_def)

lemma buf_alloc_sess [simp]:
  "brk w \<noteq> the (c_request c) \<Longrightarrow>
   buf_alloc n (sess a c b s w) = apsnd (sess a c b s) (buf_alloc n w)"
  by (simp add: buf_alloc_def malloc_def sess_bufs_upd)

lemma free_buf_sess [simp]:
  "q \<noteq> the (c_request c) \<Longrightarrow>
   free_buf (Some q) (sess a c b s w) = map_option (sess a c b s) (free_buf (Some q) w)"
  by (simp add: free_buf_def free_at_def sess_bufs_upd split: option.split)

lemma buf_store_sess [simp]:
  "q \<noteq> the (c_request c) \<Longrightarrow>
   buf_store (Some q) off bs (sess a c b s w) = map_option (sess a c b s) (buf_store (Some q) off bs w)"
  by (simp add: buf_store_def sess_bufs_upd split: option.split)

lemma buf_load_other_sess [simp]:
  "q \<noteq> the (c_request c) \<Longrightarrow> buf_load (Some q) off n (sess a c b s w) = buf_load (Some q) off n w"
  by (simp add: buf_load_def)

lemma free_msg_sess [simp]:
  "free_msg q (sess a c b s w) = map_option (sess a c b s) (free_msg q w)"
  by (cases q) (simp_all add: free_msg_def free_at_def split: option.split)

lemma free_obj_sess [simp]:
  "free_obj q (sess a c b s w) = map_option (sess a c b s) (free_obj q w)"
  by (cases q) (simp_all add: free_obj_def free_at_def split: option.split)

text \<open>Reading and writing: what any environment can make of them, and what a live one does.\<close>

lemma emq_client_read_sess:
  "\<exists>r bs s'. emq_client_read (Some a) n (sess a c b s w) = Some (r, bs, sess a c b s' w) \<and>
     sock_read s bs s' \<and> (r = -1 \<or> r = n \<and> int (length bs) = n) \<and>
     (live_reads s \<and> 0 \<le> n \<and> nat n \<le> length (incoming s) \<longrightarrow> r = n \<and> bs = take (nat n) (incoming s)) \<and>
     (r = -1 \<and> 0 \<le> n \<longrightarrow> read_broken s (nat n) s')"
proof -
  let ?w = "sess a c b s w"
  obtain r bs w' where rd: "emq_client_read (Some a) n ?w = Some (r, bs, w')"
    using emq_client_read_total [of "Some a" ?w n] by auto
  from emq_client_read_stream [OF _ rd, of s] obtain s' where
    "w' = sess a c b s' w" "sock_read s bs s'" "r = -1 \<or> r = n \<and> int (length bs) = n" by auto
  moreover have "read_broken s (nat n) s'" if "r = -1" "0 \<le> n"
  proof -
    from rd that(1) have "emq_client_read (Some a) n ?w = Some (-1, bs, w')" by simp
    from emq_client_read_broken [OF _ that(2) this, of s] obtain s2 where s2: "w' = sess a c b s2 w" "read_broken s (nat n) s2"
      by auto
    have "sess a c b s' w = sess a c b s2 w" using s2(1) \<open>w' = sess a c b s' w\<close> by (simp only:)
    from sess_socket [OF this] s2(2) show ?thesis by simp
  qed
  moreover have "r = n \<and> bs = take (nat n) (incoming s)"
    if "live_reads s" "0 \<le> n" "nat n \<le> length (incoming s)"
    using emq_client_read_live [of "Some a" ?w s "nat n"] that rd by auto
  ultimately show ?thesis using rd by blast
qed

lemma emq_client_write_sess:
  "\<exists>r k s'. emq_client_write (Some a) buf (sess a c b s w) = Some (r, sess a c b s' w) \<and>
     sock_wrote s (take k buf) s' \<and> k \<le> length buf \<and> (r = -1 \<or> r = int k) \<and>
     (live_writes s \<longrightarrow> r = int k \<and> k = length buf) \<and>
     (if r = -1 then \<exists>e. write_broken s buf (Io_error e) s' else sock_wrote s buf s' \<or> write_broken s buf (Io 0) s')"
proof -
  let ?w = "sess a c b s w"
  obtain r w' where wr: "emq_client_write (Some a) buf ?w = Some (r, w')"
    by (cases "write_loop (c_fd c) (int (length buf)) 0 buf ?w") (auto simp: emq_client_write_def)
  from emq_client_write_stream [OF _ wr, of s] obtain k s' where k:
    "k \<le> length buf" "w' = sess a c b s' w" "sock_wrote s (take k buf) s'" "r = -1 \<or> r = int k" by auto
  show ?thesis
  proof (cases "live_writes s")
    case True
    then obtain s2 where "r = int (length buf)" "w' = sess a c b s2 w" "sock_wrote s buf s2"
      using emq_client_write_live [of "Some a" ?w s buf] wr by auto
    with wr show ?thesis by (intro exI [of _ r] exI [of _ "length buf"] exI [of _ s2]) simp
  next
    case False
    from emq_client_write_outcome [OF _ wr, of s] obtain s2 where s2: "w' = sess a c b s2 w"
      "if r = -1 then \<exists>e. write_broken s buf (Io_error e) s2 else sock_wrote s buf s2 \<or> write_broken s buf (Io 0) s2" by auto
    have "sess a c b s' w = sess a c b s2 w" using s2(1) k(2) by (simp only:)
    from s2(2) [unfolded sess_socket [OF this]] False wr k show ?thesis by blast
  qed
qed

section \<open>What a call may do on the connection\<close>

text \<open>
  \<open>request_sent req s e s'\<close>: the request phase took the socket from \<open>s\<close> to \<open>s'\<close> and ended
  with the error \<open>e\<close>, or none; \<open>req\<close> is \<^const>\<open>None\<close> when the arguments are refused. A
  \<open>write\<close> that fails is the error. The phase succeeds when all of the request is out, and also
  when a \<open>write\<close> has returned 0 before that: it ends the loop and is not taken for an error.
\<close>

inductive request_sent :: "bytes option \<Rightarrow> socket \<Rightarrow> emq_error option \<Rightarrow> socket \<Rightarrow> bool" where
  not_built: "request_sent None s (Some EMQ_ERROR_DATA) s"
| write_failed: "write_broken s req (Io_error e) s' \<Longrightarrow> request_sent (Some req) s (Some EMQ_ERROR_WRITE) s'"
| written: "sock_wrote s req s' \<Longrightarrow> request_sent (Some req) s None s'"
| write_stopped: "write_broken s req (Io 0) s' \<Longrightarrow> request_sent (Some req) s None s'"

definition reply_error ::
    "(protocol_response_header \<Rightarrow> int) \<Rightarrow> protocol_response_header \<Rightarrow> emq_error option" where
  "reply_error check h =
     (if check h = EMQ_STATUS_ERR then Some EMQ_ERROR_RESPONSE
      else if res_status h = EMQ_PROTOCOL_STATUS_SUCCESS then None
      else Some (emq_get_error h))"

inductive reply_read ::
    "(protocol_response_header \<Rightarrow> int) \<Rightarrow> socket \<Rightarrow> emq_error option \<Rightarrow> socket \<Rightarrow> bool"
  for check where
  reply_lost: "read_broken s sizeof_header s' \<Longrightarrow> reply_read check s (Some EMQ_ERROR_READ) s'"
| reply_got: "sock_read s (response_header_bytes h) s' \<Longrightarrow> reply_read check s (reply_error check h) s'"

inductive acked_call :: "bytes option \<Rightarrow> int \<Rightarrow> (protocol_response_header \<Rightarrow> int) \<Rightarrow>
    socket \<Rightarrow> emq_error option \<Rightarrow> socket \<Rightarrow> bool"
  for req noack check where
  not_sent: "request_sent req s (Some e) s' \<Longrightarrow> acked_call req noack check s (Some e) s'"
| no_reply: "request_sent req s None s' \<Longrightarrow> noack \<noteq> 0 \<Longrightarrow> acked_call req noack check s None s'"
| replied: "request_sent req s None s1 \<Longrightarrow> noack = 0 \<Longrightarrow> reply_read check s1 e s' \<Longrightarrow>
    acked_call req noack check s e s'"

inductive_cases request_sentE: "request_sent req s e s'"
inductive_cases reply_readE: "reply_read check s e s'"
inductive_cases acked_callE: "acked_call req noack check s e s'"

inductive_simps request_sent_None [simp]: "request_sent None s e s'"

fun err_text :: "emq_error option \<Rightarrow> string" where
  "err_text None = ''''"
| "err_text (Some e) = error_text e"

text \<open>The context after a call that ended with the error \<open>e\<close>, or with success.\<close>

fun settle :: "emq_error option \<Rightarrow> emq_client \<Rightarrow> emq_client" where
  "settle None c = c\<lparr>c_status := EMQ_STATUS_OK, c_error := ''''\<rparr>"
| "settle (Some e) c = c\<lparr>c_status := EMQ_STATUS_ERR, c_error := error_text e\<rparr>"

fun result_of :: "emq_error option \<Rightarrow> int" where
  "result_of None = EMQ_STATUS_OK"
| "result_of (Some e) = EMQ_STATUS_ERR"

lemma same_client_refl [simp]: "same_client c c"
  by (simp add: same_client_def)

lemma same_client_upd [simp]:
  "same_client c (c'\<lparr>c_status := x\<rparr>) = same_client c c'"
  "same_client c (c'\<lparr>c_error := e\<rparr>) = same_client c c'"
  "same_client c (c'\<lparr>c_pos := n\<rparr>) = same_client c c'"
  by (cases c; cases c'; simp add: same_client_def)+

lemma same_client_settle [simp]: "same_client c (settle e c') = same_client c c'"
  by (cases e) simp_all

lemma same_client_trans: "same_client c c' \<Longrightarrow> same_client c' c'' \<Longrightarrow> same_client c c''"
  by (cases c; cases c'; cases c''; simp add: same_client_def)

lemma same_client_fields:
  "same_client c c' \<Longrightarrow> c_request c' = c_request c \<and> c_fd c' = c_fd c \<and> c_size c' = c_size c \<and>
     c_noack c' = c_noack c \<and> c_queue_subscriptions c' = c_queue_subscriptions c \<and>
     c_channel_subscriptions c' = c_channel_subscriptions c"
  by (cases c; cases c'; simp add: same_client_def)

lemma sess_ok_settle [simp]: "sess_ok (settle e c) b = sess_ok c b"
  by (cases e) simp_all

lemma settle_sel [simp]:
  "c_status (settle e c) = result_of e" "c_request (settle e c) = c_request c"
  "c_fd (settle e c) = c_fd c" "c_noack (settle e c) = c_noack c" "c_size (settle e c) = c_size c"
  "c_pos (settle e c) = c_pos c"
  "c_error (settle e c) = err_text e"
  by (cases e; simp)+

lemma settle_eq: "c\<lparr>c_error := err_text e, c_status := result_of e\<rparr> = settle e c"
  by (cases e) simp_all

lemma settle_settle [simp]: "settle e (settle e' c) = settle e c"
  by (cases e; cases e') simp_all

lemma request_sent_wrote:
  "request_sent req s e s' \<Longrightarrow> \<exists>k. sock_wrote s (take k (case req of None \<Rightarrow> [] | Some r \<Rightarrow> r)) s'"
proof (erule request_sentE)
  fix r assume "req = Some r" "sock_wrote s r s'"
  then show ?thesis by (intro exI [of _ "length r"]) simp
qed (auto dest: write_broken_wrote intro: exI [of _ 0])

lemma reply_read_read: "reply_read check s e s' \<Longrightarrow> \<exists>bs. sock_read s bs s'"
  by (auto elim!: reply_readE dest: read_broken_read)

lemma acked_call_noack:
  "acked_call req noack check s e s' \<Longrightarrow> noack \<noteq> 0 \<Longrightarrow> incoming s' = incoming s \<and> rd_pos s' = rd_pos s"
  by (auto elim!: acked_callE dest!: request_sent_wrote sock_wrote_fields)

lemma acked_call_output:
  "acked_call req noack check s e s' \<Longrightarrow>
     \<exists>k. outgoing s' = outgoing s @ take k (case req of None \<Rightarrow> [] | Some r \<Rightarrow> r)"
  by (fastforce elim!: acked_callE dest!: request_sent_wrote reply_read_read sock_read_fields simp: sock_wrote_def)

lemma acked_call_refused: "acked_call None noack check s e s' \<longleftrightarrow> e = Some EMQ_ERROR_DATA \<and> s' = s"
  by (auto elim!: acked_callE intro: acked_call.intros)

text \<open>
  \<open>shrinks s s'\<close>: between the two, bytes were taken off the front of the input, if anything, and
  the environment kept its script for the writes.
\<close>

definition shrinks :: "socket \<Rightarrow> socket \<Rightarrow> bool" where
  "shrinks s s' \<longleftrightarrow> (\<exists>d. incoming s = d @ incoming s') \<and> wr_script s' = wr_script s"

lemma shrinks_refl [simp]: "shrinks s s"
  by (simp add: shrinks_def)

lemma shrinks_trans: "shrinks s s' \<Longrightarrow> shrinks s' s'' \<Longrightarrow> shrinks s s''"
  by (auto simp: shrinks_def)

lemma shrinks_read: "sock_read s d s' \<Longrightarrow> shrinks s s'"
  by (auto simp: shrinks_def sock_read_fields dest: sock_read_front)

lemma shrinks_wrote: "sock_wrote s d s' \<Longrightarrow> shrinks s s'"
  by (simp add: shrinks_def sock_wrote_fields)

lemma shrinks_length: "shrinks s s' \<Longrightarrow> length (incoming s') \<le> length (incoming s)"
  by (auto simp: shrinks_def)

lemma request_sent_shrinks: "request_sent req s e s' \<Longrightarrow> shrinks s s'"
  by (auto dest!: request_sent_wrote intro: shrinks_wrote)

lemma reply_read_shrinks: "reply_read check s e s' \<Longrightarrow> shrinks s s'"
  by (auto dest!: reply_read_read intro: shrinks_read)

lemma acked_call_shrinks: "acked_call req noack check s e s' \<Longrightarrow> shrinks s s'"
  by (auto elim!: acked_callE dest!: request_sent_shrinks reply_read_shrinks intro: shrinks_trans)

text \<open>
  \<open>call_effect a c e s' w w'\<close>: all a call that ended with \<open>e\<close> did to the world \<open>w\<close> is to settle the
  error text and status of the client at \<open>a\<close>, to use its request buffer and to leave its
  socket as \<open>s'\<close>.
\<close>

definition call_effect :: "addr \<Rightarrow> emq_client \<Rightarrow> emq_error option \<Rightarrow> socket \<Rightarrow> world \<Rightarrow> world \<Rightarrow> bool" where
  "call_effect a c e s' w w' \<longleftrightarrow>
     (\<exists>n b'. sess_ok c b' \<and> w' = sess a (settle e (c\<lparr>c_pos := n\<rparr>)) b' s' w)"

lemma call_effectI: "sess_ok c b' \<Longrightarrow> call_effect a c e s' w (sess a (settle e (c\<lparr>c_pos := n\<rparr>)) b' s' w)"
  unfolding call_effect_def by blast

lemma call_effectI_same: "sess_ok c b' \<Longrightarrow> call_effect a c e s' w (sess a (settle e c) b' s' w)"
  using call_effectI [of c b' a e s' w "c_pos c"] by simp

lemma sessionD: "session a c b s w \<Longrightarrow> sess_ok c b" "session a c b s w \<Longrightarrow> w = sess a c b s w"
  by (simp_all add: session_def sess_same)

end
