(* ===== verification/Emq_Msg.thy ===== *)
theory Emq_Msg
  imports Emq_Session
begin

text \<open>
  Messages: creation, copy, the accessors and release (\<^verbatim>\<open>src/src/emq.c\<close>, \<open>emq_msg_*\<close>), and the
  two functions that receive one (\<open>emq_read_message\<close>, \<open>emq_read_message_tag\<close>).

  \<open>msg_rep w p m d\<close> is the memory of a complete message: its struct \<open>m\<close> and a data block with
  the bytes \<open>d\<close>. The lemmas say which calls give such a message, that copies share nothing
  with the original, and that release frees both blocks, or the struct alone under zero copy.
\<close>

section \<open>The operations\<close>

definition sizeof_emq_msg :: nat where "sizeof_emq_msg = 8 + 8 + 8 + 4 + 4"

definition put_msg :: "ptr \<Rightarrow> emq_msg \<Rightarrow> world \<Rightarrow> world option" where
  "put_msg p m w = (case p of None \<Rightarrow> None
     | Some a \<Rightarrow> (case msgs w a of None \<Rightarrow> None
         | Some _ \<Rightarrow> Some (w\<lparr>msgs := (msgs w)(a \<mapsto> m)\<rparr>)))"

text \<open>\<open>malloc(sizeof(*msg))\<close>: the members are given by the assignments that follow.\<close>

definition new_msg :: "emq_msg \<Rightarrow> world \<Rightarrow> ptr \<times> world" where
  "new_msg m w = (case malloc sizeof_emq_msg w of
     (None, w) \<Rightarrow> (None, w)
   | (Some a, w) \<Rightarrow> (Some a, w\<lparr>msgs := (msgs w)(a \<mapsto> m)\<rparr>))"

text \<open>\<open>memcpy\<close> of \<open>n\<close> bytes between two blocks, written or not.\<close>

definition copy_block :: "ptr \<Rightarrow> ptr \<Rightarrow> nat \<Rightarrow> world \<Rightarrow> world option" where
  "copy_block dst src n w = do {
     d \<leftarrow> dst;
     to_block \<leftarrow> bufs w d;
     from_block \<leftarrow> deref (bufs w) src;
     if n \<le> length from_block \<and> n \<le> length to_block
     then Some (w\<lparr>bufs := (bufs w)(d \<mapsto> take n from_block @ drop n to_block)\<rparr>)
     else None }"

definition emq_msg_create :: "ptr \<Rightarrow> size_t \<Rightarrow> int \<Rightarrow> world \<Rightarrow> (ptr \<times> world) option" where
  "emq_msg_create data sz zero_copy w = (
     let m = \<lparr>m_data = None, m_size = sz, m_tag = 0, m_expire = 0, m_zero_copy = Some zero_copy\<rparr>;
         (msg, w) = new_msg m w
     in if msg = None then Some (None, w)
        else if zero_copy = 0 then
          let (block, w) = buf_alloc (unat sz) w in
          if block = None then do {
            w \<leftarrow> free_msg msg w;
            Some (None, w) }
          else do {
            w \<leftarrow> put_msg msg (m\<lparr>m_data := block\<rparr>) w;
            w \<leftarrow> copy_block block data (unat sz) w;
            Some (msg, w) }
        else do {
          w \<leftarrow> put_msg msg (m\<lparr>m_data := data\<rparr>) w;
          Some (msg, w) })"

text \<open>\<open>new_msg->zero_copy\<close> is not assigned.\<close>

definition emq_msg_copy :: "ptr \<Rightarrow> world \<Rightarrow> (ptr \<times> world) option" where
  "emq_msg_copy msg w = (
     let m0 = \<lparr>m_data = None, m_size = 0, m_tag = 0, m_expire = 0, m_zero_copy = None\<rparr>;
         (copy, w) = new_msg m0 w
     in if copy = None then Some (None, w)
        else do {
          m \<leftarrow> deref (msgs w) msg;
          let (block, w) = buf_alloc (unat (m_size m)) w;
          w \<leftarrow> put_msg copy (m0\<lparr>m_data := block, m_size := m_size m, m_tag := m_tag m,
                m_expire := m_expire m\<rparr>) w;
          if block = None then do {
            w \<leftarrow> free_msg copy w;
            Some (None, w) }
          else do {
            w \<leftarrow> copy_block block (m_data m) (unat (m_size m)) w;
            Some (copy, w) } })"

definition emq_msg_expire :: "ptr \<Rightarrow> u32 \<Rightarrow> world \<Rightarrow> world option" where
  "emq_msg_expire msg time w = do {
     m \<leftarrow> deref (msgs w) msg;
     put_msg msg (m\<lparr>m_expire := time\<rparr>) w }"

definition emq_msg_data :: "ptr \<Rightarrow> world \<Rightarrow> ptr option" where
  "emq_msg_data msg w = map_option m_data (deref (msgs w) msg)"

definition emq_msg_size :: "ptr \<Rightarrow> world \<Rightarrow> size_t option" where
  "emq_msg_size msg w = map_option m_size (deref (msgs w) msg)"

definition emq_msg_tag :: "ptr \<Rightarrow> world \<Rightarrow> u64 option" where
  "emq_msg_tag msg w = map_option m_tag (deref (msgs w) msg)"

definition emq_msg_release :: "ptr \<Rightarrow> world \<Rightarrow> world option" where
  "emq_msg_release msg w = do {
     m \<leftarrow> deref (msgs w) msg;
     zero_copy \<leftarrow> m_zero_copy m;
     w \<leftarrow> (if zero_copy = 0 then free_buf (m_data m) w else Some w);
     free_msg msg w }"

text \<open>The count of \<open>emq_client_read\<close> is an \<open>int\<close>: the low 32 bits of the \<open>size_t\<close>.\<close>

definition emq_read_message :: "ptr \<Rightarrow> size_t \<Rightarrow> world \<Rightarrow> (ptr \<times> world) option" where
  "emq_read_message client sz w = (
     let m = \<lparr>m_data = None, m_size = sz, m_tag = 0, m_expire = 0,
              m_zero_copy = Some EMQ_ZEROCOPY_OFF\<rparr>;
         (msg, w) = new_msg m w
     in if msg = None then do {
          w \<leftarrow> emq_client_set_error client EMQ_ERROR_ALLOC w;
          Some (None, w) }
        else
          let (block, w) = buf_alloc (unat sz) w in
          if block = None then do {
            w \<leftarrow> emq_client_set_error client EMQ_ERROR_ALLOC w;
            w \<leftarrow> free_msg msg w;
            Some (None, w) }
          else do {
            w \<leftarrow> put_msg msg (m\<lparr>m_data := block\<rparr>) w;
            (n, bs, w) \<leftarrow> emq_client_read client (sint (ucast sz :: u32)) w;
            if n = -1 then do {
              w \<leftarrow> emq_client_set_error client EMQ_ERROR_READ w;
              w \<leftarrow> free_buf block w;
              w \<leftarrow> free_msg msg w;
              Some (None, w) }
            else do {
              w \<leftarrow> buf_store block 0 bs w;
              Some (msg, w) } })"

definition emq_read_message_tag :: "ptr \<Rightarrow> size_t \<Rightarrow> world \<Rightarrow> (ptr \<times> world) option" where
  "emq_read_message_tag client sz w = do {
     (n, bs, w) \<leftarrow> emq_client_read client 8 w;
     if n = -1 then Some (None, w)
     else do {
       (msg, w) \<leftarrow> emq_read_message client (sz - 8) w;
       m \<leftarrow> deref (msgs w) msg;
       w \<leftarrow> put_msg msg (m\<lparr>m_tag := le_word bs\<rparr>) w;
       Some (msg, w) } }"

section \<open>Complete messages\<close>

definition msg_rep :: "world \<Rightarrow> addr \<Rightarrow> emq_msg \<Rightarrow> bytes \<Rightarrow> bool" where
  "msg_rep w p m d \<longleftrightarrow> msgs w p = Some m \<and> unat (m_size m) = length d \<and>
     (\<exists>q rest. m_data m = Some q \<and> bufs w q = Some (map Some d @ rest))"

lemma buf_alloc_cases:
  "buf_alloc n w = (if n < 2 ^ 63 \<and> alloc_ok w (brk w)
     then (Some (brk w), w\<lparr>brk := Suc (brk w), bufs := (bufs w)(brk w \<mapsto> replicate n None)\<rparr>)
     else (None, w\<lparr>brk := Suc (brk w)\<rparr>))"
  by (simp add: buf_alloc_def malloc_def)

lemma new_msg_cases:
  "new_msg m w = (if alloc_ok w (brk w)
     then (Some (brk w), w\<lparr>brk := Suc (brk w), msgs := (msgs w)(brk w \<mapsto> m)\<rparr>)
     else (None, w\<lparr>brk := Suc (brk w)\<rparr>))"
  by (simp add: new_msg_def malloc_def sizeof_emq_msg_def)

text \<open>A message made with a copy of the caller's bytes.\<close>

lemma emq_msg_create_rep:
  assumes wf: "world_wf w" and src: "data = Some q" "bufs w q = Some (map Some d @ rest)"
    and size: "unat sz = length d" "length d < 2 ^ 63"
    and mem: "alloc_ok w (brk w)" "alloc_ok w (Suc (brk w))"
  shows "\<exists>w'. emq_msg_create data sz EMQ_ZEROCOPY_OFF w = Some (Some (brk w), w') \<and>
    msg_rep w' (brk w) \<lparr>m_data = Some (Suc (brk w)), m_size = sz, m_tag = 0, m_expire = 0,
      m_zero_copy = Some EMQ_ZEROCOPY_OFF\<rparr> d \<and>
    bufs w' = (bufs w)(Suc (brk w) \<mapsto> map Some d) \<and>
    msgs w' = (msgs w)(brk w \<mapsto> \<lparr>m_data = Some (Suc (brk w)), m_size = sz, m_tag = 0, m_expire = 0,
      m_zero_copy = Some EMQ_ZEROCOPY_OFF\<rparr>)"
proof -
  from wf src have "q < brk w"
    by (metis world_wf_def linorder_not_le option.distinct(1))
  with assms show ?thesis
    by (simp add: emq_msg_create_def new_msg_cases buf_alloc_cases Let_def put_msg_def
        copy_block_def msg_rep_def EMQ_ZEROCOPY_OFF_def)
qed

text \<open>Under zero copy the message points to the caller's block, and nothing is copied.\<close>

lemma emq_msg_create_zero_copy:
  assumes "alloc_ok w (brk w)"
  shows "emq_msg_create data sz EMQ_ZEROCOPY_ON w = Some (Some (brk w), w\<lparr>brk := Suc (brk w),
    msgs := (msgs w)(brk w \<mapsto> \<lparr>m_data = data, m_size = sz, m_tag = 0, m_expire = 0,
      m_zero_copy = Some EMQ_ZEROCOPY_ON\<rparr>)\<rparr>)"
  using assms by (simp add: emq_msg_create_def new_msg_cases put_msg_def EMQ_ZEROCOPY_ON_def)

lemma emq_msg_create_no_memory:
  assumes wf: "world_wf w" and mem: "\<not> alloc_ok w (brk w) \<or> zc = 0 \<and> \<not> alloc_ok w (Suc (brk w))"
  shows "\<exists>w'. emq_msg_create data sz zc w = Some (None, w') \<and> msgs w' = msgs w \<and> bufs w' = bufs w"
proof -
  from wf have "msgs w (brk w) = None" by (simp add: world_wf_def)
  with mem show ?thesis
    by (auto simp: emq_msg_create_def new_msg_cases buf_alloc_cases Let_def free_msg_def fun_upd_idem)
qed

text \<open>A copy has the bytes, the tag and the expiry of the original, in a block of its own.\<close>

lemma emq_msg_copy_rep:
  assumes wf: "world_wf w" and msg: "msg_rep w p m d" and size: "length d < 2 ^ 63"
    and mem: "alloc_ok w (brk w)" "alloc_ok w (Suc (brk w))"
  shows "\<exists>w'. emq_msg_copy (Some p) w = Some (Some (brk w), w') \<and>
    msg_rep w' (brk w) (m\<lparr>m_data := Some (Suc (brk w)), m_zero_copy := None\<rparr>) d \<and>
    bufs w' = (bufs w)(Suc (brk w) \<mapsto> map Some d) \<and> msgs w' p = Some m"
proof -
  from msg obtain q rest where q: "m_data m = Some q" "bufs w q = Some (map Some d @ rest)"
    and m: "msgs w p = Some m" "unat (m_size m) = length d" by (auto simp: msg_rep_def)
  from wf q m have "q < brk w" "p < brk w"
    by (metis world_wf_def linorder_not_le option.distinct(1))+
  with q m size mem show ?thesis
    by (cases m) (auto simp: emq_msg_copy_def new_msg_cases buf_alloc_cases Let_def put_msg_def
        copy_block_def msg_rep_def)
qed

text \<open>Release of a message that owns its block frees the block and the struct.\<close>

lemma emq_msg_release_owned:
  assumes "msg_rep w p m d" and "m_zero_copy m = Some 0"
  shows "emq_msg_release (Some p) w = Some (w\<lparr>bufs := (bufs w)(the (m_data m) := None),
    msgs := (msgs w)(p := None)\<rparr>)"
  using assms by (auto simp: msg_rep_def emq_msg_release_def free_buf_def free_msg_def)

lemma emq_msg_release_zero_copy:
  assumes "msgs w p = Some m" and "m_zero_copy m = Some z" and "z \<noteq> 0"
  shows "emq_msg_release (Some p) w = Some (w\<lparr>msgs := (msgs w)(p := None)\<rparr>)"
  using assms by (simp add: emq_msg_release_def free_msg_def)

lemma emq_msg_release_copied:
  "msgs w p = Some m \<Longrightarrow> m_zero_copy m = None \<Longrightarrow> emq_msg_release (Some p) w = None"
  by (simp add: emq_msg_release_def)

section \<open>Receiving a message\<close>

text \<open>
  \<open>message_read n s r s'\<close>: reading a message of \<open>n\<close> bytes took the socket from \<open>s\<close> to \<open>s'\<close>
  and gave an error or the bytes.
\<close>

inductive message_read :: "nat \<Rightarrow> socket \<Rightarrow> emq_error + bytes \<Rightarrow> socket \<Rightarrow> bool" for n where
  msg_no_memory: "message_read n s (Inl EMQ_ERROR_ALLOC) s"
| msg_lost: "sock_read s bs s' \<Longrightarrow> n < 2 ^ 31 \<longrightarrow> read_broken s n s' \<Longrightarrow> message_read n s (Inl EMQ_ERROR_READ) s'"
| msg_got: "sock_read s d s' \<Longrightarrow> length d = n \<Longrightarrow> n < 2 ^ 31 \<Longrightarrow> message_read n s (Inr d) s'"

inductive_cases message_readE: "message_read n s r s'"

definition read_msg :: "size_t \<Rightarrow> addr \<Rightarrow> emq_msg" where
  "read_msg sz q = \<lparr>m_data = Some q, m_size = sz, m_tag = 0, m_expire = 0,
     m_zero_copy = Some EMQ_ZEROCOPY_OFF\<rparr>"

text \<open>The world with a new message at the next two addresses.\<close>

definition add_msg :: "emq_msg \<Rightarrow> bytes \<Rightarrow> world \<Rightarrow> world" where
  "add_msg m d w = w\<lparr>brk := Suc (Suc (brk w)), bufs := (bufs w)(Suc (brk w) \<mapsto> map Some d),
     msgs := (msgs w)(brk w \<mapsto> m)\<rparr>"

lemma new_msg_sess [simp]: "new_msg m (sess a c b s w) = apsnd (sess a c b s) (new_msg m w)"
  by (simp add: new_msg_cases)

lemma put_msg_sess [simp]:
  "put_msg q m (sess a c b s w) = map_option (sess a c b s) (put_msg q m w)"
  by (simp add: put_msg_def split: option.split)

lemma world_wf_sess_iff:
  "world_wf (sess a c b s w) \<longleftrightarrow> a < brk w \<and> the (c_request c) < brk w \<and> world_wf w"
proof
  assume wf: "world_wf (sess a c b s w)"
  have a: "a < brk w"
    using wf [unfolded world_wf_def, rule_format, of a] by (cases "a < brk w") simp_all
  have r: "the (c_request c) < brk w"
    using wf [unfolded world_wf_def, rule_format, of "the (c_request c)"]
    by (cases "the (c_request c) < brk w") simp_all
  moreover have "world_wf w" using wf a r unfolding world_wf_def sess_fields by auto
  ultimately show "a < brk w \<and> the (c_request c) < brk w \<and> world_wf w" using a by simp
next
  assume "a < brk w \<and> the (c_request c) < brk w \<and> world_wf w"
  then show "world_wf (sess a c b s w)" unfolding world_wf_def sess_fields by auto
qed

lemma wf_request: "world_wf (sess a c b s w) \<Longrightarrow> the (c_request c) < brk w"
  by (simp add: world_wf_sess_iff)

lemma wf_fresh:
  assumes "world_wf w" and "brk w \<le> q"
  shows "clients w q = None" "list_hdrs w q = None" "nodes w q = None" "objs w q = None"
    "msgs w q = None" "bufs w q = None"
  using assms by (simp_all add: world_wf_def)

lemma wf_sess_fresh:
  assumes "world_wf (sess a c b s w)" and "brk w \<le> q"
  shows "list_hdrs w q = None" "nodes w q = None" "objs w q = None" "msgs w q = None"
    "bufs w q = None"
  using wf_fresh [OF assms(1), of q] wf_request [OF assms(1)] assms(2)
  by (simp_all split: if_splits)

text \<open>
  \<open>emq_read_message\<close>: either a complete message with its struct at the next address and its
  block at the one after, or the error text is set and no memory is kept.
\<close>

lemma emq_read_message_sess:
  assumes wf: "world_wf (sess a c b s w)" and sz: "unat sz < 2 ^ 32"
  shows "\<exists>r s'. message_read (unat sz) s r s' \<and> (case r of
      Inl e \<Rightarrow> (\<exists>n. emq_read_message (Some a) sz (sess a c b s w)
          = Some (None, sess a (c\<lparr>c_error := error_text e\<rparr>) b s' (w\<lparr>brk := n\<rparr>)) \<and> brk w \<le> n)
    | Inr d \<Rightarrow> emq_read_message (Some a) sz (sess a c b s w)
          = Some (Some (brk w), sess a c b s' (add_msg (read_msg sz (Suc (brk w))) d w))) \<and>
    (alloc_ok w (brk w) \<and> alloc_ok w (Suc (brk w)) \<and> live_reads s \<and> unat sz < 2 ^ 31 \<and>
       unat sz \<le> length (incoming s) \<longrightarrow> r = Inr (take (unat sz) (incoming s)))"
proof (cases "alloc_ok w (brk w) \<and> alloc_ok w (Suc (brk w))")
  case False
  then show ?thesis
    using wf_sess_fresh(4) [OF wf, of "brk w"] sz
    by (intro exI [of _ "Inl EMQ_ERROR_ALLOC"] exI [of _ s])
      (auto simp: emq_read_message_def new_msg_cases buf_alloc_cases Let_def free_msg_def
        fun_upd_idem intro: message_read.intros)
next
  case True
  let ?n = "unat sz" and ?q = "Suc (brk w)"
  let ?w1 = "w\<lparr>brk := Suc ?q, bufs := (bufs w)(?q \<mapsto> replicate ?n None),
    msgs := (msgs w)(brk w \<mapsto> read_msg sz ?q)\<rparr>"
  have size: "?n < 2 ^ 63" using sz by simp
  have fresh: "msgs w (brk w) = None" "bufs w ?q = None" "?q \<noteq> the (c_request c)"
    using wf_sess_fresh [OF wf] wf_request [OF wf] by auto
  let ?k = "sint (ucast sz :: u32)"
  obtain r bs s' where rd: "emq_client_read (Some a) ?k (sess a c b s ?w1) = Some (r, bs, sess a c b s' ?w1)"
    "sock_read s bs s'" "r = -1 \<or> r = ?k \<and> int (length bs) = ?k"
    "live_reads s \<and> 0 \<le> ?k \<and> nat ?k \<le> length (incoming s) \<longrightarrow>
       r = ?k \<and> bs = take (nat ?k) (incoming s)"
    "r = -1 \<and> 0 \<le> ?k \<longrightarrow> read_broken s (nat ?k) s'"
    using emq_client_read_sess [of a ?k c b s ?w1] by (elim exE conjE) (rule that)
  have small: "?k = int ?n" if "?n < 2 ^ 31"
    using that sz by (simp add: sint_u32_small unat_ucast_u32)
  have live: "r \<noteq> -1 \<and> bs = take ?n (incoming s)"
    if "live_reads s" "?n < 2 ^ 31" "?n \<le> length (incoming s)"
    using rd(4) that small [OF that(2)] by (simp del: of_nat_unat)
  show ?thesis
  proof (cases "r = -1")
    case failed: True
    have "emq_read_message (Some a) sz (sess a c b s w)
      = Some (None, sess a (c\<lparr>c_error := error_text EMQ_ERROR_READ\<rparr>) b s' (w\<lparr>brk := Suc ?q\<rparr>))"
      using True size rd(1) fresh failed
      by (simp add: emq_read_message_def new_msg_cases buf_alloc_cases put_msg_def Let_def read_msg_def
          sess_bufs_upd) (simp add: free_buf_def free_msg_def fun_upd_idem)
    moreover have "?n < 2 ^ 31 \<longrightarrow> read_broken s ?n s'" proof
      assume lt: "?n < 2 ^ 31"
      have "0 \<le> ?k" "nat ?k = ?n" unfolding small [OF lt] by simp_all
      with rd(5) failed show "read_broken s ?n s'" by simp
    qed
    ultimately show ?thesis
      using rd(2) live failed by (intro exI [of _ "Inl EMQ_ERROR_READ"] exI [of _ s'])
        (auto intro: message_read.intros)
  next
    case False
    with rd(3) sz have len: "length bs = ?n" "?n < 2 ^ 31"
      using int_eq_sint_u32 [of "length bs" "ucast sz"] by (simp_all add: unat_ucast_u32)
    have "emq_read_message (Some a) sz (sess a c b s w)
      = Some (Some (brk w), sess a c b s' (add_msg (read_msg sz ?q) bs w))"
      using True size rd(1,3) fresh False sz
      by (simp add: emq_read_message_def new_msg_cases buf_alloc_cases put_msg_def Let_def read_msg_def
          sess_bufs_upd) (cases w, simp add: buf_store_def add_msg_def len)
    then show ?thesis
      using rd(2) len live by (intro exI [of _ "Inr bs"] exI [of _ s'])
        (auto intro: message_read.intros)
  qed
qed

text \<open>
  \<open>tagged_read n s r s'\<close>: the reading of an eight byte tag and a message, \<open>n\<close> bytes in all.
  \<^term>\<open>Some None\<close> is the null pointer as the result; \<^term>\<open>None\<close> is a run into undefined
  behaviour, because \<open>emq_read_message_tag\<close> writes the tag through the pointer it got from
  \<open>emq_read_message\<close> without a look at it.
\<close>

inductive tagged_read :: "nat \<Rightarrow> socket \<Rightarrow> (bytes \<times> bytes) option option \<Rightarrow> socket \<Rightarrow> bool" for n where
  tag_lost: "read_broken s 8 s' \<Longrightarrow> tagged_read n s (Some None) s'"
| tag_too_short: "sock_read s tag s' \<Longrightarrow> length tag = 8 \<Longrightarrow> n < 8 \<Longrightarrow> tagged_read n s None s'"
| tag_no_message: "sock_read s tag s1 \<Longrightarrow> length tag = 8 \<Longrightarrow> 8 \<le> n \<Longrightarrow>
    message_read (n - 8) s1 (Inl e) s' \<Longrightarrow> tagged_read n s None s'"
| tag_message: "sock_read s tag s1 \<Longrightarrow> length tag = 8 \<Longrightarrow> 8 \<le> n \<Longrightarrow>
    message_read (n - 8) s1 (Inr d) s' \<Longrightarrow> tagged_read n s (Some (Some (tag, d))) s'"

inductive_cases tagged_readE: "tagged_read n s r s'"

lemma emq_read_message_huge:
  assumes "world_wf (sess a c b s w)" and "2 ^ 63 \<le> unat sz"
  shows "\<exists>w'. emq_read_message (Some a) sz (sess a c b s w) = Some (None, w')"
  using wf_sess_fresh(4) [OF assms(1), of "brk w"] assms(2)
  by (auto simp: emq_read_message_def new_msg_cases buf_alloc_cases Let_def free_msg_def not_less)

lemma unat_minus_8:
  fixes sz :: size_t
  shows "8 \<le> unat sz \<Longrightarrow> unat (sz - 8) = unat sz - 8" "unat sz < 8 \<Longrightarrow> 2 ^ 63 \<le> unat (sz - 8)"
  by (simp_all add: unat_sub_if')

lemma world_wf_sess_sock: "world_wf (sess a c b s' w) = world_wf (sess a c b s w)"
  by (simp add: world_wf_sess_iff)

definition tagged_msg :: "size_t \<Rightarrow> addr \<Rightarrow> bytes \<Rightarrow> emq_msg" where
  "tagged_msg sz q tag = (read_msg (sz - 8) q)\<lparr>m_tag := le_word tag\<rparr>"

lemma emq_read_message_tag_sess:
  assumes wf: "world_wf (sess a c b s w)" and sz: "unat sz < 2 ^ 32"
  shows "\<exists>r s'. tagged_read (unat sz) s r s' \<and>
    emq_read_message_tag (Some a) sz (sess a c b s w) = (case r of
        None \<Rightarrow> None
      | Some None \<Rightarrow> Some (None, sess a c b s' w)
      | Some (Some (tag, d)) \<Rightarrow> Some (Some (brk w),
          sess a c b s' (add_msg (tagged_msg sz (Suc (brk w)) tag) d w))) \<and>
    (alloc_ok w (brk w) \<and> alloc_ok w (Suc (brk w)) \<and> live_reads s \<and> 8 \<le> unat sz \<and>
       unat sz - 8 < 2 ^ 31 \<and> unat sz \<le> length (incoming s) \<longrightarrow>
       r = Some (Some (take 8 (incoming s), take (unat sz - 8) (drop 8 (incoming s)))))"
proof -
  obtain r tag s1 where rd: "emq_client_read (Some a) 8 (sess a c b s w) = Some (r, tag, sess a c b s1 w)"
    "sock_read s tag s1" "r = -1 \<or> r = 8 \<and> int (length tag) = 8"
    "live_reads s \<and> 8 \<le> length (incoming s) \<longrightarrow> r = 8 \<and> tag = take 8 (incoming s)"
    "r = -1 \<longrightarrow> read_broken s 8 s1"
  proof -
    obtain r tag s1 where "emq_client_read (Some a) 8 (sess a c b s w) = Some (r, tag, sess a c b s1 w)"
      "sock_read s tag s1" "r = -1 \<or> r = 8 \<and> int (length tag) = 8"
      "live_reads s \<and> 0 \<le> (8 :: int) \<and> nat 8 \<le> length (incoming s) \<longrightarrow> r = 8 \<and> tag = take (nat 8) (incoming s)"
      "r = -1 \<and> 0 \<le> (8 :: int) \<longrightarrow> read_broken s (nat 8) s1"
      using emq_client_read_sess [of a 8 c b s w] by (elim exE conjE) (rule that)
    then show thesis by (intro that [of r tag s1]) simp_all
  qed
  have wf1: "world_wf (sess a c b s1 w)" using wf by (simp add: world_wf_sess_sock [of a c b s1 w s])
  consider "r = -1" | "r = 8" "length tag = 8" "unat sz < 8" | "r = 8" "length tag = 8" "8 \<le> unat sz"
    using rd(3) by linarith
  then show ?thesis
  proof cases
    case 1
    with rd show ?thesis
      by (intro exI [of _ "Some None"] exI [of _ s1]) (auto simp: emq_read_message_tag_def intro: tag_lost)
  next
    case 2
    then obtain w' where "emq_read_message (Some a) (sz - 8) (sess a c b s1 w) = Some (None, w')"
      using emq_read_message_huge [OF wf1 unat_minus_8(2)] by blast
    with 2 rd show ?thesis
      by (intro exI [of _ None] exI [of _ s1]) (auto simp: emq_read_message_tag_def intro: tag_too_short)
  next
    case 3
    have sz': "unat (sz - 8) = unat sz - 8" "unat (sz - 8) < 2 ^ 32"
      using 3 sz unat_minus_8 by simp_all
    obtain r' s' where msg: "message_read (unat sz - 8) s1 r' s'" and run: "case r' of
        Inl e \<Rightarrow> (\<exists>n. emq_read_message (Some a) (sz - 8) (sess a c b s1 w)
          = Some (None, sess a (c\<lparr>c_error := error_text e\<rparr>) b s' (w\<lparr>brk := n\<rparr>)) \<and> brk w \<le> n)
      | Inr d \<Rightarrow> emq_read_message (Some a) (sz - 8) (sess a c b s1 w)
          = Some (Some (brk w), sess a c b s' (add_msg (read_msg (sz - 8) (Suc (brk w))) d w))"
      "alloc_ok w (brk w) \<and> alloc_ok w (Suc (brk w)) \<and> live_reads s1 \<and> unat sz - 8 < 2 ^ 31 \<and>
         unat sz - 8 \<le> length (incoming s1) \<longrightarrow> r' = Inr (take (unat sz - 8) (incoming s1))"
      using emq_read_message_sess [OF wf1 sz'(2)] unfolding sz'(1) by blast
    have live: "r' = Inr (take (unat sz - 8) (drop 8 (incoming s))) \<and> tag = take 8 (incoming s)"
      if "alloc_ok w (brk w)" "alloc_ok w (Suc (brk w))" "live_reads s" "unat sz - 8 < 2 ^ 31"
        "unat sz \<le> length (incoming s)"
    proof -
      have "8 \<le> length (incoming s)" using 3 that by linarith
      with rd(4) that(3) have "tag = take 8 (incoming s)" by blast
      moreover have "incoming s1 = drop 8 (incoming s)"
        using sock_read_front [OF rd(2)] 3 by simp
      ultimately show ?thesis
        using run(2) live_reads_after [OF that(3) rd(2)] that by simp
    qed
    show ?thesis
    proof (cases r')
      case (Inl e)
      have "emq_read_message_tag (Some a) sz (sess a c b s w) = None"
        using run(1) rd(1) 3 Inl by (auto simp: emq_read_message_tag_def)
      moreover have "tagged_read (unat sz) s None s'"
        using msg rd(2) 3 Inl by (auto intro: tag_no_message)
      ultimately show ?thesis
        using live Inl by (intro exI [of _ None] exI [of _ s']) auto
    next
      case (Inr d)
      have "emq_read_message_tag (Some a) sz (sess a c b s w) = Some (Some (brk w),
          sess a c b s' (add_msg (tagged_msg sz (Suc (brk w)) tag) d w))"
        using run(1) rd(1) 3 Inr
        by (simp add: emq_read_message_tag_def put_msg_def add_msg_def tagged_msg_def)
      moreover have "tagged_read (unat sz) s (Some (Some (tag, d))) s'"
        using msg rd(2) 3 Inr by (auto intro: tag_message)
      ultimately show ?thesis
        using live Inr by (intro exI [of _ "Some (Some (tag, d))"] exI [of _ s']) auto
    qed
  qed
qed

end
