(* ===== verification/Emq_Commands.thy ===== *)
theory Emq_Commands
  imports Emq_Msg
begin

text \<open>
  The commands of \<^verbatim>\<open>src/src/emq.c\<close> that send one request and read at most one reply.

  Every command has the same frame: clear the error, build the request, write it, look at the
  reply if there is one to come, and set the status on the way out. The phases are the first
  definitions below; a phase returns whether the command goes on or has taken the \<open>goto error\<close>.
  After them comes one definition per command.
\<close>

section \<open>The phases\<close>

definition reply_check :: "protocol_command \<Rightarrow> u32 \<Rightarrow> protocol_response_header \<Rightarrow> int" where
  "reply_check cmd bodylen header = emq_check_response_header header (cmd_code cmd) bodylen"

definition reply_check_mini :: "protocol_command \<Rightarrow> protocol_response_header \<Rightarrow> int" where
  "reply_check_mini cmd header = emq_check_response_header_mini header (cmd_code cmd)"

definition emq_request_write ::
    "ptr \<Rightarrow> (ptr \<Rightarrow> world \<Rightarrow> (int \<times> world) option) \<Rightarrow> world \<Rightarrow> (bool \<times> world) option" where
  "emq_request_write client build w = do {
     w \<leftarrow> EMQ_CLEAR_ERROR client w;
     (r, w) \<leftarrow> build client w;
     if r = EMQ_STATUS_ERR then do {
       w \<leftarrow> emq_client_set_error client EMQ_ERROR_DATA w;
       Some (False, w) }
     else do {
       c \<leftarrow> get_client client w;
       request \<leftarrow> buf_load (c_request c) 0 (c_pos c) w;
       (n, w) \<leftarrow> emq_client_write client request w;
       if n = -1 then do {
         w \<leftarrow> emq_client_set_error client EMQ_ERROR_WRITE w;
         Some (False, w) }
       else Some (True, w) } }"

text \<open>Read a response header, check it and its status: the header, or \<^const>\<open>None\<close> after an error.\<close>

definition emq_read_reply ::
    "ptr \<Rightarrow> (protocol_response_header \<Rightarrow> int) \<Rightarrow> world \<Rightarrow> (protocol_response_header option \<times> world) option" where
  "emq_read_reply client check w = do {
     (n, bs, w) \<leftarrow> emq_client_read client (int sizeof_header) w;
     if n = -1 then do {
       w \<leftarrow> emq_client_set_error client EMQ_ERROR_READ w;
       Some (None, w) }
     else do {
       let header = response_header_of bs;
       if check header = EMQ_STATUS_ERR then do {
         w \<leftarrow> emq_client_set_error client EMQ_ERROR_RESPONSE w;
         Some (None, w) }
       else if emq_check_status header EMQ_PROTOCOL_STATUS_SUCCESS = EMQ_STATUS_ERR then do {
         w \<leftarrow> emq_client_set_error client (emq_get_error header) w;
         Some (None, w) }
       else Some (Some header, w) } }"

text \<open>The block guarded by \<open>!client->noack\<close>.\<close>

definition emq_await_ack ::
    "ptr \<Rightarrow> (protocol_response_header \<Rightarrow> int) \<Rightarrow> world \<Rightarrow> (bool \<times> world) option" where
  "emq_await_ack client check w = do {
     c \<leftarrow> get_client client w;
     if c_noack c \<noteq> 0 then Some (True, w)
     else do {
       (header, w) \<leftarrow> emq_read_reply client check w;
       Some (header \<noteq> None, w) } }"

text \<open>Request and acknowledgement: whether the command goes on to its success exit.\<close>

definition emq_handshake :: "ptr \<Rightarrow> (ptr \<Rightarrow> world \<Rightarrow> (int \<times> world) option) \<Rightarrow>
    (protocol_response_header \<Rightarrow> int) \<Rightarrow> world \<Rightarrow> (bool \<times> world) option" where
  "emq_handshake client build check w = do {
     (ok, w) \<leftarrow> emq_request_write client build w;
     if ok then emq_await_ack client check w else Some (False, w) }"

text \<open>The two exits: status and result of success, or of the label \<open>error\<close>.\<close>

definition emq_exit :: "ptr \<Rightarrow> bool \<Rightarrow> 'r \<Rightarrow> world \<Rightarrow> ('r \<times> world) option" where
  "emq_exit client ok r w = do {
     w \<leftarrow> EMQ_SET_STATUS client (if ok then EMQ_STATUS_OK else EMQ_STATUS_ERR) w;
     Some (r, w) }"

definition emq_command :: "ptr \<Rightarrow> (ptr \<Rightarrow> world \<Rightarrow> (int \<times> world) option) \<Rightarrow>
    (protocol_response_header \<Rightarrow> int) \<Rightarrow> world \<Rightarrow> (int \<times> world) option" where
  "emq_command client build check w = do {
     (ok, w) \<leftarrow> emq_handshake client build check w;
     emq_exit client ok (if ok then EMQ_STATUS_OK else EMQ_STATUS_ERR) w }"

text \<open>
  The \<open>EXIST\<close> queries and \<open>QUEUE_SIZE\<close>: the acknowledgement switch is not looked at, and the
  \<open>uint32_t\<close> of the body is returned as an \<open>int\<close>.
\<close>

definition emq_u32_query :: "ptr \<Rightarrow> (ptr \<Rightarrow> world \<Rightarrow> (int \<times> world) option) \<Rightarrow>
    protocol_command \<Rightarrow> int \<Rightarrow> world \<Rightarrow> (int \<times> world) option" where
  "emq_u32_query client build cmd failed w = do {
     (ok, w) \<leftarrow> emq_request_write client build w;
     if \<not> ok then emq_exit client False failed w
     else do {
       (header, w) \<leftarrow> emq_read_reply client (reply_check cmd (word_of_nat sizeof_u32_body)) w;
       if header = None then emq_exit client False failed w
       else do {
         (n, bs, w) \<leftarrow> emq_client_read client (int sizeof_u32_body) w;
         if n = -1 then do {
           w \<leftarrow> emq_client_set_error client EMQ_ERROR_READ w;
           emq_exit client False failed w }
         else emq_exit client True (sint (le_word bs :: u32)) w } } }"

section \<open>Acknowledged commands and the queries for one number\<close>

definition emq_auth :: "ptr \<Rightarrow> bytes \<Rightarrow> bytes \<Rightarrow> world \<Rightarrow> (int \<times> world) option" where
  "emq_auth client name password w =
     emq_command client (\<lambda>client. emq_auth_request client name password)
       (reply_check EMQ_PROTOCOL_CMD_AUTH 0) w"

definition emq_ping :: "ptr \<Rightarrow> world \<Rightarrow> (int \<times> world) option" where
  "emq_ping client w =
     emq_command client emq_ping_request
       (reply_check EMQ_PROTOCOL_CMD_PING 0) w"

definition emq_save :: "ptr \<Rightarrow> byte \<Rightarrow> world \<Rightarrow> (int \<times> world) option" where
  "emq_save client is_async w =
     emq_command client (\<lambda>client. emq_save_request client is_async)
       (reply_check EMQ_PROTOCOL_CMD_SAVE 0) w"

definition emq_flush :: "ptr \<Rightarrow> u32 \<Rightarrow> world \<Rightarrow> (int \<times> world) option" where
  "emq_flush client flags w =
     emq_command client (\<lambda>client. emq_flush_request client flags)
       (reply_check EMQ_PROTOCOL_CMD_FLUSH 0) w"

definition emq_user_create :: "ptr \<Rightarrow> bytes \<Rightarrow> bytes \<Rightarrow> u64 \<Rightarrow> world \<Rightarrow> (int \<times> world) option" where
  "emq_user_create client name password perm w =
     emq_command client (\<lambda>client. emq_user_create_request client name password perm)
       (reply_check EMQ_PROTOCOL_CMD_USER_CREATE 0) w"

definition emq_user_rename :: "ptr \<Rightarrow> bytes \<Rightarrow> bytes \<Rightarrow> world \<Rightarrow> (int \<times> world) option" where
  "emq_user_rename client from_name to_name w =
     emq_command client (\<lambda>client. emq_user_rename_request client from_name to_name)
       (reply_check EMQ_PROTOCOL_CMD_USER_RENAME 0) w"

definition emq_user_set_perm :: "ptr \<Rightarrow> bytes \<Rightarrow> u64 \<Rightarrow> world \<Rightarrow> (int \<times> world) option" where
  "emq_user_set_perm client name perm w =
     emq_command client (\<lambda>client. emq_user_set_perm_request client name perm)
       (reply_check EMQ_PROTOCOL_CMD_USER_SET_PERM 0) w"

definition emq_user_delete :: "ptr \<Rightarrow> bytes \<Rightarrow> world \<Rightarrow> (int \<times> world) option" where
  "emq_user_delete client name w =
     emq_command client (\<lambda>client. emq_user_delete_request client name)
       (reply_check EMQ_PROTOCOL_CMD_USER_DELETE 0) w"

definition emq_queue_create :: "ptr \<Rightarrow> bytes \<Rightarrow> u32 \<Rightarrow> u32 \<Rightarrow> u32 \<Rightarrow> world \<Rightarrow> (int \<times> world) option" where
  "emq_queue_create client name max_msg max_msg_size flags w =
     emq_command client (\<lambda>client. emq_queue_create_request client name max_msg max_msg_size flags)
       (reply_check EMQ_PROTOCOL_CMD_QUEUE_CREATE 0) w"

definition emq_queue_declare :: "ptr \<Rightarrow> bytes \<Rightarrow> world \<Rightarrow> (int \<times> world) option" where
  "emq_queue_declare client name w =
     emq_command client (\<lambda>client. emq_queue_declare_request client name)
       (reply_check EMQ_PROTOCOL_CMD_QUEUE_DECLARE 0) w"

definition emq_queue_rename :: "ptr \<Rightarrow> bytes \<Rightarrow> bytes \<Rightarrow> world \<Rightarrow> (int \<times> world) option" where
  "emq_queue_rename client from_name to_name w =
     emq_command client (\<lambda>client. emq_queue_rename_request client from_name to_name)
       (reply_check EMQ_PROTOCOL_CMD_QUEUE_RENAME 0) w"

definition emq_queue_confirm :: "ptr \<Rightarrow> bytes \<Rightarrow> u64 \<Rightarrow> world \<Rightarrow> (int \<times> world) option" where
  "emq_queue_confirm client name tag w =
     emq_command client (\<lambda>client. emq_queue_confirm_request client name tag)
       (reply_check_mini EMQ_PROTOCOL_CMD_QUEUE_CONFIRM) w"

definition emq_queue_purge :: "ptr \<Rightarrow> bytes \<Rightarrow> world \<Rightarrow> (int \<times> world) option" where
  "emq_queue_purge client name w =
     emq_command client (\<lambda>client. emq_queue_purge_request client name)
       (reply_check EMQ_PROTOCOL_CMD_QUEUE_PURGE 0) w"

definition emq_queue_delete :: "ptr \<Rightarrow> bytes \<Rightarrow> world \<Rightarrow> (int \<times> world) option" where
  "emq_queue_delete client name w =
     emq_command client (\<lambda>client. emq_queue_delete_request client name)
       (reply_check EMQ_PROTOCOL_CMD_QUEUE_DELETE 0) w"

definition emq_route_create :: "ptr \<Rightarrow> bytes \<Rightarrow> u32 \<Rightarrow> world \<Rightarrow> (int \<times> world) option" where
  "emq_route_create client name flags w =
     emq_command client (\<lambda>client. emq_route_create_request client name flags)
       (reply_check EMQ_PROTOCOL_CMD_ROUTE_CREATE 0) w"

definition emq_route_rename :: "ptr \<Rightarrow> bytes \<Rightarrow> bytes \<Rightarrow> world \<Rightarrow> (int \<times> world) option" where
  "emq_route_rename client from_name to_name w =
     emq_command client (\<lambda>client. emq_route_rename_request client from_name to_name)
       (reply_check EMQ_PROTOCOL_CMD_ROUTE_RENAME 0) w"

definition emq_route_bind :: "ptr \<Rightarrow> bytes \<Rightarrow> bytes \<Rightarrow> bytes \<Rightarrow> world \<Rightarrow> (int \<times> world) option" where
  "emq_route_bind client name queue key w =
     emq_command client (\<lambda>client. emq_route_bind_request client name queue key)
       (reply_check EMQ_PROTOCOL_CMD_ROUTE_BIND 0) w"

definition emq_route_unbind :: "ptr \<Rightarrow> bytes \<Rightarrow> bytes \<Rightarrow> bytes \<Rightarrow> world \<Rightarrow> (int \<times> world) option" where
  "emq_route_unbind client name queue key w =
     emq_command client (\<lambda>client. emq_route_unbind_request client name queue key)
       (reply_check EMQ_PROTOCOL_CMD_ROUTE_UNBIND 0) w"

definition emq_route_delete :: "ptr \<Rightarrow> bytes \<Rightarrow> world \<Rightarrow> (int \<times> world) option" where
  "emq_route_delete client name w =
     emq_command client (\<lambda>client. emq_route_delete_request client name)
       (reply_check EMQ_PROTOCOL_CMD_ROUTE_DELETE 0) w"

definition emq_channel_create :: "ptr \<Rightarrow> bytes \<Rightarrow> u32 \<Rightarrow> world \<Rightarrow> (int \<times> world) option" where
  "emq_channel_create client name flags w =
     emq_command client (\<lambda>client. emq_channel_create_request client name flags)
       (reply_check EMQ_PROTOCOL_CMD_CHANNEL_CREATE 0) w"

definition emq_channel_rename :: "ptr \<Rightarrow> bytes \<Rightarrow> bytes \<Rightarrow> world \<Rightarrow> (int \<times> world) option" where
  "emq_channel_rename client from_name to_name w =
     emq_command client (\<lambda>client. emq_channel_rename_request client from_name to_name)
       (reply_check EMQ_PROTOCOL_CMD_CHANNEL_RENAME 0) w"

definition emq_channel_delete :: "ptr \<Rightarrow> bytes \<Rightarrow> world \<Rightarrow> (int \<times> world) option" where
  "emq_channel_delete client name w =
     emq_command client (\<lambda>client. emq_channel_delete_request client name)
       (reply_check EMQ_PROTOCOL_CMD_CHANNEL_DELETE 0) w"

definition emq_queue_exist :: "ptr \<Rightarrow> bytes \<Rightarrow> world \<Rightarrow> (int \<times> world) option" where
  "emq_queue_exist client name w =
     emq_u32_query client (\<lambda>client. emq_queue_exist_request client name)
       EMQ_PROTOCOL_CMD_QUEUE_EXIST 0 w"

definition emq_queue_size :: "ptr \<Rightarrow> bytes \<Rightarrow> world \<Rightarrow> (int \<times> world) option" where
  "emq_queue_size client name w =
     emq_u32_query client (\<lambda>client. emq_queue_size_request client name)
       EMQ_PROTOCOL_CMD_QUEUE_SIZE (-1) w"

definition emq_route_exist :: "ptr \<Rightarrow> bytes \<Rightarrow> world \<Rightarrow> (int \<times> world) option" where
  "emq_route_exist client name w =
     emq_u32_query client (\<lambda>client. emq_route_exist_request client name)
       EMQ_PROTOCOL_CMD_ROUTE_EXIST 0 w"

definition emq_channel_exist :: "ptr \<Rightarrow> bytes \<Rightarrow> world \<Rightarrow> (int \<times> world) option" where
  "emq_channel_exist client name w =
     emq_u32_query client (\<lambda>client. emq_channel_exist_request client name)
       EMQ_PROTOCOL_CMD_CHANNEL_EXIST 0 w"


section \<open>Server status\<close>

text \<open>
  \<open>emq_stat\<close> reads header and body in one go, before it looks at either. The second component
  of the result is what \<open>*status\<close> receives, if it is written.
\<close>

definition emq_stat :: "ptr \<Rightarrow> world \<Rightarrow> ((int \<times> emq_status option) \<times> world) option" where
  "emq_stat client w = do {
     (ok, w) \<leftarrow> emq_request_write client emq_stat_request w;
     if \<not> ok then emq_exit client False (EMQ_STATUS_ERR, None) w
     else do {
       (n, bs, w) \<leftarrow> emq_client_read client (int (sizeof_header + sizeof_stat_body)) w;
       if n = -1 then do {
         w \<leftarrow> emq_client_set_error client EMQ_ERROR_READ w;
         emq_exit client False (EMQ_STATUS_ERR, None) w }
       else do {
         let header = response_header_of bs;
         if reply_check EMQ_PROTOCOL_CMD_STAT (word_of_nat sizeof_stat_body) header = EMQ_STATUS_ERR
         then do {
           w \<leftarrow> emq_client_set_error client EMQ_ERROR_RESPONSE w;
           emq_exit client False (EMQ_STATUS_ERR, None) w }
         else if emq_check_status header EMQ_PROTOCOL_STATUS_SUCCESS = EMQ_STATUS_ERR then do {
           w \<leftarrow> emq_client_set_error client (emq_get_error header) w;
           emq_exit client False (EMQ_STATUS_ERR, None) w }
         else emq_exit client True (EMQ_STATUS_OK, Some (emq_status_of (drop sizeof_header bs))) w } } }"

section \<open>Commands that send a message\<close>

text \<open>
  \<open>emq_queue_push\<close>, \<open>emq_route_push\<close> and \<open>emq_channel_publish\<close>: the request, for the first two
  the expiry time, and the message leave in one \<open>writev\<close>. The \<open>size_t\<close> length goes through
  the \<open>uint32_t\<close> parameter of the builder.
\<close>

definition emq_send_message :: "ptr \<Rightarrow> ptr \<Rightarrow> bool \<Rightarrow> (u32 \<Rightarrow> ptr \<Rightarrow> world \<Rightarrow> (int \<times> world) option) \<Rightarrow>
    (protocol_response_header \<Rightarrow> int) \<Rightarrow> world \<Rightarrow> (int \<times> world) option" where
  "emq_send_message client msg with_expire build check w = do {
     w \<leftarrow> EMQ_CLEAR_ERROR client w;
     m \<leftarrow> deref (msgs w) msg;
     if m_size m < 1 then do {
       w \<leftarrow> emq_client_set_error client EMQ_ERROR_DATA w;
       emq_exit client False EMQ_STATUS_ERR w }
     else do {
       (r, w) \<leftarrow> build (ucast (if with_expire then 4 + m_size m else m_size m)) client w;
       if r = EMQ_STATUS_ERR then do {
         w \<leftarrow> emq_client_set_error client EMQ_ERROR_DATA w;
         emq_exit client False EMQ_STATUS_ERR w }
       else do {
         c \<leftarrow> get_client client w;
         request \<leftarrow> buf_load (c_request c) 0 (c_pos c) w;
         block \<leftarrow> buf_load (m_data m) 0 (unat (m_size m)) w;
         (n, w) \<leftarrow> emq_client_writev client
           (if with_expire then [request, le_bytes 4 (m_expire m), block] else [request, block]) w;
         if n = -1 then do {
           w \<leftarrow> emq_client_set_error client EMQ_ERROR_WRITE w;
           emq_exit client False EMQ_STATUS_ERR w }
         else do {
           (ok, w) \<leftarrow> emq_await_ack client check w;
           emq_exit client ok (if ok then EMQ_STATUS_OK else EMQ_STATUS_ERR) w } } } }"

definition emq_queue_push :: "ptr \<Rightarrow> bytes \<Rightarrow> ptr \<Rightarrow> world \<Rightarrow> (int \<times> world) option" where
  "emq_queue_push client name msg w =
     emq_send_message client msg True (\<lambda>n client. emq_queue_push_request client name n)
       (reply_check EMQ_PROTOCOL_CMD_QUEUE_PUSH 0) w"

definition emq_route_push :: "ptr \<Rightarrow> bytes \<Rightarrow> bytes \<Rightarrow> ptr \<Rightarrow> world \<Rightarrow> (int \<times> world) option" where
  "emq_route_push client name key msg w =
     emq_send_message client msg True (\<lambda>n client. emq_route_push_request client name key n)
       (reply_check EMQ_PROTOCOL_CMD_ROUTE_PUSH 0) w"

definition emq_channel_publish :: "ptr \<Rightarrow> bytes \<Rightarrow> bytes \<Rightarrow> ptr \<Rightarrow> world \<Rightarrow> (int \<times> world) option" where
  "emq_channel_publish client name topic msg w =
     emq_send_message client msg False (\<lambda>n client. emq_channel_publish_request client name topic n)
       (reply_check EMQ_PROTOCOL_CMD_CHANNEL_PUBLISH 0) w"

section \<open>Commands that fetch a message\<close>

definition emq_fetch_message :: "ptr \<Rightarrow> (ptr \<Rightarrow> world \<Rightarrow> (int \<times> world) option) \<Rightarrow>
    (protocol_response_header \<Rightarrow> int) \<Rightarrow> world \<Rightarrow> (ptr \<times> world) option" where
  "emq_fetch_message client build check w = do {
     (ok, w) \<leftarrow> emq_request_write client build w;
     if \<not> ok then emq_exit client False None w
     else do {
       (header, w) \<leftarrow> emq_read_reply client check w;
       case header of
         None \<Rightarrow> emq_exit client False None w
       | Some h \<Rightarrow> do {
           (msg, w) \<leftarrow> emq_read_message_tag client (ucast (res_bodylen h)) w;
           emq_exit client (msg \<noteq> None) msg w } } }"

definition emq_queue_get :: "ptr \<Rightarrow> bytes \<Rightarrow> world \<Rightarrow> (ptr \<times> world) option" where
  "emq_queue_get client name w =
     emq_fetch_message client (\<lambda>client. emq_queue_get_request client name)
       (reply_check_mini EMQ_PROTOCOL_CMD_QUEUE_GET) w"

definition emq_queue_pop :: "ptr \<Rightarrow> bytes \<Rightarrow> u32 \<Rightarrow> world \<Rightarrow> (ptr \<times> world) option" where
  "emq_queue_pop client name timeout w =
     emq_fetch_message client (\<lambda>client. emq_queue_pop_request client name timeout)
       (reply_check_mini EMQ_PROTOCOL_CMD_QUEUE_POP) w"

section \<open>The phases on a session\<close>

definition wire_request :: "bool \<Rightarrow> protocol_command \<Rightarrow> byte \<Rightarrow> u32 \<Rightarrow> bytes \<Rightarrow> bytes option" where
  "wire_request ok cmd noack bodylen body =
     (if ok then Some (request_wire cmd noack bodylen body) else None)"

context request_builder
begin

lemma build_sess:
  assumes "sess_ok c b"
  shows "build (Some a) (sess a c b s w) = (let req = request_wire cmd (client_noack c) bodylen body in
    if ok then Some (EMQ_STATUS_OK,
      sess a (c\<lparr>c_pos := length req\<rparr>) (map Some req @ drop (length req) b) s w)
    else Some (EMQ_STATUS_ERR, sess a c b s w))"
  using build_rejects [of "Some a" "sess a c b s w"]
    build_accepts [of "Some a" "sess a c b s w" c] assms by (simp add: Let_def)

lemma request_write_sess:
  assumes ready: "sess_ok c b"
  shows "\<exists>e n b' s'. emq_request_write (Some a) build (sess a c b s w)
      = Some (e = None, sess a (c\<lparr>c_error := err_text e, c_pos := n\<rparr>) b' s' w) \<and>
    sess_ok c b' \<and> request_sent (wire_request ok cmd (client_noack c) bodylen body) s e s' \<and>
    (ok \<and> live_writes s \<longrightarrow> e = None \<and> sock_wrote s (request_wire cmd (client_noack c) bodylen body) s')"
proof (cases ok)
  case False
  with ready show ?thesis
    by (intro exI [of _ "Some EMQ_ERROR_DATA"] exI [of _ "c_pos c"] exI [of _ b] exI [of _ s])
      (simp add: emq_request_write_def build_sess wire_request_def)
next
  case True
  let ?req = "request_wire cmd (client_noack c) bodylen body"
  let ?b = "map Some ?req @ drop (length ?req) b"
  let ?c = "c\<lparr>c_error := '''', c_pos := length ?req\<rparr>"
  have fits: "length ?req \<le> 168" using body_fits [OF True] by (simp add: sizeof_header_def)
  have ok': "sess_ok c ?b" using sess_ok_request [OF ready fits] .
  have cna: "client_noack (c\<lparr>c_error := ''''\<rparr>) = client_noack c" by (simp add: client_noack_def)
  obtain r k s' where wr: "emq_client_write (Some a) ?req (sess a ?c ?b s w) = Some (r, sess a ?c ?b s' w)"
    "sock_wrote s (take k ?req) s'" "r = -1 \<or> r = int k"
    "live_writes s \<longrightarrow> r = int k \<and> k = length ?req"
    "if r = -1 then \<exists>e. write_broken s ?req (Io_error e) s' else sock_wrote s ?req s' \<or> write_broken s ?req (Io 0) s'"
    using emq_client_write_sess [of a ?req ?c ?b s w] by (elim exE conjE) (rule that)
  have load: "buf_load (c_request c) 0 (length ?req) (sess a ?c ?b s w) = Some ?req"
    using buf_load_sess [of ?c ?b ?req a "drop (length ?req) b" s w] ok' by simp
  show ?thesis
  proof (cases "r = -1")
    case failed: True
    show ?thesis
      apply (intro exI [of _ "Some EMQ_ERROR_WRITE"] exI [of _ "length ?req"] exI [of _ ?b] exI [of _ s'])
      using True ready ok' wr load failed
      by (auto simp: emq_request_write_def build_sess wire_request_def Let_def cna intro: request_sent.write_failed)
  next
    case False
    then show ?thesis
      apply (intro exI [of _ None] exI [of _ "length ?req"] exI [of _ ?b] exI [of _ s'])
      using True ready ok' wr load
      by (auto simp: emq_request_write_def build_sess wire_request_def Let_def cna
          intro: request_sent.written request_sent.write_stopped)
  qed
qed

end

text \<open>Reading a reply: the error, and the header when there is none.\<close>

lemma clear_same: "c_error c = '''' \<Longrightarrow> c\<lparr>c_error := ''''\<rparr> = c"
  by (cases c) simp

lemma emq_read_reply_sess:
  assumes "c_error c = ''''"
  shows "\<exists>e h s'. emq_read_reply (Some a) check (sess a c b s w)
      = Some (if e = None then Some h else None, sess a (c\<lparr>c_error := err_text e\<rparr>) b s' w) \<and>
    reply_read check s e s' \<and>
    (e = None \<longrightarrow> sock_read s (response_header_bytes h) s' \<and> check h \<noteq> EMQ_STATUS_ERR \<and>
       res_status h = EMQ_PROTOCOL_STATUS_SUCCESS) \<and>
    (live_reads s \<and> sizeof_header \<le> length (incoming s) \<longrightarrow>
       h = response_header_of (take sizeof_header (incoming s)) \<and> e = reply_error check h \<and>
       sock_read s (take sizeof_header (incoming s)) s')"
proof -
  obtain r bs s' where rd:
    "emq_client_read (Some a) (int sizeof_header) (sess a c b s w) = Some (r, bs, sess a c b s' w)"
    "sock_read s bs s'" "r = -1 \<or> r = int sizeof_header \<and> int (length bs) = int sizeof_header"
    "live_reads s \<and> sizeof_header \<le> length (incoming s) \<longrightarrow>
       r = int sizeof_header \<and> bs = take sizeof_header (incoming s)"
    "r = -1 \<longrightarrow> read_broken s sizeof_header s'"
    using emq_client_read_sess [of a "int sizeof_header" c b s w] by auto
  note same = clear_same [OF assms]
  show ?thesis
  proof (cases "r = -1")
    case True
    with rd show ?thesis
      by (intro exI [of _ "Some EMQ_ERROR_READ"] exI [of _ undefined] exI [of _ s'])
        (auto simp: emq_read_reply_def intro: reply_lost)
  next
    case False
    let ?h = "response_header_of bs" and ?e = "reply_error check (response_header_of bs)"
    from False rd(3) have len: "length bs = sizeof_header" by simp
    have "reply_read check s ?e s'"
      using reply_got [of s ?h s' check] rd(2) response_header_surj [OF len] by simp
    moreover have "emq_read_reply (Some a) check (sess a c b s w)
        = Some (if ?e = None then Some ?h else None, sess a (c\<lparr>c_error := err_text ?e\<rparr>) b s' w)"
      using rd(1) False same
      by (auto simp: emq_read_reply_def Let_def reply_error_def emq_check_status_def)
    ultimately show ?thesis
      using rd(2,4) False response_header_surj [OF len]
      by (intro exI [of _ ?e] exI [of _ ?h] exI [of _ s'])
        (auto simp: reply_error_def split: if_splits)
  qed
qed

text \<open>The phase after the request: nothing is read when acknowledgements are off.\<close>

inductive ack_phase :: "int \<Rightarrow> (protocol_response_header \<Rightarrow> int) \<Rightarrow> socket \<Rightarrow>
    emq_error option \<Rightarrow> socket \<Rightarrow> bool" for noack check where
  ack_off: "noack \<noteq> 0 \<Longrightarrow> ack_phase noack check s None s"
| ack_on: "noack = 0 \<Longrightarrow> reply_read check s e s' \<Longrightarrow> ack_phase noack check s e s'"

lemma emq_await_ack_sess:
  assumes "c_error c = ''''"
  shows "\<exists>e s'. emq_await_ack (Some a) check (sess a c b s w)
      = Some (e = None, sess a (c\<lparr>c_error := err_text e\<rparr>) b s' w) \<and>
    ack_phase (c_noack c) check s e s' \<and>
    (c_noack c = 0 \<and> live_reads s \<and> sizeof_header \<le> length (incoming s) \<longrightarrow>
       e = reply_error check (response_header_of (take sizeof_header (incoming s))) \<and>
       sock_read s (take sizeof_header (incoming s)) s')"
proof (cases "c_noack c = 0")
  case True
  obtain e h s' where "emq_read_reply (Some a) check (sess a c b s w)
      = Some (if e = None then Some h else None, sess a (c\<lparr>c_error := err_text e\<rparr>) b s' w)"
    "reply_read check s e s'"
    "live_reads s \<and> sizeof_header \<le> length (incoming s) \<longrightarrow>
       h = response_header_of (take sizeof_header (incoming s)) \<and> e = reply_error check h \<and>
       sock_read s (take sizeof_header (incoming s)) s'"
    using emq_read_reply_sess [OF assms] by metis
  with True show ?thesis
    by (intro exI [of _ e] exI [of _ s']) (auto simp: emq_await_ack_def ack_on)
next
  case False
  with clear_same [OF assms] show ?thesis
    by (intro exI [of _ None] exI [of _ s]) (simp add: emq_await_ack_def ack_off)
qed

lemma acked_call_phases:
  "request_sent req s e s1 \<Longrightarrow> e \<noteq> None \<Longrightarrow> acked_call req noack check s e s1"
  "request_sent req s None s1 \<Longrightarrow> ack_phase noack check s1 e s' \<Longrightarrow> acked_call req noack check s e s'"
  by (auto elim!: ack_phase.cases intro: acked_call.intros)

lemma emq_exit_sess [simp]:
  "emq_exit (Some a) ok r (sess a c b s w)
     = Some (r, sess a (c\<lparr>c_status := (if ok then EMQ_STATUS_OK else EMQ_STATUS_ERR)\<rparr>) b s w)"
  by (simp add: emq_exit_def)

section \<open>Acknowledged commands\<close>

text \<open>
  Every acknowledged command refines \<open>acked_call\<close>, in any environment: it returns, its result
  and the context tell the same story, and the connection moved as the relation allows. In a
  live environment with a whole reply waiting, the outcome is exactly the one the reply gives.
\<close>

context request_builder
begin

lemma handshake_sess:
  assumes ready: "sess_ok c b"
  shows "\<exists>e n b' s'. emq_handshake (Some a) build check (sess a c b s w)
      = Some (e = None, sess a (c\<lparr>c_error := err_text e, c_pos := n\<rparr>) b' s' w) \<and> sess_ok c b' \<and>
    acked_call (wire_request ok cmd (client_noack c) bodylen body) (c_noack c) check s e s'"
proof -
  let ?req = "wire_request ok cmd (client_noack c) bodylen body"
  obtain e n b' s1 where wr: "emq_request_write (Some a) build (sess a c b s w)
      = Some (e = None, sess a (c\<lparr>c_error := err_text e, c_pos := n\<rparr>) b' s1 w)" "sess_ok c b'"
    "request_sent ?req s e s1"
    using request_write_sess [OF ready] by blast
  show ?thesis
  proof (cases e)
    case (Some e')
    with wr show ?thesis
      by (intro exI [of _ e] exI [of _ n] exI [of _ b'] exI [of _ s1])
        (auto simp: emq_handshake_def intro: acked_call_phases)
  next
    case None
    let ?c = "c\<lparr>c_error := '''', c_pos := n\<rparr>"
    obtain e' s' where "emq_await_ack (Some a) check (sess a ?c b' s1 w)
        = Some (e' = None, sess a (?c\<lparr>c_error := err_text e'\<rparr>) b' s' w)"
      "ack_phase (c_noack c) check s1 e' s'"
      using emq_await_ack_sess [of ?c a check b' s1 w] by auto
    with None wr show ?thesis
      by (intro exI [of _ e'] exI [of _ n] exI [of _ b'] exI [of _ s'])
        (auto simp: emq_handshake_def intro: acked_call_phases)
  qed
qed

lemma command_sess:
  assumes ready: "sess_ok c b"
  shows "\<exists>e n b' s'. emq_command (Some a) build check (sess a c b s w)
      = Some (result_of e, sess a (settle e (c\<lparr>c_pos := n\<rparr>)) b' s' w) \<and> sess_ok c b' \<and>
    acked_call (wire_request ok cmd (client_noack c) bodylen body) (c_noack c) check s e s'"
proof -
  obtain e n b' s' where "emq_handshake (Some a) build check (sess a c b s w)
      = Some (e = None, sess a (c\<lparr>c_error := err_text e, c_pos := n\<rparr>) b' s' w)" "sess_ok c b'"
    "acked_call (wire_request ok cmd (client_noack c) bodylen body) (c_noack c) check s e s'"
    using handshake_sess [OF ready] by blast
  then show ?thesis
    by (intro exI [of _ e] exI [of _ n] exI [of _ b'] exI [of _ s'])
      (cases e; simp add: emq_command_def)
qed

end

section \<open>The phases in a live environment\<close>

text \<open>\<open>live s\<close>: every read and every write from now on moves some byte.\<close>

definition live :: "socket \<Rightarrow> bool" where
  "live s \<longleftrightarrow> live_reads s \<and> live_writes s"

definition wrote_out :: "socket \<Rightarrow> bytes \<Rightarrow> socket \<Rightarrow> bool" where
  "wrote_out s req s' \<longleftrightarrow> outgoing s' = outgoing s @ req \<and> incoming s' = incoming s \<and> live s'"

definition took_in :: "socket \<Rightarrow> bytes \<Rightarrow> socket \<Rightarrow> bool" where
  "took_in s d s' \<longleftrightarrow> incoming s = d @ incoming s' \<and> outgoing s' = outgoing s \<and> live s'"

lemma liveD: "live s \<Longrightarrow> live_reads s" "live s \<Longrightarrow> live_writes s"
  by (simp_all add: live_def)

lemma took_inI:
  assumes "live s" and "sock_read s d s'"
  shows "took_in s d s'"
proof -
  have "incoming s = d @ incoming s'" using assms(2) by (simp add: sock_read_def)
  then show ?thesis
    using live_reads_after [OF liveD(1) [OF assms(1)] assms(2)] live_writes_read [OF assms(2)]
      liveD(2) [OF assms(1)] sock_read_fields [OF assms(2)] by (simp add: took_in_def live_def)
qed

lemma wrote_outI:
  assumes "live s" and "sock_wrote s req s'"
  shows "wrote_out s req s'"
proof -
  have "outgoing s' = outgoing s @ req" using assms(2) by (simp add: sock_wrote_def)
  then show ?thesis
    using live_writes_after [OF liveD(2) [OF assms(1)] assms(2)] live_reads_wrote [OF assms(2)]
      liveD(1) [OF assms(1)] sock_wrote_fields [OF assms(2)] by (simp add: wrote_out_def live_def)
qed

lemma emq_client_read_front:
  assumes "live s" and "incoming s = d @ rest" and "n = int (length d)"
  shows "\<exists>s'. emq_client_read (Some a) n (sess a c b s w) = Some (n, d, sess a c b s' w) \<and> took_in s d s'"
proof -
  obtain s' where "emq_client_read (Some a) n (sess a c b s w) = Some (n, d, sess a c b s' w)"
    "sock_read s d s'"
    using emq_client_read_sess [of a n c b s w] assms liveD(1) [OF assms(1)] by auto
  then show ?thesis using took_inI [OF assms(1)] by blast
qed

lemma emq_read_reply_front:
  assumes "c_error c = ''''" and "live s" and "incoming s = response_header_bytes h @ rest"
  shows "\<exists>s'. emq_read_reply (Some a) check (sess a c b s w)
      = Some (if reply_error check h = None then Some h else None,
          sess a (c\<lparr>c_error := err_text (reply_error check h)\<rparr>) b s' w) \<and>
    took_in s (response_header_bytes h) s'"
proof -
  have "take sizeof_header (incoming s) = response_header_bytes h" using assms(3) by simp
  moreover have "sizeof_header \<le> length (incoming s)" using assms(3) by simp
  moreover obtain e h' s' where run: "emq_read_reply (Some a) check (sess a c b s w)
      = Some (if e = None then Some h' else None, sess a (c\<lparr>c_error := err_text e\<rparr>) b s' w)"
    "live_reads s \<and> sizeof_header \<le> length (incoming s) \<longrightarrow>
       h' = response_header_of (take sizeof_header (incoming s)) \<and> e = reply_error check h' \<and>
       sock_read s (take sizeof_header (incoming s)) s'"
    using emq_read_reply_sess [OF assms(1), of a check b s w] by metis
  ultimately have "h' = h" "e = reply_error check h" "sock_read s (response_header_bytes h) s'"
    using response_header_roundtrip [of h "[]"] liveD(1) [OF assms(2)] by simp_all
  with run(1) show ?thesis using took_inI [OF assms(2)] by blast
qed

lemma emq_await_ack_front:
  assumes "c_error c = ''''" and "c_noack c = 0" and "live s"
    and "incoming s = response_header_bytes h @ rest"
  shows "\<exists>s'. emq_await_ack (Some a) check (sess a c b s w)
      = Some (reply_error check h = None,
          sess a (c\<lparr>c_error := err_text (reply_error check h)\<rparr>) b s' w) \<and>
    took_in s (response_header_bytes h) s'"
proof -
  obtain s' where "emq_read_reply (Some a) check (sess a c b s w)
      = Some (if reply_error check h = None then Some h else None,
          sess a (c\<lparr>c_error := err_text (reply_error check h)\<rparr>) b s' w)"
    "took_in s (response_header_bytes h) s'"
    using emq_read_reply_front [OF assms(1,3,4)] by blast
  with assms(2) show ?thesis by (intro exI [of _ s']) (simp add: emq_await_ack_def)
qed

context request_builder
begin

lemma request_write_live:
  assumes "sess_ok c b" and ok and "live s"
  shows "\<exists>n b' s'. emq_request_write (Some a) build (sess a c b s w)
      = Some (True, sess a (c\<lparr>c_error := '''', c_pos := n\<rparr>) b' s' w) \<and> sess_ok c b' \<and>
    wrote_out s (request_wire cmd (client_noack c) bodylen body) s'"
  using request_write_sess [OF assms(1), of a s w] assms(2) liveD(2) [OF assms(3)]
    wrote_outI [OF assms(3)] by fastforce

lemma handshake_live:
  assumes "sess_ok c b" and ok and "live s" and "c_noack c = 0"
    and "incoming s = response_header_bytes h @ rest"
  shows "\<exists>n b' s'. emq_handshake (Some a) build check (sess a c b s w)
      = Some (reply_error check h = None,
          sess a (c\<lparr>c_error := err_text (reply_error check h), c_pos := n\<rparr>) b' s' w) \<and>
    sess_ok c b' \<and> incoming s' = rest \<and> live s' \<and>
    outgoing s' = outgoing s @ request_wire cmd (client_noack c) bodylen body"
proof -
  let ?e = "reply_error check h"
  obtain n b' s1 where wr: "emq_request_write (Some a) build (sess a c b s w)
      = Some (True, sess a (c\<lparr>c_error := '''', c_pos := n\<rparr>) b' s1 w)" "sess_ok c b'"
    "wrote_out s (request_wire cmd (client_noack c) bodylen body) s1"
    using request_write_live [OF assms(1-3)] by blast
  let ?c = "c\<lparr>c_error := '''', c_pos := n\<rparr>"
  obtain s' where "emq_await_ack (Some a) check (sess a ?c b' s1 w)
      = Some (?e = None, sess a (?c\<lparr>c_error := err_text ?e\<rparr>) b' s' w)"
    "took_in s1 (response_header_bytes h) s'"
    using emq_await_ack_front [of ?c s1 h rest a check b' w] assms(4,5) wr(3) by (auto simp: wrote_out_def)
  then show ?thesis
    using wr assms(5) by (intro exI [of _ n] exI [of _ b'] exI [of _ s'])
      (simp add: emq_handshake_def wrote_out_def took_in_def)
qed

lemma handshake_noack:
  assumes "sess_ok c b" and ok and "live s" and "c_noack c \<noteq> 0"
  shows "\<exists>n b' s'. emq_handshake (Some a) build check (sess a c b s w)
      = Some (True, sess a (c\<lparr>c_error := '''', c_pos := n\<rparr>) b' s' w) \<and>
    sess_ok c b' \<and> incoming s' = incoming s \<and> live s' \<and>
    outgoing s' = outgoing s @ request_wire cmd (client_noack c) bodylen body"
proof -
  obtain n b' s' where "emq_request_write (Some a) build (sess a c b s w)
      = Some (True, sess a (c\<lparr>c_error := '''', c_pos := n\<rparr>) b' s' w)" "sess_ok c b'"
    "wrote_out s (request_wire cmd (client_noack c) bodylen body) s'"
    using request_write_live [OF assms(1-3)] by blast
  with assms(4) show ?thesis
    by (intro exI [of _ n] exI [of _ b'] exI [of _ s'])
      (simp add: emq_handshake_def emq_await_ack_def wrote_out_def)
qed

lemma command_live:
  assumes "sess_ok c b" and ok and "live s" and "c_noack c = 0"
    and "incoming s = response_header_bytes h @ rest"
  shows "\<exists>n b' s'. emq_command (Some a) build check (sess a c b s w)
      = Some (result_of (reply_error check h), sess a (settle (reply_error check h) (c\<lparr>c_pos := n\<rparr>)) b' s' w) \<and>
    sess_ok c b' \<and> incoming s' = rest \<and> live s' \<and>
    outgoing s' = outgoing s @ request_wire cmd (client_noack c) bodylen body"
proof -
  let ?e = "reply_error check h"
  obtain n b' s' where "emq_handshake (Some a) build check (sess a c b s w)
      = Some (?e = None, sess a (c\<lparr>c_error := err_text ?e, c_pos := n\<rparr>) b' s' w)"
    "sess_ok c b'" "incoming s' = rest" "live s'"
    "outgoing s' = outgoing s @ request_wire cmd (client_noack c) bodylen body"
    using handshake_live [OF assms] by blast
  then show ?thesis
    by (intro exI [of _ n] exI [of _ b'] exI [of _ s']) (cases ?e; simp add: emq_command_def)
qed

lemma command_noack:
  assumes "sess_ok c b" and ok and "live s" and "c_noack c \<noteq> 0"
  shows "\<exists>n b' s'. emq_command (Some a) build check (sess a c b s w)
      = Some (EMQ_STATUS_OK, sess a (settle None (c\<lparr>c_pos := n\<rparr>)) b' s' w) \<and>
    sess_ok c b' \<and> incoming s' = incoming s \<and> live s' \<and>
    outgoing s' = outgoing s @ request_wire cmd (client_noack c) bodylen body"
proof -
  obtain n b' s' where "emq_handshake (Some a) build check (sess a c b s w)
      = Some (True, sess a (c\<lparr>c_error := '''', c_pos := n\<rparr>) b' s' w)"
    "sess_ok c b'" "incoming s' = incoming s" "live s'"
    "outgoing s' = outgoing s @ request_wire cmd (client_noack c) bodylen body"
    using handshake_noack [OF assms] by blast
  then show ?thesis
    by (intro exI [of _ n] exI [of _ b'] exI [of _ s']) (simp add: emq_command_def)
qed

lemma request_write_rejected:
  assumes "sess_ok c b" and "\<not> ok"
  shows "emq_request_write (Some a) build (sess a c b s w)
      = Some (False, sess a (c\<lparr>c_error := error_text EMQ_ERROR_DATA\<rparr>) b s w)"
  using assms by (simp add: emq_request_write_def build_sess)

lemma command_rejected:
  assumes "sess_ok c b" and "\<not> ok"
  shows "emq_command (Some a) build check (sess a c b s w)
      = Some (EMQ_STATUS_ERR, sess a (settle (Some EMQ_ERROR_DATA) c) b s w)"
  using request_write_rejected [OF assms] by (simp add: emq_command_def emq_handshake_def)

end

section \<open>Queries for one number and the server status\<close>

context request_builder
begin

text \<open>A query in a live environment: the number, or the error of the reply with the body left unread.\<close>

lemma query_live:
  assumes ready: "sess_ok c b" and ok and "live s"
    and reply: "incoming s = response_header_bytes h @ le_bytes 4 (v :: u32) @ rest"
  shows "\<exists>e n b' s'. emq_u32_query (Some a) build qcmd failed (sess a c b s w)
      = Some (if e = None then sint v else failed, sess a (settle e (c\<lparr>c_pos := n\<rparr>)) b' s' w) \<and>
    e = reply_error (reply_check qcmd 4) h \<and> sess_ok c b' \<and> live s' \<and>
    incoming s' = (if e = None then rest else le_bytes 4 v @ rest) \<and>
    outgoing s' = outgoing s @ request_wire cmd (client_noack c) bodylen body"
proof -
  let ?e = "reply_error (reply_check qcmd 4) h"
  have four: "word_of_nat sizeof_u32_body = (4 :: u32)" by (simp add: sizeof_u32_body_def)
  obtain n b' s1 where wr: "emq_request_write (Some a) build (sess a c b s w)
      = Some (True, sess a (c\<lparr>c_error := '''', c_pos := n\<rparr>) b' s1 w)" "sess_ok c b'"
    "wrote_out s (request_wire cmd (client_noack c) bodylen body) s1"
    using request_write_live [OF assms(1-3)] by blast
  let ?c = "c\<lparr>c_error := '''', c_pos := n\<rparr>"
  obtain s2 where hd: "emq_read_reply (Some a) (reply_check qcmd 4) (sess a ?c b' s1 w)
      = Some (if ?e = None then Some h else None, sess a (?c\<lparr>c_error := err_text ?e\<rparr>) b' s2 w)"
    "took_in s1 (response_header_bytes h) s2"
    using emq_read_reply_front [of ?c s1 h "le_bytes 4 v @ rest" a "reply_check qcmd 4" b' w] wr(3) reply
    by (auto simp: wrote_out_def)
  have inc2: "live s2" "incoming s2 = le_bytes 4 v @ rest"
    using hd(2) wr(3) reply by (simp_all add: wrote_out_def took_in_def)
  show ?thesis
  proof (cases ?e)
    case (Some e')
    with wr hd inc2 show ?thesis
      by (intro exI [of _ ?e] exI [of _ n] exI [of _ b'] exI [of _ s2])
        (simp add: emq_u32_query_def four wrote_out_def took_in_def)
  next
    case None
    obtain s3 where rd: "emq_client_read (Some a) 4 (sess a ?c b' s2 w)
        = Some (4, le_bytes 4 v, sess a ?c b' s3 w)" "took_in s2 (le_bytes 4 v) s3"
      using emq_client_read_front [OF inc2, of 4 a ?c b' w] by auto
    with None wr hd inc2 show ?thesis
      by (intro exI [of _ ?e] exI [of _ n] exI [of _ b'] exI [of _ s3])
        (simp add: emq_u32_query_def four sizeof_u32_body_def wrote_out_def took_in_def)
  qed
qed

text \<open>In any environment a query returns, and a failure is told by the status as well.\<close>

lemma query_sess:
  assumes ready: "sess_ok c b"
  shows "\<exists>e v n b' s'. emq_u32_query (Some a) build qcmd failed (sess a c b s w)
      = Some (if e = None then v else failed, sess a (settle e (c\<lparr>c_pos := n\<rparr>)) b' s' w) \<and> sess_ok c b' \<and>
      shrinks s s'"
proof -
  let ?chk = "reply_check qcmd (word_of_nat sizeof_u32_body)"
  obtain e n b' s1 where wr: "emq_request_write (Some a) build (sess a c b s w)
      = Some (e = None, sess a (c\<lparr>c_error := err_text e, c_pos := n\<rparr>) b' s1 w)" "sess_ok c b'" "shrinks s s1"
    using request_write_sess [OF ready] request_sent_shrinks by blast
  let ?c = "c\<lparr>c_error := '''', c_pos := n\<rparr>"
  obtain e' h s2 where hd: "emq_read_reply (Some a) ?chk (sess a ?c b' s1 w)
      = Some (if e' = None then Some h else None, sess a (?c\<lparr>c_error := err_text e'\<rparr>) b' s2 w)" "shrinks s1 s2"
    using emq_read_reply_sess [of ?c a ?chk b' s1 w] reply_read_shrinks by fastforce
  obtain r bs s3 where rd: "emq_client_read (Some a) (int sizeof_u32_body) (sess a ?c b' s2 w)
      = Some (r, bs, sess a ?c b' s3 w)" "shrinks s2 s3"
    using emq_client_read_sess shrinks_read by blast
  note sh = wr(3) shrinks_trans [OF wr(3) hd(2)] shrinks_trans [OF shrinks_trans [OF wr(3) hd(2)] rd(2)]
  let ?run = "emq_u32_query (Some a) build qcmd failed (sess a c b s w)"
  consider (sent) e1 where "e = Some e1" | (reply) e1 where "e = None" "e' = Some e1"
    | (lost) "e = None" "e' = None" "r = -1" | (got) "e = None" "e' = None" "r \<noteq> -1"
    by (cases e; cases e') auto
  then have "\<exists>e v s'. ?run = Some (if e = None then v else failed, sess a (settle e (c\<lparr>c_pos := n\<rparr>)) b' s' w) \<and> shrinks s s'"
  proof cases
    case sent
    with wr(1) sh show ?thesis
      by (intro exI [of _ e] exI [of _ 0] exI [of _ s1]) (simp add: emq_u32_query_def)
  next
    case reply
    with wr(1) hd(1) sh show ?thesis
      by (intro exI [of _ e'] exI [of _ 0] exI [of _ s2]) (simp add: emq_u32_query_def)
  next
    case lost
    with wr(1) hd(1) rd(1) sh show ?thesis
      by (intro exI [of _ "Some EMQ_ERROR_READ"] exI [of _ 0] exI [of _ s3]) (simp add: emq_u32_query_def)
  next
    case got
    with wr(1) hd(1) rd(1) sh show ?thesis
      by (intro exI [of _ None] exI [of _ "sint (le_word bs :: u32)"] exI [of _ s3]) (simp add: emq_u32_query_def)
  qed
  with wr(2) show ?thesis by blast
qed

end

text \<open>
  \<open>emq_stat\<close> with a full reply, and with the bare eight byte header that an error reply is: then
  the call waits for the body that does not come.
\<close>

lemma emq_stat_live:
  assumes ready: "sess_ok c b" and "live s" and "length body = sizeof_stat_body"
    and reply: "incoming s = response_header_bytes h @ body @ rest"
  shows "\<exists>e n b' s'. emq_stat (Some a) (sess a c b s w)
      = Some ((result_of e, if e = None then Some (emq_status_of body) else None),
          sess a (settle e (c\<lparr>c_pos := n\<rparr>)) b' s' w) \<and>
    e = reply_error (reply_check EMQ_PROTOCOL_CMD_STAT 55) h \<and> sess_ok c b' \<and> live s' \<and> incoming s' = rest \<and>
    outgoing s' = outgoing s @ request_wire EMQ_PROTOCOL_CMD_STAT (client_noack c) 0 []"
proof -
  let ?chk = "reply_check EMQ_PROTOCOL_CMD_STAT 55"
  let ?e = "reply_error ?chk h"
  have len: "word_of_nat sizeof_stat_body = (55 :: u32)" by (simp add: sizeof_stat_body_def)
  obtain n b' s1 where wr: "emq_request_write (Some a) emq_stat_request (sess a c b s w)
      = Some (True, sess a (c\<lparr>c_error := '''', c_pos := n\<rparr>) b' s1 w)" "sess_ok c b'"
    "wrote_out s (request_wire EMQ_PROTOCOL_CMD_STAT (client_noack c) 0 []) s1"
    using stat_req.request_write_live [OF assms(1) TrueI assms(2)] by blast
  let ?c = "c\<lparr>c_error := '''', c_pos := n\<rparr>"
  have inc: "live s1" "incoming s1 = (response_header_bytes h @ body) @ rest"
    using wr(3) reply by (simp_all add: wrote_out_def)
  obtain s2 where rd: "emq_client_read (Some a) (int (sizeof_header + sizeof_stat_body)) (sess a ?c b' s1 w)
      = Some (int (sizeof_header + sizeof_stat_body), response_header_bytes h @ body, sess a ?c b' s2 w)"
    "took_in s1 (response_header_bytes h @ body) s2"
    using emq_client_read_front [OF inc, of "int (sizeof_header + sizeof_stat_body)" a ?c b' w] assms(3) by auto
  have "int (sizeof_header + sizeof_stat_body) \<noteq> -1" by linarith
  then have "emq_stat (Some a) (sess a c b s w)
      = Some ((result_of ?e, if ?e = None then Some (emq_status_of body) else None),
          sess a (settle ?e (c\<lparr>c_pos := n\<rparr>)) b' s2 w)"
    using wr(1) rd(1) clear_same [of ?c]
    by (simp add: emq_stat_def len Let_def response_header_roundtrip reply_error_def emq_check_status_def)
  then show ?thesis
    using wr rd(2) inc(2) by (intro exI [of _ ?e] exI [of _ n] exI [of _ b'] exI [of _ s2])
      (simp add: wrote_out_def took_in_def)
qed

lemma emq_stat_error_reply:
  assumes ready: "sess_ok c b" and "live s" and "length (incoming s) < sizeof_header + sizeof_stat_body"
  shows "\<exists>n b' s'. emq_stat (Some a) (sess a c b s w) = Some ((EMQ_STATUS_ERR, None),
    sess a (settle (Some EMQ_ERROR_READ) (c\<lparr>c_pos := n\<rparr>)) b' s' w) \<and> sess_ok c b'"
proof -
  obtain n b' s1 where wr: "emq_request_write (Some a) emq_stat_request (sess a c b s w)
      = Some (True, sess a (c\<lparr>c_error := '''', c_pos := n\<rparr>) b' s1 w)"
    "sess_ok c b'" "wrote_out s (request_wire EMQ_PROTOCOL_CMD_STAT (client_noack c) 0 []) s1"
    using stat_req.request_write_live [OF assms(1) TrueI assms(2)] by blast
  let ?c = "c\<lparr>c_error := '''', c_pos := n\<rparr>" and ?n = "int (sizeof_header + sizeof_stat_body)"
  obtain r bs s2 where rd: "emq_client_read (Some a) ?n (sess a ?c b' s1 w) = Some (r, bs, sess a ?c b' s2 w)"
    "sock_read s1 bs s2" "r = -1 \<or> r = ?n \<and> int (length bs) = ?n"
    using emq_client_read_sess by blast
  have "length bs \<le> length (incoming s1)" using rd(2) by (simp add: sock_read_def)
  with rd(3) wr(3) assms(3) have "r = -1" by (auto simp: wrote_out_def)
  with wr(1,2) rd(1) show ?thesis
    by (intro exI [of _ n] exI [of _ b'] exI [of _ s2]) (simp add: emq_stat_def)
qed

lemma emq_stat_sess:
  assumes ready: "sess_ok c b"
  shows "\<exists>e v n b' s'. emq_stat (Some a) (sess a c b s w)
      = Some ((result_of e, if e = None then Some v else None), sess a (settle e (c\<lparr>c_pos := n\<rparr>)) b' s' w) \<and>
    sess_ok c b' \<and> shrinks s s'"
proof -
  obtain e n b' s1 where wr: "emq_request_write (Some a) emq_stat_request (sess a c b s w)
      = Some (e = None, sess a (c\<lparr>c_error := err_text e, c_pos := n\<rparr>) b' s1 w)" "sess_ok c b'" "shrinks s s1"
    using stat_req.request_write_sess [OF ready] request_sent_shrinks by blast
  let ?c = "c\<lparr>c_error := '''', c_pos := n\<rparr>"
  obtain r bs s2 where rd: "emq_client_read (Some a) (int (sizeof_header + sizeof_stat_body)) (sess a ?c b' s1 w)
      = Some (r, bs, sess a ?c b' s2 w)" "shrinks s1 s2"
    using emq_client_read_sess shrinks_read by blast
  let ?e = "reply_error (reply_check EMQ_PROTOCOL_CMD_STAT (word_of_nat sizeof_stat_body)) (response_header_of bs)"
  note sh = wr(3) shrinks_trans [OF wr(3) rd(2)]
  consider (sent) e1 where "e = Some e1" | (lost) "e = None" "r = -1" | (got) "e = None" "r \<noteq> -1"
    by (cases e) auto
  then show ?thesis
  proof cases
    case sent
    with wr sh show ?thesis
      by (intro exI [of _ e] exI [of _ undefined] exI [of _ n] exI [of _ b'] exI [of _ s1]) (simp add: emq_stat_def)
  next
    case lost
    with wr rd(1) sh show ?thesis
      by (intro exI [of _ "Some EMQ_ERROR_READ"] exI [of _ undefined] exI [of _ n] exI [of _ b'] exI [of _ s2])
        (simp add: emq_stat_def)
  next
    case got
    with wr(1,2) rd(1) sh clear_same [of ?c] show ?thesis
      by (intro exI [of _ ?e] exI [of _ "emq_status_of (drop sizeof_header bs)"] exI [of _ n] exI [of _ b'] exI [of _ s2])
        (simp add: emq_stat_def Let_def reply_error_def emq_check_status_def)
  qed
qed

section \<open>Commands that send a message\<close>

locale message_builder =
  fixes build :: "u32 \<Rightarrow> ptr \<Rightarrow> world \<Rightarrow> (int \<times> world) option"
    and ok :: bool
    and cmd :: protocol_command
    and bodylen :: u32
    and body :: bytes
  assumes builder: "request_builder (build n) ok cmd (bodylen + n) body"

text \<open>The bytes of a message command, and the length its header announces for what follows.\<close>

definition message_length :: "bool \<Rightarrow> emq_msg \<Rightarrow> u32" where
  "message_length with_expire m = ucast (if with_expire then 4 + m_size m else m_size m)"

definition message_payload :: "bool \<Rightarrow> emq_msg \<Rightarrow> bytes \<Rightarrow> bytes" where
  "message_payload with_expire m d = (if with_expire then le_bytes 4 (m_expire m) else []) @ d"

lemma emq_client_writev_sess:
  assumes "\<forall>i < k. wr_script s (wr_pos s + i) = Io_error EINTR"
    and "wr_script s (wr_pos s + k) \<noteq> Io_error EINTR"
  shows "emq_client_writev (Some a) iov (sess a c b s w) = Some (case wr_script s (wr_pos s + k) of
      Io_error e \<Rightarrow> (-1, sess a c b (s\<lparr>wr_pos := Suc (wr_pos s + k)\<rparr>) w)
    | Io n \<Rightarrow> (int (min n (length (concat iov))), sess a c b (s\<lparr>wr_pos := Suc (wr_pos s + k),
        outgoing := outgoing s @ take n (concat iov)\<rparr>) w))"
proof -
  have "writev_loop (c_fd c) (concat iov) (sess a c b s w)
      = Some (writev_done (c_fd c) (concat iov) (s\<lparr>wr_pos := wr_pos s + k\<rparr>) (sess a c b s w))"
    using assms by (intro writev_loop_returns) simp_all
  then show ?thesis
    by (auto simp: emq_client_writev_def writev_done_def Let_def min_def split: io_event.splits)
qed

lemma emq_client_writev_stuck:
  assumes "\<forall>i \<ge> wr_pos s. wr_script s i = Io_error EINTR"
  shows "emq_client_writev (Some a) iov (sess a c b s w) = None"
  using assms by (simp add: emq_client_writev_def writev_loop_None_iff)

context message_builder
begin

lemmas build_sess = request_builder.build_sess [OF builder]

lemma send_empty:
  assumes "msgs w q = Some m" and "m_size m = 0"
  shows "emq_send_message (Some a) (Some q) we build check (sess a c b s w)
    = Some (EMQ_STATUS_ERR, sess a (settle (Some EMQ_ERROR_DATA) c) b s w)"
  using assms by (simp add: emq_send_message_def)

lemma send_rejected:
  assumes "sess_ok c b" and "msgs w q = Some m" and "m_size m \<noteq> 0" and "\<not> ok"
  shows "emq_send_message (Some a) (Some q) we build check (sess a c b s w)
    = Some (EMQ_STATUS_ERR, sess a (settle (Some EMQ_ERROR_DATA) c) b s w)"
  using assms build_sess [of "c\<lparr>c_error := ''''\<rparr>" b]
  by (simp add: emq_send_message_def)

text \<open>
  The one \<open>writev\<close> that is not interrupted decides: an error is reported; otherwise whatever part
  of the bytes the kernel took, the command goes on to the acknowledgement.
\<close>

lemma send_sess:
  assumes ready: "sess_ok c b" and ok and msg: "msg_rep w q m d" "m_data m \<noteq> c_request c" "d \<noteq> []"
    and intr: "\<forall>i < k. wr_script s (wr_pos s + i) = Io_error EINTR"
      "wr_script s (wr_pos s + k) \<noteq> Io_error EINTR"
  shows "\<exists>n b'. sess_ok c b' \<and> (case wr_script s (wr_pos s + k) of
      Io_error e \<Rightarrow> emq_send_message (Some a) (Some q) we build check (sess a c b s w)
        = Some (EMQ_STATUS_ERR, sess a (settle (Some EMQ_ERROR_WRITE) (c\<lparr>c_pos := n\<rparr>)) b'
            (s\<lparr>wr_pos := Suc (wr_pos s + k)\<rparr>) w)
    | Io j \<Rightarrow> \<exists>e s'. emq_send_message (Some a) (Some q) we build check (sess a c b s w)
        = Some (result_of e, sess a (settle e (c\<lparr>c_pos := n\<rparr>)) b' s' w) \<and>
        ack_phase (c_noack c) check (s\<lparr>wr_pos := Suc (wr_pos s + k), outgoing := outgoing s @
          take j (request_wire cmd (client_noack c) (bodylen + message_length we m) body @
            message_payload we m d)\<rparr>) e s')"
proof -
  let ?req = "request_wire cmd (client_noack c) (bodylen + message_length we m) body"
  let ?b = "map Some ?req @ drop (length ?req) b"
  let ?c = "c\<lparr>c_error := '''', c_pos := length ?req\<rparr>"
  let ?iov = "if we then [?req, le_bytes 4 (m_expire m), d] else [?req, d]"
  from msg obtain r rest where m: "msgs w q = Some m" "unat (m_size m) = length d" "m_data m = Some r"
    "bufs w r = Some (map Some d @ rest)" by (auto simp: msg_rep_def)
  have cat: "concat ?iov = ?req @ message_payload we m d" by (simp add: message_payload_def)
  have fits: "length ?req \<le> 168"
    using request_builder.body_fits [OF builder assms(2)] by (simp add: sizeof_header_def)
  have ok': "sess_ok c ?b" using sess_ok_request [OF ready fits] .
  have nonempty: "\<not> m_size m < 1" using m(2) msg(3) by (auto simp:)
  have bld: "build (message_length we m) (Some a) (sess a (c\<lparr>c_error := ''''\<rparr>) b s w)
      = Some (EMQ_STATUS_OK, sess a ?c ?b s w)"
    using build_sess [of "c\<lparr>c_error := ''''\<rparr>" b "message_length we m" a s w] ready assms(2)
    by (simp add: client_noack_def)
  have load: "buf_load (c_request c) 0 (length ?req) (sess a ?c ?b s w) = Some ?req"
    using buf_load_sess [of ?c ?b ?req a "drop (length ?req) b" s w] ok' by simp
  have other: "r \<noteq> the (c_request ?c)" using ready msg(2) m(3) by (auto simp: sess_ok_def)
  have block: "buf_load (m_data m) 0 (unat (m_size m)) (sess a ?c ?b s w) = Some d"
    using buf_load_other_sess [OF other] m by (simp add: buf_load_prefix)
  have run: "emq_send_message (Some a) (Some q) we build check (sess a c b s w) =
      Option.bind (emq_client_writev (Some a) ?iov (sess a ?c ?b s w)) (\<lambda>(n, w).
        if n = -1 then do {
          w \<leftarrow> emq_client_set_error (Some a) EMQ_ERROR_WRITE w;
          emq_exit (Some a) False EMQ_STATUS_ERR w }
        else do {
          (ok, w) \<leftarrow> emq_await_ack (Some a) check w;
          emq_exit (Some a) ok (if ok then EMQ_STATUS_OK else EMQ_STATUS_ERR) w })"
    using m(1) nonempty bld load block by (simp add: emq_send_message_def message_length_def)
  note wrv = emq_client_writev_sess [OF intr, of a ?iov ?c ?b w, unfolded cat]
  show ?thesis
  proof (cases "wr_script s (wr_pos s + k)")
    case (Io_error e)
    with run wrv ok' show ?thesis
      by (intro exI [of _ "length ?req"] exI [of _ ?b]) simp
  next
    case (Io j)
    let ?s1 = "s\<lparr>wr_pos := Suc (wr_pos s + k), outgoing := outgoing s @ take j (?req @ message_payload we m d)\<rparr>"
    obtain e s' where ack: "emq_await_ack (Some a) check (sess a ?c ?b ?s1 w)
        = Some (e = None, sess a (?c\<lparr>c_error := err_text e\<rparr>) ?b s' w)"
      "ack_phase (c_noack c) check ?s1 e s'"
      using emq_await_ack_sess [of ?c a check ?b ?s1 w] by auto
    have "emq_send_message (Some a) (Some q) we build check (sess a c b s w)
        = Some (result_of e, sess a (settle e (c\<lparr>c_pos := length ?req\<rparr>)) ?b s' w)"
      unfolding run wrv using Io ack(1) by (cases e) simp_all
    with Io ok' ack(2) show ?thesis
      by (intro exI [of _ "length ?req"] exI [of _ ?b]) auto
  qed
qed

end

interpretation queue_push_msg: message_builder
  "\<lambda>n client. emq_queue_push_request client name n" "strlenz name \<le> 64"
  EMQ_PROTOCOL_CMD_QUEUE_PUSH "64" "zfield 64 name"
  for name
  by unfold_locales

interpretation route_push_msg: message_builder
  "\<lambda>n client. emq_route_push_request client name key n" "strlenz name \<le> 64 \<and> strlenz key \<le> 32"
  EMQ_PROTOCOL_CMD_ROUTE_PUSH "96" "zfield 64 name @ zfield 32 key"
  for name key
  by unfold_locales

interpretation channel_publish_msg: message_builder
  "\<lambda>n client. emq_channel_publish_request client name topic n" "strlenz name \<le> 64 \<and> strlenz topic \<le> 32"
  EMQ_PROTOCOL_CMD_CHANNEL_PUBLISH "96" "zfield 64 name @ zfield 32 topic"
  for name topic
  by unfold_locales

section \<open>Commands that fetch a message\<close>

text \<open>A message as \<open>emq_read_message_tag\<close> makes it from the tag bytes and the data.\<close>

definition fetched_msg :: "addr \<Rightarrow> bytes \<Rightarrow> bytes \<Rightarrow> emq_msg" where
  "fetched_msg q tag d = \<lparr>m_data = Some q, m_size = word_of_nat (length d), m_tag = le_word tag,
     m_expire = 0, m_zero_copy = Some EMQ_ZEROCOPY_OFF\<rparr>"

lemma tagged_msg_fetched:
  assumes "8 \<le> unat sz" and "length d = unat sz - 8"
  shows "tagged_msg sz q tag = fetched_msg q tag d"
proof -
  have "length d = unat (sz - 8)"
    using unat_minus_8(1) [OF assms(1)] assms(2) by simp
  then show ?thesis by (simp add: tagged_msg_def read_msg_def fetched_msg_def)
qed

text \<open>
  \<open>fetch_call req check s r s'\<close>: the outcome \<open>r\<close> is undefined behaviour, an error (with
  \<^const>\<open>EMQ_ERROR_NONE\<close> for the failure that sets no text) or the tag and the data.
\<close>

inductive fetch_call :: "bytes option \<Rightarrow> (protocol_response_header \<Rightarrow> int) \<Rightarrow>
    socket \<Rightarrow> (emq_error + bytes \<times> bytes) option \<Rightarrow> socket \<Rightarrow> bool" for req check where
  fetch_not_sent: "request_sent req s (Some e) s' \<Longrightarrow> fetch_call req check s (Some (Inl e)) s'"
| fetch_no_reply: "request_sent req s None s1 \<Longrightarrow> reply_read check s1 (Some e) s' \<Longrightarrow>
    fetch_call req check s (Some (Inl e)) s'"
| fetch_body: "request_sent req s None s1 \<Longrightarrow> sock_read s1 (response_header_bytes h) s2 \<Longrightarrow>
    reply_error check h = None \<Longrightarrow> tagged_read (unat (res_bodylen h)) s2 r s' \<Longrightarrow>
    fetch_call req check s (case r of None \<Rightarrow> None | Some None \<Rightarrow> Some (Inl EMQ_ERROR_NONE)
      | Some (Some td) \<Rightarrow> Some (Inr td)) s'"

inductive_cases fetch_callE: "fetch_call req check s r s'"

lemma world_wf_sess_cong:
  "world_wf (sess a c b s w) \<Longrightarrow> c_request c' = c_request c \<Longrightarrow> world_wf (sess a c' b' s' w)"
  by (simp add: world_wf_sess_iff)

lemma tagged_readD: "tagged_read n s (Some (Some (tag, d))) s' \<Longrightarrow> 8 \<le> n \<and> length d = n - 8"
  by (auto elim!: tagged_readE message_readE)

lemma fetch_call_length: "fetch_call req check s (Some (Inr (tag, d))) s' \<Longrightarrow> length d < 2 ^ 64"
  by (auto elim!: fetch_callE tagged_readE message_readE split: option.splits)

context request_builder
begin

lemma fetch_sess:
  assumes ready: "sess_ok c b" and wf: "world_wf (sess a c b s w)"
  shows "\<exists>r n b' s'. fetch_call (wire_request ok cmd (client_noack c) bodylen body) check s r s' \<and>
    sess_ok c b' \<and> emq_fetch_message (Some a) build check (sess a c b s w) = (case r of
        None \<Rightarrow> None
      | Some (Inl e) \<Rightarrow> Some (None, sess a (settle (Some e) (c\<lparr>c_pos := n\<rparr>)) b' s' w)
      | Some (Inr (tag, d)) \<Rightarrow> Some (Some (brk w), sess a (settle None (c\<lparr>c_pos := n\<rparr>)) b' s'
          (add_msg (fetched_msg (Suc (brk w)) tag d) d w)))"
proof -
  let ?req = "wire_request ok cmd (client_noack c) bodylen body"
  obtain e n b' s1 where wr: "emq_request_write (Some a) build (sess a c b s w)
      = Some (e = None, sess a (c\<lparr>c_error := err_text e, c_pos := n\<rparr>) b' s1 w)" "sess_ok c b'"
    "request_sent ?req s e s1"
    using request_write_sess [OF ready] by blast
  let ?c = "c\<lparr>c_error := '''', c_pos := n\<rparr>"
  obtain e' h s2 where hd: "emq_read_reply (Some a) check (sess a ?c b' s1 w)
      = Some (if e' = None then Some h else None, sess a (?c\<lparr>c_error := err_text e'\<rparr>) b' s2 w)"
    "reply_read check s1 e' s2"
    "e' = None \<longrightarrow> sock_read s1 (response_header_bytes h) s2 \<and> check h \<noteq> EMQ_STATUS_ERR \<and>
       res_status h = EMQ_PROTOCOL_STATUS_SUCCESS"
    using emq_read_reply_sess [of ?c a check b' s1 w] by auto
  have wf2: "world_wf (sess a ?c b' s2 w)" using world_wf_sess_cong [OF wf, of ?c] by simp
  obtain t s3 where tg: "tagged_read (unat (res_bodylen h)) s2 t s3"
    "emq_read_message_tag (Some a) (ucast (res_bodylen h)) (sess a ?c b' s2 w) = (case t of
        None \<Rightarrow> None
      | Some None \<Rightarrow> Some (None, sess a ?c b' s3 w)
      | Some (Some (tag, d)) \<Rightarrow> Some (Some (brk w),
          sess a ?c b' s3 (add_msg (tagged_msg (ucast (res_bodylen h)) (Suc (brk w)) tag) d w)))"
    using emq_read_message_tag_sess [OF wf2, of "ucast (res_bodylen h)"] unat_u32_lt by auto
  have ok: "reply_error check h = None" if "e' = None" using hd(3) that by (simp add: reply_error_def)
  consider (sent) e1 where "e = Some e1" | (reply) e1 where "e = None" "e' = Some e1"
    | (ub) "e = None" "e' = None" "t = None" | (null) "e = None" "e' = None" "t = Some None"
    | (got) tag d where "e = None" "e' = None" "t = Some (Some (tag, d))"
    by (cases e; cases e'; cases t) (auto, metis option.exhaust prod.exhaust)
  then show ?thesis
  proof cases
    case sent
    with wr show ?thesis
      by (intro exI [of _ "Some (Inl e1)"] exI [of _ n] exI [of _ b'] exI [of _ s1])
        (simp add: emq_fetch_message_def fetch_not_sent)
  next
    case reply
    with wr hd show ?thesis
      by (intro exI [of _ "Some (Inl e1)"] exI [of _ n] exI [of _ b'] exI [of _ s2])
        (auto simp: emq_fetch_message_def intro: fetch_no_reply)
  next
    case ub
    then have "fetch_call ?req check s None s3"
      using fetch_body [of ?req s s1 h s2 check t s3] wr(3) hd(3) tg(1) ok by simp
    with ub wr hd(1) tg(2) show ?thesis
      by (intro exI [of _ None] exI [of _ n] exI [of _ b'] exI [of _ s3])
        (simp add: emq_fetch_message_def)
  next
    case null
    then have "fetch_call ?req check s (Some (Inl EMQ_ERROR_NONE)) s3"
      using fetch_body [of ?req s s1 h s2 check t s3] wr(3) hd(3) tg(1) ok by simp
    with null wr hd(1) tg(2) show ?thesis
      by (intro exI [of _ "Some (Inl EMQ_ERROR_NONE)"] exI [of _ n] exI [of _ b'] exI [of _ s3])
        (simp add: emq_fetch_message_def)
  next
    case got
    then have "fetch_call ?req check s (Some (Inr (tag, d))) s3"
      using fetch_body [of ?req s s1 h s2 check t s3] wr(3) hd(3) tg(1) ok by simp
    moreover have "tagged_msg (ucast (res_bodylen h)) (Suc (brk w)) tag = fetched_msg (Suc (brk w)) tag d"
      using tagged_readD [of "unat (res_bodylen h)" s2 tag d s3] tg(1) got by (intro tagged_msg_fetched) simp_all
    ultimately show ?thesis using got wr hd(1) tg(2)
      by (intro exI [of _ "Some (Inr (tag, d))"] exI [of _ n] exI [of _ b'] exI [of _ s3])
        (simp add: emq_fetch_message_def)
  qed
qed

end

end
