(* ===== verification/Emq_Memory.thy ===== *)
theory Emq_Memory
  imports Emq_Msg
begin

text \<open>
  How an operation may change the memory it does not return: \<open>grows\<close> for operations that only
  allocate, \<open>edits\<close> for operations that only change and free parts of one list. Both are
  transitive, keep \<open>world_wf\<close> and say which addresses are untouched; the adding and the
  deleting of a list node are shown to be of these kinds.
\<close>

section \<open>Memory that only grows\<close>

text \<open>
  \<open>grows m w w'\<close>: new objects, nodes and list headers may have appeared, objects in use kept
  their value, and below \<open>m\<close> nothing changed at all.
\<close>

definition grows :: "addr \<Rightarrow> world \<Rightarrow> world \<Rightarrow> bool" where
  "grows m w w' \<longleftrightarrow> (\<exists>n os ns ls. w' = w\<lparr>brk := n, objs := os, nodes := ns, list_hdrs := ls\<rparr> \<and> brk w \<le> n \<and>
     (\<forall>a < brk w. os a = objs w a) \<and> (\<forall>a < m. ns a = nodes w a \<and> ls a = list_hdrs w a))"

lemma growsI:
  "w' = w\<lparr>brk := n, objs := os, nodes := ns, list_hdrs := ls\<rparr> \<Longrightarrow> brk w \<le> n \<Longrightarrow>
   (\<And>a. a < brk w \<Longrightarrow> os a = objs w a) \<Longrightarrow> (\<And>a. a < m \<Longrightarrow> ns a = nodes w a) \<Longrightarrow>
   (\<And>a. a < m \<Longrightarrow> ls a = list_hdrs w a) \<Longrightarrow> grows m w w'"
  unfolding grows_def by blast

lemma grows_refl: "grows m w w"
  by (rule growsI [where n = "brk w" and os = "objs w" and ns = "nodes w" and ls = "list_hdrs w"]) simp_all

lemma grows_fields:
  assumes "grows m w w'"
  shows "clients w' = clients w" "bufs w' = bufs w" "msgs w' = msgs w" "socks w' = socks w"
    "alloc_ok w' = alloc_ok w" "brk w \<le> brk w'" "a < brk w \<Longrightarrow> objs w' a = objs w a"
    "a < m \<Longrightarrow> nodes w' a = nodes w a" "a < m \<Longrightarrow> list_hdrs w' a = list_hdrs w a"
proof -
  from assms obtain n os ns ls where "w' = w\<lparr>brk := n, objs := os, nodes := ns, list_hdrs := ls\<rparr>"
    "brk w \<le> n" "\<forall>a < brk w. os a = objs w a" "\<forall>a < m. ns a = nodes w a \<and> ls a = list_hdrs w a"
    unfolding grows_def by blast
  then show "clients w' = clients w" "bufs w' = bufs w" "msgs w' = msgs w" "socks w' = socks w"
    "alloc_ok w' = alloc_ok w" "brk w \<le> brk w'" "a < brk w \<Longrightarrow> objs w' a = objs w a"
    "a < m \<Longrightarrow> nodes w' a = nodes w a" "a < m \<Longrightarrow> list_hdrs w' a = list_hdrs w a"
    by simp_all
qed

lemma grows_trans:
  assumes "grows m w w'" and "grows m w' w''"
  shows "grows m w w''"
proof -
  from assms(1) obtain n os ns ls where 1: "w' = w\<lparr>brk := n, objs := os, nodes := ns, list_hdrs := ls\<rparr>"
    "brk w \<le> n" "\<And>a. a < brk w \<Longrightarrow> os a = objs w a" "\<And>a. a < m \<Longrightarrow> ns a = nodes w a"
    "\<And>a. a < m \<Longrightarrow> ls a = list_hdrs w a" unfolding grows_def by blast
  from assms(2) obtain n' os' ns' ls' where 2: "w'' = w'\<lparr>brk := n', objs := os', nodes := ns', list_hdrs := ls'\<rparr>"
    "brk w' \<le> n'" "\<And>a. a < brk w' \<Longrightarrow> os' a = objs w' a" "\<And>a. a < m \<Longrightarrow> ns' a = nodes w' a"
    "\<And>a. a < m \<Longrightarrow> ls' a = list_hdrs w' a" unfolding grows_def by blast
  show ?thesis
    using 1 2 by (intro growsI [where n = "n'" and os = "os'" and ns = "ns'" and ls = "ls'"]) simp_all
qed

lemma grows_list_frame:
  assumes "list_frame lp A (w\<lparr>brk := n\<rparr>) w'" and "brk w \<le> n" and "m \<le> lp" and "\<And>a. a \<in> A \<Longrightarrow> m \<le> a"
  shows "grows m w w'"
proof -
  from assms(1) obtain ls nd where "w' = w\<lparr>brk := n, list_hdrs := ls, nodes := nd\<rparr>"
    "\<And>q. q \<noteq> lp \<Longrightarrow> ls q = list_hdrs w q" "\<And>a. a \<notin> A \<Longrightarrow> nd a = nodes w a"
    unfolding list_frame_def by auto
  moreover have "a \<notin> A" "a \<noteq> lp" if "a < m" for a using that assms(3,4) by force+
  ultimately show ?thesis
    using assms(2) by (intro growsI [where n = "n" and os = "objs w" and ns = "nd" and ls = "ls"]) simp_all
qed

lemma list_rep_below:
  assumes "list_rep w lp fr ns" and "world_wf w"
  shows "lp < brk w" "a \<in> fst ` set ns \<Longrightarrow> a < brk w"
proof -
  show "lp < brk w"
    using assms by (metis list_rep_def option.distinct(1) wf_fresh(2) not_le)
  show "a < brk w" if "a \<in> fst ` set ns"
    using assms that seg_in_dom [of "nodes w" None ns None a]
    by (metis list_rep_def wf_fresh(3) not_le)
qed

text \<open>One more object at the front of a list, when the node can be allocated and when not.\<close>

lemma add_object:
  assumes wf: "world_wf w" and rep: "list_rep w lp fr ns" and m: "m \<le> lp" "m \<le> brk w"
    "\<And>a. a \<in> fst ` set ns \<Longrightarrow> m \<le> a"
    and w1_def: "w1 = w\<lparr>brk := Suc (brk w), objs := (objs w)(brk w \<mapsto> x)\<rparr>"
  shows "\<exists>r w'. emq_list_add_value (Some lp) (brk w) w1 = Some (r, w') \<and> grows m w w' \<and> world_wf w' \<and>
    objs w' = (objs w)(brk w \<mapsto> x) \<and> brk w' = Suc (Suc (brk w)) \<and>
    (\<forall>q. q \<noteq> lp \<longrightarrow> list_hdrs w' q = list_hdrs w q) \<and>
    (\<forall>a. a \<notin> insert (Suc (brk w)) (fst ` set ns) \<longrightarrow> nodes w' a = nodes w a) \<and>
    list_rep w' lp fr (if alloc_ok w (Suc (brk w)) then (Suc (brk w), brk w) # ns else ns) \<and>
    (\<not> alloc_ok w (Suc (brk w)) \<longrightarrow> nodes w' = nodes w)"
proof -
  have rep1: "list_rep w1 lp fr ns" using rep by (rule list_rep_cong) (simp_all add: w1_def)
  have wf1: "world_wf w1" using wf by (simp add: world_wf_def w1_def)
  have g1: "grows m w w1"
    unfolding w1_def by (rule growsI [where n = "Suc (brk w)" and os = "(objs w)(brk w \<mapsto> x)" and ns = "nodes w" and ls = "list_hdrs w"]) simp_all
  show ?thesis
  proof (cases "alloc_ok w (Suc (brk w))")
    case False
    then have "emq_list_add_value (Some lp) (brk w) w1 = Some (EMQ_STATUS_ERR, w1\<lparr>brk := Suc (brk w1)\<rparr>)"
      by (intro emq_list_add_value_fails) (simp add: w1_def)
    moreover have "grows m w1 (w1\<lparr>brk := Suc (brk w1)\<rparr>)"
      by (rule growsI [where n = "Suc (brk w1)" and os = "objs w1" and ns = "nodes w1" and ls = "list_hdrs w1"]) simp_all
    moreover have "world_wf (w1\<lparr>brk := Suc (brk w1)\<rparr>)" using wf1 by (simp add: world_wf_def)
    moreover have "list_rep (w1\<lparr>brk := Suc (brk w1)\<rparr>) lp fr ns"
      using rep1 by (rule list_rep_cong) simp_all
    ultimately show ?thesis
      using False grows_trans [OF g1]
      by (intro exI [of _ EMQ_STATUS_ERR] exI [of _ "w1\<lparr>brk := Suc (brk w1)\<rparr>"]) (simp add: w1_def)
  next
    case True
    have fresh: "brk w1 \<notin> fst ` set ns" using list_rep_below(2) [OF rep1 wf1] by blast
    from True have ok: "alloc_ok w1 (brk w1)" by (simp add: w1_def)
    from emq_list_add_value_rep [OF rep1 fresh ok, of "brk w"] obtain w' where w':
      "emq_list_add_value (Some lp) (brk w) w1 = Some (EMQ_STATUS_OK, w')"
      "list_rep w' lp fr ((brk w1, brk w) # ns)"
      "list_frame lp (insert (brk w1) (fst ` set ns)) (w1\<lparr>brk := Suc (brk w1)\<rparr>) w'" by blast
    have g2: "grows m w1 w'"
      using w'(3) m by (intro grows_list_frame) (auto simp: w1_def)
    have brk': "brk w' = Suc (Suc (brk w))" "objs w' = (objs w)(brk w \<mapsto> x)"
      using list_frame_fields [OF w'(3)] by (simp_all add: w1_def)
    have "world_wf w'"
    proof (unfold world_wf_def, intro allI impI)
      fix a assume a: "brk w' \<le> a"
      have "brk w1 < a" using a brk' by (simp add: w1_def)
      then have "a \<noteq> lp" "a \<notin> insert (brk w1) (fst ` set ns)"
        using list_rep_below(1) [OF rep1 wf1] list_rep_below(2) [OF rep1 wf1, of a]
        by (linarith, metis insert_iff less_asym less_irrefl)
      then have "nodes w' a = nodes w1 a" "list_hdrs w' a = list_hdrs w1 a"
        using w'(3) unfolding list_frame_def by auto
      then show "clients w' a = None \<and> list_hdrs w' a = None \<and> nodes w' a = None \<and>
          objs w' a = None \<and> msgs w' a = None \<and> bufs w' a = None"
        using wf a brk' grows_fields [OF grows_trans [OF g1 g2]] by (simp add: world_wf_def w1_def)
    qed
    moreover have "\<forall>q. q \<noteq> lp \<longrightarrow> list_hdrs w' q = list_hdrs w q"
      "\<forall>a. a \<notin> insert (Suc (brk w)) (fst ` set ns) \<longrightarrow> nodes w' a = nodes w a"
      using w'(3) unfolding list_frame_def by (auto simp: w1_def)
    ultimately show ?thesis
      using True w' brk' grows_trans [OF g1 g2]
      by (intro exI [of _ EMQ_STATUS_OK] exI [of _ w']) (simp add: w1_def)
  qed
qed

lemma list_rep_sess [simp]: "list_rep (sess a c b s w) lp fr ns = list_rep w lp fr ns"
  by (simp add: list_rep_def)

lemma grows_sess:
  assumes "grows m (sess a c b s w) w'"
  shows "\<exists>w1. w' = sess a c b s w1 \<and> grows m w w1"
proof -
  from assms obtain n os ns ls where w': "w' = (sess a c b s w)\<lparr>brk := n, objs := os, nodes := ns, list_hdrs := ls\<rparr>"
    "brk w \<le> n" "\<forall>a < brk w. os a = objs w a" "\<forall>a < m. ns a = nodes w a \<and> ls a = list_hdrs w a"
    unfolding grows_def by auto
  let ?w1 = "w\<lparr>brk := n, objs := os, nodes := ns, list_hdrs := ls\<rparr>"
  have "w' = sess a c b s ?w1" using w'(1) by simp
  moreover have "grows m w ?w1"
    using w'(2-4) by (intro growsI [where n = n and os = os and ns = ns and ls = ls]) simp_all
  ultimately show ?thesis by blast
qed

lemma grows_temp_buffer:
  assumes "grows k (w\<lparr>brk := n, bufs := bs\<rparr>) w'" and "brk w \<le> n" and "m \<le> k"
  shows "grows m w (w'\<lparr>bufs := bufs w\<rparr>)"
proof -
  from assms(1) obtain n' os ns ls where
    "w' = w\<lparr>brk := n, bufs := bs\<rparr>\<lparr>brk := n', objs := os, nodes := ns, list_hdrs := ls\<rparr>" "n \<le> n'"
    "\<forall>a < n. os a = objs w a" "\<forall>a < k. ns a = nodes w a \<and> ls a = list_hdrs w a"
    unfolding grows_def by auto
  then show ?thesis
    using assms(2,3) by (intro growsI [where n = n' and os = os and ns = ns and ls = ls]) (cases w, simp_all)
qed

text \<open>
  \<open>only_list m lp ns w\<close>: of what a list is made of, nothing is at \<open>m\<close> or above but the list at
  \<open>lp\<close> with \<open>ns\<close>; an object whose node could not be allocated is exempt.
\<close>

definition only_list :: "addr \<Rightarrow> addr \<Rightarrow> (addr \<times> addr) list \<Rightarrow> world \<Rightarrow> bool" where
  "only_list m lp ns w \<longleftrightarrow> (\<forall>x \<ge> m. (nodes w x \<noteq> None \<longrightarrow> x \<in> fst ` set ns) \<and> (list_hdrs w x \<noteq> None \<longrightarrow> x = lp) \<and>
     ((\<forall>k. alloc_ok w k) \<and> objs w x \<noteq> None \<longrightarrow> x \<in> snd ` set ns))"

lemma only_list_sess [simp]: "only_list m lp ns (sess a c b s w) = only_list m lp ns w"
  by (simp add: only_list_def)

lemma only_list_add:
  assumes "only_list m lp ns w" and "alloc_ok w' = alloc_ok w" and "objs w' = (objs w)(v \<mapsto> x)"
    and "\<forall>q. q \<noteq> lp \<longrightarrow> list_hdrs w' q = list_hdrs w q"
    and "\<forall>q. q \<notin> insert n (fst ` set ns) \<longrightarrow> nodes w' q = nodes w q"
    and "\<not> alloc_ok w n \<longrightarrow> nodes w' = nodes w"
  shows "only_list m lp ((if alloc_ok w n then [(n, v)] else []) @ ns) w'"
  unfolding only_list_def
proof (intro allI impI conjI)
  fix y assume y: "m \<le> y"
  have old: "(nodes w y \<noteq> None \<longrightarrow> y \<in> fst ` set ns) \<and> (list_hdrs w y \<noteq> None \<longrightarrow> y = lp) \<and>
      ((\<forall>k. alloc_ok w k) \<and> objs w y \<noteq> None \<longrightarrow> y \<in> snd ` set ns)"
    using assms(1) y unfolding only_list_def by blast
  show "y \<in> fst ` set ((if alloc_ok w n then [(n, v)] else []) @ ns)" if "nodes w' y \<noteq> None"
    using that old assms(5,6) by (cases "y \<in> insert n (fst ` set ns)"; cases "alloc_ok w n") auto
  show "y = lp" if "list_hdrs w' y \<noteq> None" using that old assms(4) by metis
  show "y \<in> snd ` set ((if alloc_ok w n then [(n, v)] else []) @ ns)" if "(\<forall>k. alloc_ok w' k) \<and> objs w' y \<noteq> None"
    using that old assms(2,3) by (cases "y = v") auto
qed

text \<open>A new empty list with its free method set.\<close>

lemma new_list:
  assumes wf: "world_wf w" and mem: "alloc_ok w (brk w)"
  shows "\<exists>w1 w'. emq_list_init w = (Some (brk w), w1) \<and>
    EMQ_LIST_SET_FREE_METHOD (Some (brk w)) handler w1 = Some w' \<and>
    list_rep w' (brk w) (Some handler) [] \<and> grows (brk w) w w' \<and> world_wf w' \<and> brk w' = Suc (brk w) \<and>
    only_list (brk w) (brk w) [] w'"
proof -
  let ?l = "\<lparr>list_head = None, list_tail = None, list_length = 0, list_free = None\<rparr>"
  let ?w1 = "w\<lparr>brk := Suc (brk w), list_hdrs := (list_hdrs w)(brk w \<mapsto> ?l)\<rparr>"
  let ?ls = "(list_hdrs w)(brk w \<mapsto> ?l\<lparr>list_free := Some handler\<rparr>)"
  let ?w = "w\<lparr>brk := Suc (brk w), list_hdrs := ?ls\<rparr>"
  have "emq_list_init w = (Some (brk w), ?w1)" "EMQ_LIST_SET_FREE_METHOD (Some (brk w)) handler ?w1 = Some ?w"
    using mem by (simp_all add: emq_list_init_def malloc_small EMQ_LIST_SET_FREE_METHOD_def)
  moreover have "list_rep ?w (brk w) (Some handler) []" by (simp add: list_rep_def)
  moreover have "grows (brk w) w ?w"
    by (rule growsI [where n = "Suc (brk w)" and os = "objs w" and ns = "nodes w" and ls = ?ls]) simp_all
  moreover have "world_wf ?w" using wf by (simp add: world_wf_def)
  moreover have "only_list (brk w) (brk w) [] ?w"
    using wf_fresh(2-4) [OF wf] by (simp add: only_list_def)
  ultimately show ?thesis by (intro exI [of _ ?w1] exI [of _ ?w]) simp
qed

section \<open>Memory that is edited in place\<close>

text \<open>
  \<open>edits lp A V w w'\<close>: only the header \<open>lp\<close>, the nodes \<open>A\<close> and the objects \<open>V\<close> may differ, and
  nothing was allocated.
\<close>

definition edits :: "addr \<Rightarrow> addr set \<Rightarrow> addr set \<Rightarrow> world \<Rightarrow> world \<Rightarrow> bool" where
  "edits lp A V w w' \<longleftrightarrow> (\<exists>os ls nd. w' = w\<lparr>objs := os, list_hdrs := ls, nodes := nd\<rparr> \<and>
     (\<forall>q. q \<noteq> lp \<longrightarrow> ls q = list_hdrs w q) \<and> (\<forall>a. a \<notin> A \<longrightarrow> nd a = nodes w a) \<and>
     (\<forall>v. v \<notin> V \<longrightarrow> os v = objs w v) \<and> dom ls = dom (list_hdrs w) \<and> dom nd \<subseteq> dom (nodes w) \<and>
     dom os \<subseteq> dom (objs w))"

lemma editsI:
  "w' = w\<lparr>objs := os, list_hdrs := ls, nodes := nd\<rparr> \<Longrightarrow> (\<And>q. q \<noteq> lp \<Longrightarrow> ls q = list_hdrs w q) \<Longrightarrow>
   (\<And>a. a \<notin> A \<Longrightarrow> nd a = nodes w a) \<Longrightarrow> (\<And>v. v \<notin> V \<Longrightarrow> os v = objs w v) \<Longrightarrow>
   dom ls = dom (list_hdrs w) \<Longrightarrow> dom nd \<subseteq> dom (nodes w) \<Longrightarrow> dom os \<subseteq> dom (objs w) \<Longrightarrow> edits lp A V w w'"
  unfolding edits_def by blast

lemma editsE:
  assumes "edits lp A V w w'"
  obtains os ls nd where "w' = w\<lparr>objs := os, list_hdrs := ls, nodes := nd\<rparr>"
    "\<And>q. q \<noteq> lp \<Longrightarrow> ls q = list_hdrs w q" "\<And>a. a \<notin> A \<Longrightarrow> nd a = nodes w a"
    "\<And>v. v \<notin> V \<Longrightarrow> os v = objs w v" "dom ls = dom (list_hdrs w)" "dom nd \<subseteq> dom (nodes w)"
    "dom os \<subseteq> dom (objs w)"
  using assms unfolding edits_def by blast

lemma edits_refl: "edits lp A V w w"
  by (rule editsI [where os = "objs w" and ls = "list_hdrs w" and nd = "nodes w"]) simp_all

lemma edits_trans:
  assumes "edits lp A V w w'" and "edits lp A V w' w''"
  shows "edits lp A V w w''"
proof -
  from assms(1) obtain os ls nd where 1: "w' = w\<lparr>objs := os, list_hdrs := ls, nodes := nd\<rparr>"
    "\<And>q. q \<noteq> lp \<Longrightarrow> ls q = list_hdrs w q" "\<And>a. a \<notin> A \<Longrightarrow> nd a = nodes w a"
    "\<And>v. v \<notin> V \<Longrightarrow> os v = objs w v" "dom ls = dom (list_hdrs w)" "dom nd \<subseteq> dom (nodes w)"
    "dom os \<subseteq> dom (objs w)" by (elim editsE) (rule that)
  from assms(2) obtain os' ls' nd' where 2: "w'' = w'\<lparr>objs := os', list_hdrs := ls', nodes := nd'\<rparr>"
    "\<And>q. q \<noteq> lp \<Longrightarrow> ls' q = list_hdrs w' q" "\<And>a. a \<notin> A \<Longrightarrow> nd' a = nodes w' a"
    "\<And>v. v \<notin> V \<Longrightarrow> os' v = objs w' v" "dom ls' = dom (list_hdrs w')" "dom nd' \<subseteq> dom (nodes w')"
    "dom os' \<subseteq> dom (objs w')" by (elim editsE) (rule that)
  show ?thesis
    using 1 2 by (intro editsI [where os = os' and ls = ls' and nd = nd']) simp_all
qed

lemma edits_mono: "edits lp A V w w' \<Longrightarrow> A \<subseteq> A' \<Longrightarrow> V \<subseteq> V' \<Longrightarrow> edits lp A' V' w w'"
  by (elim editsE, rule editsI) (assumption | blast)+

lemma edits_fields:
  assumes "edits lp A V w w'"
  shows "clients w' = clients w" "bufs w' = bufs w" "msgs w' = msgs w" "socks w' = socks w"
    "alloc_ok w' = alloc_ok w" "brk w' = brk w" "v \<notin> V \<Longrightarrow> objs w' v = objs w v"
    "a \<notin> A \<Longrightarrow> nodes w' a = nodes w a" "q \<noteq> lp \<Longrightarrow> list_hdrs w' q = list_hdrs w q"
  using assms by (auto elim!: editsE)

text \<open>Memory operations leave the variable of the programs alone.\<close>

lemma grows_counter: "grows m w w' \<Longrightarrow> message_counter w' = message_counter w"
  unfolding grows_def by auto

lemma edits_counter: "edits lp A V w w' \<Longrightarrow> message_counter w' = message_counter w"
  by (auto elim!: editsE)

lemma edits_wf:
  assumes "edits lp A V w w'" and "world_wf w"
  shows "world_wf w'"
proof -
  from assms(1) obtain os ls nd where e: "w' = w\<lparr>objs := os, list_hdrs := ls, nodes := nd\<rparr>"
    "dom ls = dom (list_hdrs w)" "dom nd \<subseteq> dom (nodes w)" "dom os \<subseteq> dom (objs w)"
    by (elim editsE) (rule that)
  have "ls a = None \<and> nd a = None \<and> os a = None" if "brk w \<le> a" for a
    using wf_fresh(2-4) [OF assms(2) that] e(2-4) by (metis domIff in_mono)
  then show ?thesis using assms(2) e(1) by (simp add: world_wf_def)
qed

lemma delete_edits:
  assumes "list_rep w lp (Some h) (xs @ (a, v) # ys)" and "objs w v \<noteq> None"
  shows "\<exists>w'. emq_list_delete_node (Some lp) (Some a) w = Some w' \<and> list_rep w' lp (Some h) (xs @ ys) \<and>
    edits lp (fst ` set (xs @ (a, v) # ys)) {v} w w' \<and> objs w' = (objs w)(v := None)"
proof -
  let ?A = "fst ` set (xs @ (a, v) # ys)" and ?os = "objs w |` (- {v})"
  obtain w' where w': "emq_list_delete_node (Some lp) (Some a) w = Some w'" "list_rep w' lp (Some h) (xs @ ys)"
    "list_frame lp ?A (w\<lparr>objs := freed_objs (Some h) [v] w\<rparr>) w'" "dom (nodes w') = dom (nodes w) - {a}"
    using emq_list_delete_node_rep [OF assms(1)] assms(2) by blast
  from w'(3) obtain ls nd where fr: "w' = w\<lparr>objs := ?os\<rparr>\<lparr>list_hdrs := ls, nodes := nd\<rparr>"
    "\<forall>q. q \<noteq> lp \<longrightarrow> ls q = list_hdrs w q" "\<forall>a. a \<notin> ?A \<longrightarrow> nd a = nodes w a" "dom ls = dom (list_hdrs w)"
    unfolding list_frame_def by (auto simp: freed_objs_def)
  have "edits lp ?A {v} w w'"
    using fr w'(4) by (intro editsI [where os = ?os and ls = ls and nd = nd]) auto
  moreover have "objs w' = (objs w)(v := None)"
    using fr(1) by (simp add: restrict_complement_singleton_eq)
  ultimately show ?thesis using w'(1,2) by blast
qed

end
