(* ===== verification/Emq_Queries.thy ===== *)
theory Emq_Queries
  imports Emq_Commands Emq_Memory "HOL-Library.Sublist"
begin

text \<open>
  The five queries of \<^verbatim>\<open>src/src/emq.c\<close> that return a list: users, queues, routes, the keys of a
  route and channels. The reply body is an array of fixed-width records; each is copied into a
  zeroed object and added to the front of a new list.

  The layout of a record is the locale \<open>wire_record\<close>: its width, its encoder and its decoder.
  The lemmas proved there (a body of whole records comes back as the reversed list, a body that
  ends inside a record is read past its end) hold for the five kinds by interpretation.
\<close>

section \<open>Objects\<close>

definition calloc_obj :: "nat \<Rightarrow> emq_object \<Rightarrow> world \<Rightarrow> ptr \<times> world" where
  "calloc_obj n zero w = (case malloc n w of
     (None, w) \<Rightarrow> (None, w)
   | (Some a, w) \<Rightarrow> (Some a, w\<lparr>objs := (objs w)(a \<mapsto> zero)\<rparr>))"

definition emq_user_init :: "world \<Rightarrow> ptr \<times> world" where
  "emq_user_init w = calloc_obj (32 + 32 + 8) (User \<lparr>user_name = replicate 32 0,
     user_password = replicate 32 0, user_perm = 0\<rparr>) w"

definition emq_queue_init :: "world \<Rightarrow> ptr \<times> world" where
  "emq_queue_init w = calloc_obj (64 + 6 * 4) (Queue \<lparr>queue_name = replicate 64 0, queue_max_msg = 0,
     queue_max_msg_size = 0, queue_flags = 0, queue_size = 0, queue_declared_clients = 0,
     queue_subscribed_clients = 0\<rparr>) w"

definition emq_route_init :: "world \<Rightarrow> ptr \<times> world" where
  "emq_route_init w = calloc_obj (64 + 2 * 4) (Route \<lparr>route_name = replicate 64 0, route_flags = 0,
     route_keys = 0\<rparr>) w"

definition emq_channel_init :: "world \<Rightarrow> ptr \<times> world" where
  "emq_channel_init w = calloc_obj (64 + 3 * 4) (Channel \<lparr>channel_name = replicate 64 0,
     channel_flags = 0, channel_topics = 0, channel_patterns = 0\<rparr>) w"

definition emq_route_key_init :: "world \<Rightarrow> ptr \<times> world" where
  "emq_route_key_init w = calloc_obj (32 + 64) (RouteKey \<lparr>rk_key = replicate 32 0,
     rk_queue = replicate 64 0\<rparr>) w"

section \<open>Records of a reply\<close>

text \<open>The object after the \<open>memcpy\<close> calls of one round of the loop, from the bytes at \<open>buffer + i\<close>.\<close>

definition user_of_record :: "bytes \<Rightarrow> emq_object" where
  "user_of_record bs = User \<lparr>user_name = take 32 bs, user_password = take 32 (drop 32 bs),
     user_perm = le_word (take 8 (drop 64 bs))\<rparr>"

definition queue_of_record :: "bytes \<Rightarrow> emq_object" where
  "queue_of_record bs = Queue \<lparr>queue_name = take 64 bs, queue_max_msg = u32_at bs 64,
     queue_max_msg_size = u32_at bs 68, queue_flags = u32_at bs 72, queue_size = u32_at bs 76,
     queue_declared_clients = u32_at bs 80, queue_subscribed_clients = u32_at bs 84\<rparr>"

definition route_of_record :: "bytes \<Rightarrow> emq_object" where
  "route_of_record bs = Route \<lparr>route_name = take 64 bs, route_flags = u32_at bs 64,
     route_keys = u32_at bs 68\<rparr>"

definition route_key_of_record :: "bytes \<Rightarrow> emq_object" where
  "route_key_of_record bs = RouteKey \<lparr>rk_key = take 32 bs, rk_queue = take 64 (drop 32 bs)\<rparr>"

definition channel_of_record :: "bytes \<Rightarrow> emq_object" where
  "channel_of_record bs = Channel \<lparr>channel_name = take 64 bs, channel_flags = u32_at bs 64,
     channel_topics = u32_at bs 68, channel_patterns = u32_at bs 72\<rparr>"

section \<open>The loop and the queries\<close>

text \<open>
  The loop over the body: \<open>i\<close> is the \<open>uint32_t\<close> index and \<open>width\<close> the bytes one round consumes.
  The result of \<open>emq_list_add_value\<close> is not looked at. The loop returns whether every
  object could be allocated.
\<close>

partial_function (option) parse_records :: "nat \<Rightarrow> (world \<Rightarrow> ptr \<times> world) \<Rightarrow> (bytes \<Rightarrow> emq_object) \<Rightarrow>
    ptr \<Rightarrow> ptr \<Rightarrow> u32 \<Rightarrow> u32 \<Rightarrow> world \<Rightarrow> (bool \<times> world) option" where
  "parse_records width init of_record list buffer i bodylen w =
     (if \<not> i < bodylen then Some (True, w)
      else case init w of
        (None, w) \<Rightarrow> Some (False, w)
      | (Some v, w) \<Rightarrow> do {
          bs \<leftarrow> buf_load buffer (unat i) width w;
          let w = w\<lparr>objs := (objs w)(v \<mapsto> of_record bs)\<rparr>;
          (_, w) \<leftarrow> emq_list_add_value list v w;
          parse_records width init of_record list buffer (i + word_of_nat width) bodylen w })"

text \<open>After the loop: the partial list is released when an object could not be allocated.\<close>

definition emq_list_finish :: "ptr \<Rightarrow> ptr \<Rightarrow> ptr \<Rightarrow> bool \<Rightarrow> world \<Rightarrow> (ptr \<times> world) option" where
  "emq_list_finish client list buffer all_done w = (
     if \<not> all_done then do {
       w \<leftarrow> emq_client_set_error client EMQ_ERROR_ALLOC w;
       w \<leftarrow> emq_list_release list w;
       w \<leftarrow> free_buf buffer w;
       emq_exit client False None w }
     else do {
       w \<leftarrow> free_buf buffer w;
       emq_exit client True list w })"

definition emq_list_query :: "ptr \<Rightarrow> (ptr \<Rightarrow> world \<Rightarrow> (int \<times> world) option) \<Rightarrow> protocol_command \<Rightarrow>
    free_handler \<Rightarrow> nat \<Rightarrow> (world \<Rightarrow> ptr \<times> world) \<Rightarrow> (bytes \<Rightarrow> emq_object) \<Rightarrow> world \<Rightarrow> (ptr \<times> world) option" where
  "emq_list_query client build cmd handler width init of_record w = do {
     (ok, w) \<leftarrow> emq_request_write client build w;
     if \<not> ok then emq_exit client False None w
     else do {
       (header, w) \<leftarrow> emq_read_reply client (reply_check_mini cmd) w;
       case header of
         None \<Rightarrow> emq_exit client False None w
       | Some h \<Rightarrow> (case buf_alloc (unat (res_bodylen h)) w of
           (None, w) \<Rightarrow> do {
             w \<leftarrow> emq_client_set_error client EMQ_ERROR_ALLOC w;
             emq_exit client False None w }
         | (Some buffer, w) \<Rightarrow> do {
             (n, bs, w) \<leftarrow> emq_client_read client (sint (res_bodylen h)) w;
             if n = -1 then do {
               w \<leftarrow> emq_client_set_error client EMQ_ERROR_READ w;
               w \<leftarrow> free_buf (Some buffer) w;
               emq_exit client False None w }
             else do {
               w \<leftarrow> buf_store (Some buffer) 0 bs w;
               (case emq_list_init w of
                  (None, w) \<Rightarrow> do {
                    w \<leftarrow> emq_client_set_error client EMQ_ERROR_ALLOC w;
                    w \<leftarrow> free_buf (Some buffer) w;
                    emq_exit client False None w }
                | (Some lp, w) \<Rightarrow> do {
                    w \<leftarrow> EMQ_LIST_SET_FREE_METHOD (Some lp) handler w;
                    (all_done, w) \<leftarrow> parse_records width init of_record (Some lp) (Some buffer) 0 (res_bodylen h) w;
                    emq_list_finish client (Some lp) (Some buffer) all_done w }) } }) } }"

definition emq_user_list :: "ptr \<Rightarrow> world \<Rightarrow> (ptr \<times> world) option" where
  "emq_user_list client w = emq_list_query client emq_user_list_request EMQ_PROTOCOL_CMD_USER_LIST
     emq_user_list_free_handler (64 + 8) emq_user_init user_of_record w"

definition emq_queue_list :: "ptr \<Rightarrow> world \<Rightarrow> (ptr \<times> world) option" where
  "emq_queue_list client w = emq_list_query client emq_queue_list_request EMQ_PROTOCOL_CMD_QUEUE_LIST
     emq_queue_list_free_handler (64 + 6 * 4) emq_queue_init queue_of_record w"

definition emq_route_list :: "ptr \<Rightarrow> world \<Rightarrow> (ptr \<times> world) option" where
  "emq_route_list client w = emq_list_query client emq_route_list_request EMQ_PROTOCOL_CMD_ROUTE_LIST
     emq_route_list_free_handler (64 + 2 * 4) emq_route_init route_of_record w"

definition emq_route_keys :: "ptr \<Rightarrow> bytes \<Rightarrow> world \<Rightarrow> (ptr \<times> world) option" where
  "emq_route_keys client name w = emq_list_query client (\<lambda>client. emq_route_keys_request client name)
     EMQ_PROTOCOL_CMD_ROUTE_KEYS emq_route_key_list_free_handler (32 + 64) emq_route_key_init
     route_key_of_record w"

definition emq_channel_list :: "ptr \<Rightarrow> world \<Rightarrow> (ptr \<times> world) option" where
  "emq_channel_list client w = emq_list_query client emq_channel_list_request EMQ_PROTOCOL_CMD_CHANNEL_LIST
     emq_channel_list_free_handler (64 + 3 * 4) emq_channel_init channel_of_record w"

section \<open>The layout of a record\<close>

locale wire_record =
  fixes width :: nat
    and init :: "world \<Rightarrow> ptr \<times> world"
    and of_record :: "bytes \<Rightarrow> emq_object"
    and encode :: "'r \<Rightarrow> bytes"
    and object :: "'r \<Rightarrow> emq_object"
    and fits :: "'r \<Rightarrow> bool"
  assumes width_pos: "0 < width" "width < 256"
    and init_spec: "\<exists>zero. init w = (if alloc_ok w (brk w)
      then (Some (brk w), w\<lparr>brk := Suc (brk w), objs := (objs w)(brk w \<mapsto> zero)\<rparr>)
      else (None, w\<lparr>brk := Suc (brk w)\<rparr>))"
    and encode_length: "fits r \<Longrightarrow> length (encode r) = width"
    and decode_encode: "fits r \<Longrightarrow> of_record (encode r) = object r"
    and encode_onto: "length bs = width \<Longrightarrow> \<exists>r. fits r \<and> encode r = bs"

text \<open>\<open>holds w ms xs\<close>: the values of the nodes \<open>ms\<close> are the objects \<open>xs\<close>.\<close>

definition holds :: "world \<Rightarrow> (addr \<times> addr) list \<Rightarrow> emq_object list \<Rightarrow> bool" where
  "holds w ms xs \<longleftrightarrow> map (\<lambda>(a, v). objs w v) ms = map Some xs"

lemma parse_records_step:
  "parse_records width init of_record list buffer i bodylen w =
     (if \<not> i < bodylen then Some (True, w)
      else case init w of
        (None, w) \<Rightarrow> Some (False, w)
      | (Some v, w) \<Rightarrow> do {
          bs \<leftarrow> buf_load buffer (unat i) width w;
          let w = w\<lparr>objs := (objs w)(v \<mapsto> of_record bs)\<rparr>;
          (_, w) \<leftarrow> emq_list_add_value list v w;
          parse_records width init of_record list buffer (i + word_of_nat width) bodylen w })"
  by (subst parse_records.simps) (rule refl)

lemma parse_records_done [simp]: "parse_records width init of_record list buffer n n w = Some (True, w)"
  by (subst parse_records_step) simp

context wire_record
begin

lemma load_record:
  assumes "bufs w q = Some (map Some (pre @ encode r @ rest))" and "length pre = n" and "fits r"
  shows "buf_load (Some q) n width w = Some (encode r)"
  using assms encode_length by (simp add: buf_load_def)

text \<open>
  A body of whole records: the loop ends, the objects of the list are the records in reverse
  order, or a selection of them when nodes could not be allocated; when everything could be
  allocated the list is complete.
\<close>

lemma parse_records_rep:
  assumes "world_wf w" and "list_rep w lp fr ns" and "m \<le> lp" and "m \<le> brk w"
    and "\<forall>a \<in> fst ` set ns. m \<le> a" and "distinct (map snd ns)" and "\<forall>v \<in> snd ` set ns. v < brk w"
    and "bufs w q = Some (map Some (pre @ concat (map encode rs)))"
    and "unat i = length pre" and "unat bodylen = length pre + width * length rs"
    and "\<forall>r \<in> set rs. fits r"
  shows "\<exists>fin w' ms xs. parse_records width init of_record (Some lp) (Some q) i bodylen w = Some (fin, w') \<and>
    grows m w w' \<and> world_wf w' \<and> list_rep w' lp fr (ms @ ns) \<and> holds w' ms (map object (rev xs)) \<and>
    distinct (map snd (ms @ ns)) \<and> (\<forall>v \<in> snd ` set ms. brk w \<le> v) \<and> (\<forall>a \<in> fst ` set ms. brk w \<le> a) \<and>
    subseq xs rs \<and> ((\<forall>k \<ge> brk w. alloc_ok w k) \<longrightarrow> fin \<and> xs = rs) \<and>
    (only_list m lp ns w \<longrightarrow> only_list m lp (ms @ ns) w')"
  using assms
proof (induction rs arbitrary: w ns pre i)
  case Nil
  then have "i = bodylen" by (simp add: word_unat_eq_iff)
  with Nil.prems show ?case
    by (intro exI [of _ True] exI [of _ w] exI [of _ "[]"] exI [of _ "[]"])
      (simp add: holds_def grows_refl)
next
  case (Cons r rs)
  note prems = Cons.prems
  have less: "i < bodylen" using prems(9,10) width_pos by (simp add: word_less_nat_alt)
  obtain zero where ini: "init w = (if alloc_ok w (brk w)
      then (Some (brk w), w\<lparr>brk := Suc (brk w), objs := (objs w)(brk w \<mapsto> zero)\<rparr>)
      else (None, w\<lparr>brk := Suc (brk w)\<rparr>))" using init_spec by blast
  show ?case
  proof (cases "alloc_ok w (brk w)")
    case False
    let ?w = "w\<lparr>brk := Suc (brk w)\<rparr>"
    have "parse_records width init of_record (Some lp) (Some q) i bodylen w = Some (False, ?w)"
      using False less ini by (subst parse_records_step) simp
    moreover have "grows m w ?w"
      by (rule growsI [where n = "Suc (brk w)" and os = "objs w" and ns = "nodes w" and ls = "list_hdrs w"]) simp_all
    moreover have "world_wf ?w" using prems(1) by (simp add: world_wf_def)
    moreover have "list_rep ?w lp fr ns" using prems(2) by (rule list_rep_cong) simp_all
    moreover have "only_list m lp ns w \<longrightarrow> only_list m lp ns ?w" by (simp add: only_list_def)
    ultimately show ?thesis
      using False prems(6) by (intro exI [of _ False] exI [of _ ?w] exI [of _ "[]"] exI [of _ "[]"])
        (auto simp: holds_def)
  next
    case True
    let ?w1 = "w\<lparr>brk := Suc (brk w), objs := (objs w)(brk w \<mapsto> object r)\<rparr>"
    let ?nd = "if alloc_ok w (Suc (brk w)) then [(Suc (brk w), brk w)] else []"
    have fr: "fits r" using prems(11) by simp
    have load: "buf_load (Some q) (unat i) width (w\<lparr>brk := Suc (brk w), objs := (objs w)(brk w \<mapsto> zero)\<rparr>)
        = Some (encode r)"
      using load_record [of _ q pre r "concat (map encode rs)" "unat i"] prems(8,9) fr by simp
    obtain e w2 where add: "emq_list_add_value (Some lp) (brk w) ?w1 = Some (e, w2)" "grows m w w2"
      "world_wf w2" "objs w2 = (objs w)(brk w \<mapsto> object r)" "brk w2 = Suc (Suc (brk w))"
      "list_rep w2 lp fr (?nd @ ns)" "\<forall>q. q \<noteq> lp \<longrightarrow> list_hdrs w2 q = list_hdrs w q"
      "\<forall>a. a \<notin> insert (Suc (brk w)) (fst ` set ns) \<longrightarrow> nodes w2 a = nodes w a"
      "\<not> alloc_ok w (Suc (brk w)) \<longrightarrow> nodes w2 = nodes w"
    proof -
      obtain e w2 where "emq_list_add_value (Some lp) (brk w) ?w1 = Some (e, w2)" "grows m w w2"
        "world_wf w2" "objs w2 = (objs w)(brk w \<mapsto> object r)" "brk w2 = Suc (Suc (brk w))"
        "\<forall>q. q \<noteq> lp \<longrightarrow> list_hdrs w2 q = list_hdrs w q"
        "\<forall>a. a \<notin> insert (Suc (brk w)) (fst ` set ns) \<longrightarrow> nodes w2 a = nodes w a"
        "list_rep w2 lp fr (if alloc_ok w (Suc (brk w)) then (Suc (brk w), brk w) # ns else ns)"
        "\<not> alloc_ok w (Suc (brk w)) \<longrightarrow> nodes w2 = nodes w"
        using add_object [OF prems(1,2,3,4) _ refl, of "object r"] prems(5) by blast
      then show thesis by (intro that [of e w2]) (simp_all split: if_splits)
    qed
    have only: "only_list m lp ns w \<longrightarrow> only_list m lp (?nd @ ns) w2"
      using only_list_add [OF _ grows_fields(5) [OF add(2)] add(4,7,8,9)] by blast
    have "unat i + width \<le> unat bodylen" using prems(9,10) by simp
    then have "unat i + width < 2 ^ 32" using unat_u32_lt [of bodylen] by linarith
    then have next_i: "unat (i + word_of_nat width) = length (pre @ encode r)"
      using prems(9) encode_length [OF fr] by (simp add: unat_word_ariths unat_of_nat)
    have brk_free: "brk w \<notin> snd ` set ns" using prems(7) by blast
    have mid: "m \<le> brk w2" using prems(4) add(5) by simp
    have nd: "\<forall>a \<in> fst ` set (?nd @ ns). m \<le> a" "distinct (map snd (?nd @ ns))"
      "\<forall>v \<in> snd ` set (?nd @ ns). v < brk w2"
      using prems(4-7) add(5) brk_free by (auto simp: less_Suc_eq)
    have buf: "bufs w2 q = Some (map Some ((pre @ encode r) @ concat (map encode rs)))"
      using prems(8) grows_fields(2) [OF add(2)] by simp
    have len: "unat bodylen = length (pre @ encode r) + width * length rs"
      using prems(10) encode_length [OF fr] by simp
    have fits': "\<forall>r \<in> set rs. fits r" using prems(11) by simp
    obtain fin w' ms xs where rec:
      "parse_records width init of_record (Some lp) (Some q) (i + word_of_nat width) bodylen w2 = Some (fin, w')"
      "grows m w2 w'" "world_wf w'" "list_rep w' lp fr (ms @ ?nd @ ns)" "holds w' ms (map object (rev xs))"
      "distinct (map snd (ms @ ?nd @ ns))" "\<forall>v \<in> snd ` set ms. brk w2 \<le> v" "\<forall>a \<in> fst ` set ms. brk w2 \<le> a"
      "subseq xs rs" "(\<forall>k \<ge> brk w2. alloc_ok w2 k) \<longrightarrow> fin \<and> xs = rs"
      "only_list m lp (?nd @ ns) w2 \<longrightarrow> only_list m lp (ms @ ?nd @ ns) w'"
      using Cons.IH [OF add(3,6) prems(3) mid nd buf next_i len fits'] by (elim exE conjE) (rule that)
    have run: "parse_records width init of_record (Some lp) (Some q) i bodylen w = Some (fin, w')"
      using True less ini load add(1) rec(1) decode_encode [OF fr]
      by (subst parse_records_step) (simp add: Let_def)
    let ?xs = "if alloc_ok w (Suc (brk w)) then r # xs else xs"
    have "objs w' (brk w) = Some (object r)"
      using grows_fields(7) [OF rec(2), of "brk w"] add(4,5) by simp
    with rec(5) have holds': "holds w' (ms @ ?nd) (map object (rev ?xs))"
      by (simp add: holds_def)
    show ?thesis
      using run grows_trans [OF add(2) rec(2)] rec(3,4,6-10) holds' add(5) grows_fields(5) [OF add(2)] only rec(11)
      by (intro exI [of _ fin] exI [of _ w'] exI [of _ "ms @ ?nd"] exI [of _ ?xs]) auto
  qed
qed

end

lemma emq_list_add_value_other:
  assumes "emq_list_add_value lp v w = Some (r, w')"
  shows "bufs w' = bufs w \<and> alloc_ok w' = alloc_ok w \<and> brk w' = Suc (brk w)"
  using assms by (auto simp: emq_list_add_value_def malloc_small bind_eq_Some_conv split: if_splits option.splits)

context wire_record
begin

text \<open>A body that ends inside a record: the last \<open>memcpy\<close> runs past the end of the buffer.\<close>

lemma parse_records_overread:
  assumes "\<forall>k \<ge> brk w. alloc_ok w k" and "bufs w q = Some blk" and "length blk = unat bodylen"
    and "unat i \<le> unat bodylen" and "(unat bodylen - unat i) mod width \<noteq> 0"
  shows "parse_records width init of_record list (Some q) i bodylen w = None"
  using assms
proof (induction "unat bodylen - unat i" arbitrary: i w rule: less_induct)
  case less
  note prems = less.prems
  have lt: "i < bodylen"
    using prems(4,5) by (cases "unat i = unat bodylen") (simp_all add: word_less_nat_alt)
  obtain zero where ini: "init w = (Some (brk w), w\<lparr>brk := Suc (brk w), objs := (objs w)(brk w \<mapsto> zero)\<rparr>)"
    using init_spec [of w] prems(1) by auto
  let ?w0 = "w\<lparr>brk := Suc (brk w), objs := (objs w)(brk w \<mapsto> zero)\<rparr>"
  show ?case
  proof (cases "buf_load (Some q) (unat i) width ?w0")
    case None
    with lt ini show ?thesis by (subst parse_records_step) simp
  next
    case (Some bs)
    then have room: "unat i + width \<le> unat bodylen"
      using prems(2,3) by (auto simp: buf_load_def split: if_splits)
    then have "unat i + width < 2 ^ 32" using unat_u32_lt [of bodylen] by linarith
    then have i': "unat (i + word_of_nat width) = unat i + width"
      by (simp add: unat_word_ariths unat_of_nat)
    let ?w1 = "?w0\<lparr>objs := (objs ?w0)(brk w \<mapsto> of_record bs)\<rparr>"
    show ?thesis
    proof (cases "emq_list_add_value list (brk w) ?w1")
      case None
      with lt ini Some show ?thesis by (subst parse_records_step) (simp add: Let_def)
    next
      case (Some res)
      then obtain r w2 where add: "emq_list_add_value list (brk w) ?w1 = Some (r, w2)" by (cases res) auto
      have "(unat bodylen - (unat i + width)) mod width = (unat bodylen - unat i) mod width"
        using room le_mod_geq [of width "unat bodylen - unat i"] by simp
      then have "parse_records width init of_record list (Some q) (i + word_of_nat width) bodylen w2 = None"
        using less.hyps [of "i + word_of_nat width" w2] emq_list_add_value_other [OF add] prems i' room width_pos
        by simp
      with lt ini \<open>buf_load (Some q) (unat i) width ?w0 = Some bs\<close> add show ?thesis
        by (subst parse_records_step) (simp add: Let_def)
    qed
  qed
qed

end

section \<open>The five kinds of records\<close>

definition encode_user :: "emq_user \<Rightarrow> bytes" where
  "encode_user r = user_name r @ user_password r @ le_bytes 8 (user_perm r)"

definition encode_queue :: "emq_queue \<Rightarrow> bytes" where
  "encode_queue r = queue_name r @ le_bytes 4 (queue_max_msg r) @ le_bytes 4 (queue_max_msg_size r) @
     le_bytes 4 (queue_flags r) @ le_bytes 4 (queue_size r) @ le_bytes 4 (queue_declared_clients r) @
     le_bytes 4 (queue_subscribed_clients r)"

definition encode_route :: "emq_route \<Rightarrow> bytes" where
  "encode_route r = route_name r @ le_bytes 4 (route_flags r) @ le_bytes 4 (route_keys r)"

definition encode_route_key :: "emq_route_key \<Rightarrow> bytes" where
  "encode_route_key r = rk_key r @ rk_queue r"

definition encode_channel :: "emq_channel \<Rightarrow> bytes" where
  "encode_channel r = channel_name r @ le_bytes 4 (channel_flags r) @ le_bytes 4 (channel_topics r) @
     le_bytes 4 (channel_patterns r)"

lemma calloc_obj_cases:
  "n < 2 ^ 63 \<Longrightarrow> calloc_obj n zero w = (if alloc_ok w (brk w)
     then (Some (brk w), w\<lparr>brk := Suc (brk w), objs := (objs w)(brk w \<mapsto> zero)\<rparr>)
     else (None, w\<lparr>brk := Suc (brk w)\<rparr>))"
  by (simp add: calloc_obj_def malloc_def)

text \<open>Any bytes of the length of a record are a record.\<close>

lemma take_drop_join: "take m (drop n bs) @ drop (n + m) bs = drop n (bs :: bytes)"
  by (metis append_take_drop_id drop_drop add.commute)

lemma encode_onto_user:
  "length bs = 64 + 8 \<Longrightarrow> \<exists>r. (length (user_name r) = 32 \<and> length (user_password r) = 32) \<and> encode_user r = bs"
  by (rule exI [of _ "\<lparr>user_name = take 32 bs, user_password = take 32 (drop 32 bs), user_perm = le_word (drop 64 bs)\<rparr>"])
    (simp add: encode_user_def le_bytes_le_word take_drop_join [of 32 32, simplified])

lemma encode_onto_queue:
  "length bs = 64 + 6 * 4 \<Longrightarrow> \<exists>r. length (queue_name r) = 64 \<and> encode_queue r = bs"
  by (rule exI [of _ "\<lparr>queue_name = take 64 bs, queue_max_msg = u32_at bs 64,
      queue_max_msg_size = u32_at bs 68, queue_flags = u32_at bs 72, queue_size = u32_at bs 76,
      queue_declared_clients = u32_at bs 80, queue_subscribed_clients = u32_at bs 84\<rparr>"])
    (simp add: encode_queue_def u32_at_def le_bytes_le_word take_drop_join [of 4 64, simplified]
      take_drop_join [of 4 68, simplified] take_drop_join [of 4 72, simplified] take_drop_join [of 4 76, simplified]
      take_drop_join [of 4 80, simplified])

lemma encode_onto_route:
  "length bs = 64 + 2 * 4 \<Longrightarrow> \<exists>r. length (route_name r) = 64 \<and> encode_route r = bs"
  by (rule exI [of _ "\<lparr>route_name = take 64 bs, route_flags = u32_at bs 64, route_keys = u32_at bs 68\<rparr>"])
    (simp add: encode_route_def u32_at_def le_bytes_le_word take_drop_join [of 4 64, simplified])

lemma encode_onto_route_key:
  "length bs = 32 + 64 \<Longrightarrow> \<exists>r. (length (rk_key r) = 32 \<and> length (rk_queue r) = 64) \<and> encode_route_key r = bs"
  by (rule exI [of _ "\<lparr>rk_key = take 32 bs, rk_queue = drop 32 bs\<rparr>"]) (simp add: encode_route_key_def)

lemma encode_onto_channel:
  "length bs = 64 + 3 * 4 \<Longrightarrow> \<exists>r. length (channel_name r) = 64 \<and> encode_channel r = bs"
  by (rule exI [of _ "\<lparr>channel_name = take 64 bs, channel_flags = u32_at bs 64, channel_topics = u32_at bs 68,
      channel_patterns = u32_at bs 72\<rparr>"])
    (simp add: encode_channel_def u32_at_def le_bytes_le_word take_drop_join [of 4 64, simplified]
      take_drop_join [of 4 68, simplified])

lemmas encode_onto_all = encode_onto_user encode_onto_queue encode_onto_route encode_onto_route_key encode_onto_channel

interpretation user_record: wire_record "64 + 8" emq_user_init user_of_record encode_user User
  "\<lambda>r. length (user_name r) = 32 \<and> length (user_password r) = 32"
  by unfold_locales (auto simp: emq_user_init_def calloc_obj_cases encode_user_def user_of_record_def intro: encode_onto_all [simplified])

interpretation queue_record: wire_record "64 + 6 * 4" emq_queue_init queue_of_record encode_queue Queue
  "\<lambda>r. length (queue_name r) = 64"
  by unfold_locales (auto simp: emq_queue_init_def calloc_obj_cases encode_queue_def queue_of_record_def u32_at_def intro: encode_onto_all [simplified])

interpretation route_record: wire_record "64 + 2 * 4" emq_route_init route_of_record encode_route Route
  "\<lambda>r. length (route_name r) = 64"
  by unfold_locales (auto simp: emq_route_init_def calloc_obj_cases encode_route_def route_of_record_def u32_at_def intro: encode_onto_all [simplified])

interpretation route_key_record: wire_record "32 + 64" emq_route_key_init route_key_of_record encode_route_key RouteKey
  "\<lambda>r. length (rk_key r) = 32 \<and> length (rk_queue r) = 64"
  by unfold_locales (auto simp: emq_route_key_init_def calloc_obj_cases encode_route_key_def route_key_of_record_def intro: encode_onto_all [simplified])

interpretation channel_record: wire_record "64 + 3 * 4" emq_channel_init channel_of_record encode_channel Channel
  "\<lambda>r. length (channel_name r) = 64"
  by unfold_locales (auto simp: emq_channel_init_def calloc_obj_cases encode_channel_def channel_of_record_def u32_at_def intro: encode_onto_all [simplified])

section \<open>The whole query\<close>

locale list_query = request_builder build ok cmd bodylen body +
    wire_record width init of_record encode object fits
  for build :: "ptr \<Rightarrow> world \<Rightarrow> (int \<times> world) option" and ok cmd bodylen body
    and width init of_record and encode :: "'r \<Rightarrow> bytes" and object fits

lemma holds_sess [simp]: "holds (sess a c b s w) ms xs = holds w ms xs"
  by (simp add: holds_def)

text \<open>\<open>array rs\<close>: the body with the records \<open>rs\<close>.\<close>

context list_query
begin

lemma length_array: "\<forall>r \<in> set rs. fits r \<Longrightarrow> length (concat (map encode rs)) = width * length rs"
  by (induction rs) (auto simp: encode_length)

text \<open>
  The query up to its loop, in a live environment with memory: the body \<open>d\<close> is in a block of its
  own and the list is new and empty.
\<close>

lemma list_query_enter:
  assumes ready: "sess_ok c b" and ok and "live s" and wf: "world_wf (sess a c b s w)"
    and mem: "\<forall>k \<ge> brk w. alloc_ok w k"
    and reply: "incoming s = response_header_bytes h @ d @ rest"
    and head: "reply_error (reply_check_mini qcmd) h = None"
    and len: "unat (res_bodylen h) = length d" "length d < 2 ^ 31"
  shows "\<exists>n b' s' V. emq_list_query (Some a) build qcmd handler width init of_record (sess a c b s w)
      = Option.bind (parse_records width init of_record (Some (Suc (brk w))) (Some (brk w)) 0 (res_bodylen h) V)
          (\<lambda>(all_done, w'). emq_list_finish (Some a) (Some (Suc (brk w))) (Some (brk w)) all_done w') \<and>
    sess_ok c b' \<and> incoming s' = rest \<and> live s' \<and>
    outgoing s' = outgoing s @ request_wire cmd (client_noack c) bodylen body \<and>
    list_rep V (Suc (brk w)) (Some handler) [] \<and> world_wf V \<and> brk V = Suc (Suc (brk w)) \<and>
    grows (Suc (brk w)) (sess a (c\<lparr>c_error := '''', c_pos := n\<rparr>) b' s'
      (w\<lparr>brk := Suc (brk w), bufs := (bufs w)(brk w \<mapsto> map Some d)\<rparr>)) V"
proof -
  let ?q = "brk w"
  obtain n b' s1 where wr: "emq_request_write (Some a) build (sess a c b s w)
      = Some (True, sess a (c\<lparr>c_error := '''', c_pos := n\<rparr>) b' s1 w)" "sess_ok c b'"
    "wrote_out s (request_wire cmd (client_noack c) bodylen body) s1"
    using request_write_live [OF assms(1-3)] by blast
  let ?c = "c\<lparr>c_error := '''', c_pos := n\<rparr>"
  obtain s2 where hd: "emq_read_reply (Some a) (reply_check_mini qcmd) (sess a ?c b' s1 w)
      = Some (Some h, sess a ?c b' s2 w)" "took_in s1 (response_header_bytes h) s2"
    using emq_read_reply_front [of ?c s1 h "d @ rest" a "reply_check_mini qcmd" b' w] wr(3) reply head
    by (auto simp: wrote_out_def)
  have inc2: "live s2" "incoming s2 = d @ rest"
    using hd(2) wr(3) reply by (simp_all add: wrote_out_def took_in_def)
  let ?w1 = "w\<lparr>brk := Suc ?q, bufs := (bufs w)(?q \<mapsto> replicate (length d) None)\<rparr>"
  let ?w2 = "w\<lparr>brk := Suc ?q, bufs := (bufs w)(?q \<mapsto> map Some d)\<rparr>"
  have cnt: "sint (res_bodylen h) = int (length d)"
    using sint_u32_small [of "res_bodylen h"] len by simp
  obtain s3 where rd: "emq_client_read (Some a) (sint (res_bodylen h)) (sess a ?c b' s2 ?w1)
      = Some (int (length d), d, sess a ?c b' s3 ?w1)" "took_in s2 d s3"
    using emq_client_read_front [OF inc2 cnt, of a ?c b' ?w1] unfolding cnt by blast
  have noreq: "?q \<noteq> the (c_request c)" using wf by (auto simp: world_wf_sess_iff)
  have alloc: "buf_alloc (length d) (sess a ?c b' s2 w) = (Some ?q, sess a ?c b' s2 ?w1)"
    using mem len(2) noreq by (subst buf_alloc_sess) (simp_all add: buf_alloc_cases)
  have store: "buf_store (Some ?q) 0 d (sess a ?c b' s3 ?w1) = Some (sess a ?c b' s3 ?w2)"
    using noreq by (subst buf_store_sess) (simp_all add: buf_store_def)
  let ?W2 = "sess a ?c b' s3 ?w2"
  have "world_wf ?w2" using wf by (simp add: world_wf_sess_iff) (simp add: world_wf_def)
  then have wf2: "world_wf ?W2" using wf by (simp add: world_wf_sess_iff)
  obtain V1 V where nl: "emq_list_init ?W2 = (Some (brk ?W2), V1)"
    "EMQ_LIST_SET_FREE_METHOD (Some (brk ?W2)) handler V1 = Some V"
    "list_rep V (brk ?W2) (Some handler) []" "grows (brk ?W2) ?W2 V" "world_wf V" "brk V = Suc (brk ?W2)"
    using new_list [OF wf2, of handler] mem by auto
  have "emq_list_query (Some a) build qcmd handler width init of_record (sess a c b s w)
      = Option.bind (parse_records width init of_record (Some (Suc ?q)) (Some ?q) 0 (res_bodylen h) V)
          (\<lambda>(all_done, w'). emq_list_finish (Some a) (Some (Suc ?q)) (Some ?q) all_done w')"
    using wr(1) hd(1) alloc rd(1) store nl(1,2) len(1) by (simp add: emq_list_query_def)
  then show ?thesis
    using nl wr(2,3) hd(2) rd(2) inc2
    by (intro exI [of _ n] exI [of _ b'] exI [of _ s3] exI [of _ V]) (simp add: wrote_out_def took_in_def)
qed

text \<open>
  A reply with whole records, in a live environment with memory: the list has the records in
  reverse order, the reply is consumed to its last byte, and nothing but the list is allocated.
\<close>

lemma list_query_live:
  assumes ready: "sess_ok c b" and ok and "live s" and wf: "world_wf (sess a c b s w)"
    and mem: "\<forall>k \<ge> brk w. alloc_ok w k" and fit: "\<forall>r \<in> set rs. fits r"
    and reply: "incoming s = response_header_bytes h @ concat (map encode rs) @ rest"
    and head: "reply_error (reply_check_mini qcmd) h = None"
    and len: "unat (res_bodylen h) = width * length rs" "width * length rs < 2 ^ 31"
  shows "\<exists>lp ms n b' s' w'. emq_list_query (Some a) build qcmd handler width init of_record (sess a c b s w)
      = Some (Some lp, sess a (settle None (c\<lparr>c_pos := n\<rparr>)) b' s' w') \<and> sess_ok c b' \<and>
    list_rep w' lp (Some handler) ms \<and> holds w' ms (map object (rev rs)) \<and> distinct (map snd ms) \<and>
    brk w \<le> lp \<and> grows (brk w) w w' \<and> world_wf w' \<and> incoming s' = rest \<and> live s' \<and>
    outgoing s' = outgoing s @ request_wire cmd (client_noack c) bodylen body"
proof -
  let ?d = "concat (map encode rs)" and ?q = "brk w" and ?n = "width * length rs"
  let ?w2 = "w\<lparr>brk := Suc ?q, bufs := (bufs w)(?q \<mapsto> map Some ?d)\<rparr>"
  have len': "unat (res_bodylen h) = length ?d" "length ?d < 2 ^ 31" using len length_array [OF fit] by simp_all
  obtain n b' s' V where en: "emq_list_query (Some a) build qcmd handler width init of_record (sess a c b s w)
      = Option.bind (parse_records width init of_record (Some (Suc ?q)) (Some ?q) 0 (res_bodylen h) V)
          (\<lambda>(all_done, w'). emq_list_finish (Some a) (Some (Suc ?q)) (Some ?q) all_done w')"
    "sess_ok c b'" "incoming s' = rest" "live s'"
    "outgoing s' = outgoing s @ request_wire cmd (client_noack c) bodylen body"
    "list_rep V (Suc ?q) (Some handler) []" "world_wf V" "brk V = Suc (Suc ?q)"
    "grows (Suc ?q) (sess a (c\<lparr>c_error := '''', c_pos := n\<rparr>) b' s' ?w2) V"
    using list_query_enter [OF assms(1-5) reply head len'] by blast
  let ?c = "c\<lparr>c_error := '''', c_pos := n\<rparr>"
  have noreq: "?q \<noteq> the (c_request c)" using wf by (auto simp: world_wf_sess_iff)
  have bufV: "bufs V ?q = Some (map Some ([] @ ?d))"
    using grows_fields(2) [OF en(9)] noreq by simp
  have memV: "\<forall>k \<ge> brk V. alloc_ok V k"
    using mem en(8) grows_fields(5) [OF en(9)] by simp
  have triv: "Suc ?q \<le> brk V" "\<forall>a \<in> fst ` set ([] :: (addr \<times> addr) list). Suc ?q \<le> a"
    "distinct (map snd ([] :: (addr \<times> addr) list))" "\<forall>v \<in> snd ` set ([] :: (addr \<times> addr) list). v < brk V"
    and triv': "unat (0 :: u32) = length ([] :: bytes)" "unat (res_bodylen h) = length ([] :: bytes) + ?n"
    using en(8) len(1) by simp_all
  obtain fin V3 ms xs where pr:
    "parse_records width init of_record (Some (Suc ?q)) (Some ?q) 0 (res_bodylen h) V = Some (fin, V3)"
    "grows (Suc ?q) V V3" "world_wf V3" "list_rep V3 (Suc ?q) (Some handler) (ms @ [])"
    "holds V3 ms (map object (rev xs))" "distinct (map snd (ms @ []))"
    "(\<forall>k \<ge> brk V. alloc_ok V k) \<longrightarrow> fin \<and> xs = rs"
    using parse_records_rep [OF en(7,6) order_refl triv bufV triv' fit] by (elim exE conjE) (rule that)
  have fin: "fin" "xs = rs" using pr(7) memV by simp_all
  obtain w3 where w3: "V3 = sess a ?c b' s' w3" "grows (Suc ?q) ?w2 w3"
    using grows_sess [OF grows_trans [OF en(9) pr(2)]] by blast
  let ?w' = "w3\<lparr>bufs := bufs w\<rparr>"
  have free: "free_buf (Some ?q) (sess a ?c b' s' w3) = Some (sess a ?c b' s' ?w')"
    using grows_fields(2) [OF w3(2)] noreq wf_sess_fresh(5) [OF wf, of ?q]
    by (subst free_buf_sess) (simp_all add: free_buf_def fun_upd_idem)
  have run: "emq_list_query (Some a) build qcmd handler width init of_record (sess a c b s w)
      = Some (Some (Suc ?q), sess a (settle None (c\<lparr>c_pos := n\<rparr>)) b' s' ?w')"
    using en(1) pr(1) fin(1) free w3(1) by (simp add: emq_list_finish_def)
  have "world_wf w3" using pr(3) w3(1) by (simp add: world_wf_sess_iff)
  then have "world_wf ?w'"
    using wf grows_fields(6) [OF w3(2)] by (simp add: world_wf_sess_iff) (simp add: world_wf_def)
  moreover have "list_rep ?w' (Suc ?q) (Some handler) ms" "holds ?w' ms (map object (rev rs))"
    using pr(4,5) w3(1) fin(2) by (simp_all add: list_rep_def holds_def)
  moreover have "grows ?q w ?w'"
    using w3(2) by (rule grows_temp_buffer) (rule le_SucI [OF order_refl], rule le_SucI [OF order_refl])
  moreover have "?q \<le> Suc ?q" by (rule le_SucI [OF order_refl])
  moreover have "distinct (map snd ms)" using pr(6) by simp
  ultimately show ?thesis
    using run en(2-5)
    by (intro exI [of _ "Suc ?q"] exI [of _ ms] exI [of _ n] exI [of _ b'] exI [of _ s'] exI [of _ ?w']) simp
qed

text \<open>A reply whose body is not a whole number of records: undefined behaviour.\<close>

lemma list_query_overread:
  assumes ready: "sess_ok c b" and ok and "live s" and wf: "world_wf (sess a c b s w)"
    and mem: "\<forall>k \<ge> brk w. alloc_ok w k"
    and reply: "incoming s = response_header_bytes h @ d @ rest"
    and head: "reply_error (reply_check_mini qcmd) h = None"
    and len: "unat (res_bodylen h) = length d" "length d < 2 ^ 31" and ragged: "length d mod width \<noteq> 0"
  shows "emq_list_query (Some a) build qcmd handler width init of_record (sess a c b s w) = None"
proof -
  let ?q = "brk w"
  obtain n b' s' V where en: "emq_list_query (Some a) build qcmd handler width init of_record (sess a c b s w)
      = Option.bind (parse_records width init of_record (Some (Suc ?q)) (Some ?q) 0 (res_bodylen h) V)
          (\<lambda>(all_done, w'). emq_list_finish (Some a) (Some (Suc ?q)) (Some ?q) all_done w')"
    "brk V = Suc (Suc ?q)"
    "grows (Suc ?q) (sess a (c\<lparr>c_error := '''', c_pos := n\<rparr>) b' s'
      (w\<lparr>brk := Suc ?q, bufs := (bufs w)(?q \<mapsto> map Some d)\<rparr>)) V"
    using list_query_enter [OF assms(1-9)] by blast
  have noreq: "?q \<noteq> the (c_request c)" using wf by (auto simp: world_wf_sess_iff)
  have "bufs V ?q = Some (map Some d)" "\<forall>k \<ge> brk V. alloc_ok V k"
    using grows_fields(2,5) [OF en(3)] noreq mem en(2) by simp_all
  then have "parse_records width init of_record (Some (Suc ?q)) (Some ?q) 0 (res_bodylen h) V = None"
    using parse_records_overread [of V ?q "map Some d" "res_bodylen h" 0] len(1) ragged by simp
  with en(1) show ?thesis by simp
qed

end

interpretation user_list_query: list_query emq_user_list_request True EMQ_PROTOCOL_CMD_USER_LIST 0 "[]"
  "64 + 8" emq_user_init user_of_record encode_user User
  "\<lambda>r. length (user_name r) = 32 \<and> length (user_password r) = 32"
  by unfold_locales

interpretation queue_list_query: list_query emq_queue_list_request True EMQ_PROTOCOL_CMD_QUEUE_LIST 0 "[]"
  "64 + 6 * 4" emq_queue_init queue_of_record encode_queue Queue "\<lambda>r. length (queue_name r) = 64"
  by unfold_locales

interpretation route_list_query: list_query emq_route_list_request True EMQ_PROTOCOL_CMD_ROUTE_LIST 0 "[]"
  "64 + 2 * 4" emq_route_init route_of_record encode_route Route "\<lambda>r. length (route_name r) = 64"
  by unfold_locales

interpretation route_keys_query: list_query "\<lambda>client. emq_route_keys_request client name" "strlenz name \<le> 64"
  EMQ_PROTOCOL_CMD_ROUTE_KEYS 64 "zfield 64 name"
  "32 + 64" emq_route_key_init route_key_of_record encode_route_key RouteKey
  "\<lambda>r. length (rk_key r) = 32 \<and> length (rk_queue r) = 64"
  for name
  by unfold_locales

interpretation channel_list_query: list_query emq_channel_list_request True EMQ_PROTOCOL_CMD_CHANNEL_LIST 0 "[]"
  "64 + 3 * 4" emq_channel_init channel_of_record encode_channel Channel "\<lambda>r. length (channel_name r) = 64"
  by unfold_locales

end
