(* ===== verification/Emq_Calls.thy ===== *)
theory Emq_Calls
  imports Emq_Commands
begin

text \<open>
  The acknowledged commands seen together: a call and its arguments as a value of \<open>emq_call\<close>,
  what it puts on the wire, what it makes of the reply, and sequences of calls on one
  connection.
\<close>

section \<open>The acknowledged commands as one type\<close>

text \<open>
  \<open>run_call\<close> makes the call. The other functions give its request: whether the arguments fit,
  the command code and the body that goes on the wire.
\<close>

datatype emq_call =
    Auth bytes bytes
  | Ping
  | Save byte
  | Flush u32
  | UserCreate bytes bytes u64
  | UserRename bytes bytes
  | UserSetPerm bytes u64
  | UserDelete bytes
  | QueueCreate bytes u32 u32 u32
  | QueueDeclare bytes
  | QueueRename bytes bytes
  | QueueConfirm bytes u64
  | QueuePurge bytes
  | QueueDelete bytes
  | RouteCreate bytes u32
  | RouteRename bytes bytes
  | RouteBind bytes bytes bytes
  | RouteUnbind bytes bytes bytes
  | RouteDelete bytes
  | ChannelCreate bytes u32
  | ChannelRename bytes bytes
  | ChannelDelete bytes

fun run_call :: "emq_call \<Rightarrow> ptr \<Rightarrow> world \<Rightarrow> (int \<times> world) option" where
  "run_call (Auth name password) client w = emq_auth client name password w"
| "run_call Ping client w = emq_ping client w"
| "run_call (Save is_async) client w = emq_save client is_async w"
| "run_call (Flush flags) client w = emq_flush client flags w"
| "run_call (UserCreate name password perm) client w = emq_user_create client name password perm w"
| "run_call (UserRename from_name to_name) client w = emq_user_rename client from_name to_name w"
| "run_call (UserSetPerm name perm) client w = emq_user_set_perm client name perm w"
| "run_call (UserDelete name) client w = emq_user_delete client name w"
| "run_call (QueueCreate name max_msg max_msg_size flags) client w = emq_queue_create client name max_msg max_msg_size flags w"
| "run_call (QueueDeclare name) client w = emq_queue_declare client name w"
| "run_call (QueueRename from_name to_name) client w = emq_queue_rename client from_name to_name w"
| "run_call (QueueConfirm name tag) client w = emq_queue_confirm client name tag w"
| "run_call (QueuePurge name) client w = emq_queue_purge client name w"
| "run_call (QueueDelete name) client w = emq_queue_delete client name w"
| "run_call (RouteCreate name flags) client w = emq_route_create client name flags w"
| "run_call (RouteRename from_name to_name) client w = emq_route_rename client from_name to_name w"
| "run_call (RouteBind name queue key) client w = emq_route_bind client name queue key w"
| "run_call (RouteUnbind name queue key) client w = emq_route_unbind client name queue key w"
| "run_call (RouteDelete name) client w = emq_route_delete client name w"
| "run_call (ChannelCreate name flags) client w = emq_channel_create client name flags w"
| "run_call (ChannelRename from_name to_name) client w = emq_channel_rename client from_name to_name w"
| "run_call (ChannelDelete name) client w = emq_channel_delete client name w"

fun call_build :: "emq_call \<Rightarrow> ptr \<Rightarrow> world \<Rightarrow> (int \<times> world) option" where
  "call_build (Auth name password) = (\<lambda>client. emq_auth_request client name password)"
| "call_build Ping = emq_ping_request"
| "call_build (Save is_async) = (\<lambda>client. emq_save_request client is_async)"
| "call_build (Flush flags) = (\<lambda>client. emq_flush_request client flags)"
| "call_build (UserCreate name password perm) = (\<lambda>client. emq_user_create_request client name password perm)"
| "call_build (UserRename from_name to_name) = (\<lambda>client. emq_user_rename_request client from_name to_name)"
| "call_build (UserSetPerm name perm) = (\<lambda>client. emq_user_set_perm_request client name perm)"
| "call_build (UserDelete name) = (\<lambda>client. emq_user_delete_request client name)"
| "call_build (QueueCreate name max_msg max_msg_size flags) = (\<lambda>client. emq_queue_create_request client name max_msg max_msg_size flags)"
| "call_build (QueueDeclare name) = (\<lambda>client. emq_queue_declare_request client name)"
| "call_build (QueueRename from_name to_name) = (\<lambda>client. emq_queue_rename_request client from_name to_name)"
| "call_build (QueueConfirm name tag) = (\<lambda>client. emq_queue_confirm_request client name tag)"
| "call_build (QueuePurge name) = (\<lambda>client. emq_queue_purge_request client name)"
| "call_build (QueueDelete name) = (\<lambda>client. emq_queue_delete_request client name)"
| "call_build (RouteCreate name flags) = (\<lambda>client. emq_route_create_request client name flags)"
| "call_build (RouteRename from_name to_name) = (\<lambda>client. emq_route_rename_request client from_name to_name)"
| "call_build (RouteBind name queue key) = (\<lambda>client. emq_route_bind_request client name queue key)"
| "call_build (RouteUnbind name queue key) = (\<lambda>client. emq_route_unbind_request client name queue key)"
| "call_build (RouteDelete name) = (\<lambda>client. emq_route_delete_request client name)"
| "call_build (ChannelCreate name flags) = (\<lambda>client. emq_channel_create_request client name flags)"
| "call_build (ChannelRename from_name to_name) = (\<lambda>client. emq_channel_rename_request client from_name to_name)"
| "call_build (ChannelDelete name) = (\<lambda>client. emq_channel_delete_request client name)"

fun call_ok :: "emq_call \<Rightarrow> bool" where
  "call_ok (Auth name password) \<longleftrightarrow> strlenz name \<le> 32 \<and> strlenz password \<le> 32"
| "call_ok Ping \<longleftrightarrow> True"
| "call_ok (Save is_async) \<longleftrightarrow> True"
| "call_ok (Flush flags) \<longleftrightarrow> True"
| "call_ok (UserCreate name password perm) \<longleftrightarrow> strlenz name \<le> 32 \<and> strlenz password \<le> 32"
| "call_ok (UserRename from_name to_name) \<longleftrightarrow> strlenz from_name \<le> 32 \<and> strlenz to_name \<le> 32"
| "call_ok (UserSetPerm name perm) \<longleftrightarrow> strlenz name \<le> 32"
| "call_ok (UserDelete name) \<longleftrightarrow> strlenz name \<le> 32"
| "call_ok (QueueCreate name max_msg max_msg_size flags) \<longleftrightarrow> strlenz name \<le> 64"
| "call_ok (QueueDeclare name) \<longleftrightarrow> strlenz name \<le> 64"
| "call_ok (QueueRename from_name to_name) \<longleftrightarrow> strlenz from_name \<le> 64 \<and> strlenz to_name \<le> 64"
| "call_ok (QueueConfirm name tag) \<longleftrightarrow> strlenz name \<le> 64"
| "call_ok (QueuePurge name) \<longleftrightarrow> strlenz name \<le> 64"
| "call_ok (QueueDelete name) \<longleftrightarrow> strlenz name \<le> 64"
| "call_ok (RouteCreate name flags) \<longleftrightarrow> strlenz name \<le> 64"
| "call_ok (RouteRename from_name to_name) \<longleftrightarrow> strlenz from_name \<le> 64 \<and> strlenz to_name \<le> 64"
| "call_ok (RouteBind name queue key) \<longleftrightarrow> strlenz name \<le> 64 \<and> strlenz queue \<le> 64 \<and> strlenz key \<le> 32"
| "call_ok (RouteUnbind name queue key) \<longleftrightarrow> strlenz name \<le> 64 \<and> strlenz queue \<le> 64 \<and> strlenz key \<le> 32"
| "call_ok (RouteDelete name) \<longleftrightarrow> strlenz name \<le> 64"
| "call_ok (ChannelCreate name flags) \<longleftrightarrow> strlenz name \<le> 64"
| "call_ok (ChannelRename from_name to_name) \<longleftrightarrow> strlenz from_name \<le> 64 \<and> strlenz to_name \<le> 64"
| "call_ok (ChannelDelete name) \<longleftrightarrow> strlenz name \<le> 64"

fun call_cmd :: "emq_call \<Rightarrow> protocol_command" where
  "call_cmd (Auth name password) = EMQ_PROTOCOL_CMD_AUTH"
| "call_cmd Ping = EMQ_PROTOCOL_CMD_PING"
| "call_cmd (Save is_async) = EMQ_PROTOCOL_CMD_SAVE"
| "call_cmd (Flush flags) = EMQ_PROTOCOL_CMD_FLUSH"
| "call_cmd (UserCreate name password perm) = EMQ_PROTOCOL_CMD_USER_CREATE"
| "call_cmd (UserRename from_name to_name) = EMQ_PROTOCOL_CMD_USER_RENAME"
| "call_cmd (UserSetPerm name perm) = EMQ_PROTOCOL_CMD_USER_SET_PERM"
| "call_cmd (UserDelete name) = EMQ_PROTOCOL_CMD_USER_DELETE"
| "call_cmd (QueueCreate name max_msg max_msg_size flags) = EMQ_PROTOCOL_CMD_QUEUE_CREATE"
| "call_cmd (QueueDeclare name) = EMQ_PROTOCOL_CMD_QUEUE_DECLARE"
| "call_cmd (QueueRename from_name to_name) = EMQ_PROTOCOL_CMD_QUEUE_RENAME"
| "call_cmd (QueueConfirm name tag) = EMQ_PROTOCOL_CMD_QUEUE_CONFIRM"
| "call_cmd (QueuePurge name) = EMQ_PROTOCOL_CMD_QUEUE_PURGE"
| "call_cmd (QueueDelete name) = EMQ_PROTOCOL_CMD_QUEUE_DELETE"
| "call_cmd (RouteCreate name flags) = EMQ_PROTOCOL_CMD_ROUTE_CREATE"
| "call_cmd (RouteRename from_name to_name) = EMQ_PROTOCOL_CMD_ROUTE_RENAME"
| "call_cmd (RouteBind name queue key) = EMQ_PROTOCOL_CMD_ROUTE_BIND"
| "call_cmd (RouteUnbind name queue key) = EMQ_PROTOCOL_CMD_ROUTE_UNBIND"
| "call_cmd (RouteDelete name) = EMQ_PROTOCOL_CMD_ROUTE_DELETE"
| "call_cmd (ChannelCreate name flags) = EMQ_PROTOCOL_CMD_CHANNEL_CREATE"
| "call_cmd (ChannelRename from_name to_name) = EMQ_PROTOCOL_CMD_CHANNEL_RENAME"
| "call_cmd (ChannelDelete name) = EMQ_PROTOCOL_CMD_CHANNEL_DELETE"

fun call_body :: "emq_call \<Rightarrow> bytes" where
  "call_body (Auth name password) = zfield 32 name @ zfield 32 password"
| "call_body Ping = []"
| "call_body (Save is_async) = [is_async]"
| "call_body (Flush flags) = le_bytes 4 flags"
| "call_body (UserCreate name password perm) = zfield 32 name @ zfield 32 password @ le_bytes 8 perm"
| "call_body (UserRename from_name to_name) = zfield 32 from_name @ zfield 32 to_name"
| "call_body (UserSetPerm name perm) = zfield 32 name @ le_bytes 8 perm"
| "call_body (UserDelete name) = zfield 32 name"
| "call_body (QueueCreate name max_msg max_msg_size flags) = zfield 64 name @ le_bytes 4 max_msg @ le_bytes 4 max_msg_size @ le_bytes 4 flags"
| "call_body (QueueDeclare name) = zfield 64 name"
| "call_body (QueueRename from_name to_name) = zfield 64 from_name @ zfield 64 to_name"
| "call_body (QueueConfirm name tag) = zfield 64 name @ le_bytes 8 tag"
| "call_body (QueuePurge name) = zfield 64 name"
| "call_body (QueueDelete name) = zfield 64 name"
| "call_body (RouteCreate name flags) = zfield 64 name @ le_bytes 4 flags"
| "call_body (RouteRename from_name to_name) = zfield 64 from_name @ zfield 64 to_name"
| "call_body (RouteBind name queue key) = zfield 64 name @ zfield 64 queue @ zfield 32 key"
| "call_body (RouteUnbind name queue key) = zfield 64 name @ zfield 64 queue @ zfield 32 key"
| "call_body (RouteDelete name) = zfield 64 name"
| "call_body (ChannelCreate name flags) = zfield 64 name @ le_bytes 4 flags"
| "call_body (ChannelRename from_name to_name) = zfield 64 from_name @ zfield 64 to_name"
| "call_body (ChannelDelete name) = zfield 64 name"


text \<open>\<open>QUEUE_CONFIRM\<close> is the one acknowledged command that does not look at the length of the reply.\<close>

fun call_check :: "emq_call \<Rightarrow> protocol_response_header \<Rightarrow> int" where
  "call_check (QueueConfirm name tag) = reply_check_mini EMQ_PROTOCOL_CMD_QUEUE_CONFIRM"
| "call_check call = reply_check (call_cmd call) 0"

definition call_wire :: "emq_call \<Rightarrow> byte \<Rightarrow> bytes" where
  "call_wire call noack =
     request_wire (call_cmd call) noack (word_of_nat (length (call_body call))) (call_body call)"

definition call_request :: "emq_call \<Rightarrow> byte \<Rightarrow> bytes option" where
  "call_request call noack = (if call_ok call then Some (call_wire call noack) else None)"

section \<open>One call\<close>

lemma run_call_command: "run_call call client w = emq_command client (call_build call) (call_check call) w"
  by (cases call) (simp_all add: emq_auth_def emq_ping_def emq_save_def emq_flush_def emq_user_create_def
      emq_user_rename_def emq_user_set_perm_def emq_user_delete_def emq_queue_create_def
      emq_queue_declare_def emq_queue_rename_def emq_queue_confirm_def emq_queue_purge_def
      emq_queue_delete_def emq_route_create_def emq_route_rename_def emq_route_bind_def
      emq_route_unbind_def emq_route_delete_def emq_channel_create_def emq_channel_rename_def
      emq_channel_delete_def)

lemma request_builder_length:
  "request_builder build ok cmd n body \<Longrightarrow> (ok \<Longrightarrow> n = n') \<Longrightarrow> request_builder build ok cmd n' body"
  unfolding request_builder_def by blast

lemmas call_builders =
  auth_req.request_builder_axioms ping_req.request_builder_axioms save_req.request_builder_axioms
  flush_req.request_builder_axioms user_create_req.request_builder_axioms
  user_rename_req.request_builder_axioms user_set_perm_req.request_builder_axioms
  user_delete_req.request_builder_axioms queue_create_req.request_builder_axioms
  queue_declare_req.request_builder_axioms queue_rename_req.request_builder_axioms
  queue_confirm_req.request_builder_axioms queue_purge_req.request_builder_axioms
  queue_delete_req.request_builder_axioms route_create_req.request_builder_axioms
  route_rename_req.request_builder_axioms route_bind_req.request_builder_axioms
  route_unbind_req.request_builder_axioms route_delete_req.request_builder_axioms
  channel_create_req.request_builder_axioms channel_rename_req.request_builder_axioms
  channel_delete_req.request_builder_axioms

interpretation call: request_builder
  "call_build call" "call_ok call" "call_cmd call" "word_of_nat (length (call_body call))" "call_body call"
  for call
  by (cases call; simp; rule request_builder_length; (rule call_builders | simp))

lemma wire_request_call:
  "wire_request (call_ok call) (call_cmd call) noack (word_of_nat (length (call_body call))) (call_body call)
     = call_request call noack"
  by (simp add: wire_request_def call_request_def call_wire_def)

text \<open>The codes are pairwise different, so a reply to one command is not taken for another's.\<close>

lemma cmd_code_inject: "cmd_code c = cmd_code d \<longleftrightarrow> c = d"
  by (cases c; cases d; simp)

instantiation protocol_command :: linorder
begin

definition less_eq_protocol_command :: "protocol_command \<Rightarrow> protocol_command \<Rightarrow> bool" where
  "c \<le> d \<longleftrightarrow> cmd_code c \<le> cmd_code d"

definition less_protocol_command :: "protocol_command \<Rightarrow> protocol_command \<Rightarrow> bool" where
  "c < d \<longleftrightarrow> cmd_code c < cmd_code d"

instance
  by standard (auto simp: less_eq_protocol_command_def less_protocol_command_def
      simp flip: cmd_code_inject)

end

lemma run_call_sess:
  assumes "sess_ok c b"
  shows "\<exists>e n b' s'. run_call call (Some a) (sess a c b s w)
      = Some (result_of e, sess a (settle e (c\<lparr>c_pos := n\<rparr>)) b' s' w) \<and> sess_ok c b' \<and>
    acked_call (call_request call (client_noack c)) (c_noack c) (call_check call) s e s'"
  using call.command_sess [OF assms, of a call "call_check call" s w]
  by (simp add: run_call_command wire_request_call)

lemma run_call_live:
  assumes "sess_ok c b" and "call_ok call" and "live s" and "c_noack c = 0"
    and "incoming s = response_header_bytes h @ rest"
  shows "\<exists>n b' s'. run_call call (Some a) (sess a c b s w)
      = Some (result_of (reply_error (call_check call) h),
          sess a (settle (reply_error (call_check call) h) (c\<lparr>c_pos := n\<rparr>)) b' s' w) \<and>
    sess_ok c b' \<and> incoming s' = rest \<and> live s' \<and>
    outgoing s' = outgoing s @ call_wire call (client_noack c)"
  using call.command_live [OF assms, of a "call_check call" w]
  by (simp add: run_call_command call_wire_def)

lemma run_call_rejected:
  assumes "sess_ok c b" and "\<not> call_ok call"
  shows "run_call call (Some a) (sess a c b s w)
    = Some (EMQ_STATUS_ERR, sess a (settle (Some EMQ_ERROR_DATA) c) b s w)"
  using call.command_rejected [OF assms] by (simp add: run_call_command)

lemma run_call_noack:
  assumes "sess_ok c b" and "call_ok call" and "live s" and "c_noack c \<noteq> 0"
  shows "\<exists>n b' s'. run_call call (Some a) (sess a c b s w)
      = Some (EMQ_STATUS_OK, sess a (settle None (c\<lparr>c_pos := n\<rparr>)) b' s' w) \<and>
    sess_ok c b' \<and> incoming s' = incoming s \<and> live s' \<and>
    outgoing s' = outgoing s @ call_wire call (client_noack c)"
  using call.command_noack [OF assms, of a "call_check call" w]
  by (simp add: run_call_command call_wire_def)

section \<open>Sequences of calls\<close>

fun run_calls :: "emq_call list \<Rightarrow> ptr \<Rightarrow> world \<Rightarrow> (int list \<times> world) option" where
  "run_calls [] client w = Some ([], w)"
| "run_calls (call # calls) client w = do {
     (r, w) \<leftarrow> run_call call client w;
     (rs, w) \<leftarrow> run_calls calls client w;
     Some (r # rs, w) }"

text \<open>The results a sequence must have when the server answers the accepted calls with \<open>hs\<close>.\<close>

fun call_outcomes :: "emq_call list \<Rightarrow> protocol_response_header list \<Rightarrow> emq_error option list" where
  "call_outcomes [] hs = []"
| "call_outcomes (call # calls) hs =
     (if \<not> call_ok call then Some EMQ_ERROR_DATA # call_outcomes calls hs
      else case hs of [] \<Rightarrow> []
        | h # hs \<Rightarrow> reply_error (call_check call) h # call_outcomes calls hs)"

definition calls_wire :: "emq_call list \<Rightarrow> byte \<Rightarrow> bytes" where
  "calls_wire calls noack = concat (map (\<lambda>call. call_wire call noack) (filter call_ok calls))"

text \<open>
  A sequence of calls stays in step with the server: the requests of the accepted calls go out
  in order, each call takes its own reply, and what follows the replies is untouched.
\<close>

lemma run_calls_in_step:
  assumes "sess_ok c b" and "live s" and "c_noack c = 0"
    and "length hs = length (filter call_ok calls)"
    and "incoming s = concat (map response_header_bytes hs) @ rest"
  shows "\<exists>c' b' s'. run_calls calls (Some a) (sess a c b s w)
      = Some (map result_of (call_outcomes calls hs), sess a c' b' s' w) \<and>
    sess_ok c' b' \<and> same_client c c' \<and> incoming s' = rest \<and> live s' \<and>
    outgoing s' = outgoing s @ calls_wire calls (client_noack c)"
  using assms
proof (induction calls arbitrary: c b s hs)
  case Nil
  then show ?case
    by (intro exI [of _ c] exI [of _ b] exI [of _ s]) (simp add: calls_wire_def)
next
  case (Cons call calls)
  show ?case
  proof (cases "call_ok call")
    case False
    let ?c = "settle (Some EMQ_ERROR_DATA) c"
    have "sess_ok ?c b" "c_noack ?c = 0" "client_noack ?c = client_noack c"
      using Cons.prems by (simp_all add: client_noack_def)
    with Cons.IH [of ?c b s hs] Cons.prems False obtain c' b' s' where
      "run_calls calls (Some a) (sess a ?c b s w) = Some (map result_of (call_outcomes calls hs), sess a c' b' s' w)"
      "sess_ok c' b'" "same_client ?c c'" "incoming s' = rest" "live s'"
      "outgoing s' = outgoing s @ calls_wire calls (client_noack c)" by auto
    moreover from this(3) have "same_client c c'"
      using same_client_trans [of c ?c c'] by simp
    ultimately show ?thesis
      using False run_call_rejected [OF Cons.prems(1) False]
      by (intro exI [of _ c'] exI [of _ b'] exI [of _ s']) (auto simp: calls_wire_def)
  next
    case True
    with Cons.prems(4) obtain h hs' where hs: "hs = h # hs'" by (cases hs) auto
    let ?e = "reply_error (call_check call) h"
    from Cons.prems hs have inc: "incoming s = response_header_bytes h @ concat (map response_header_bytes hs') @ rest"
      by simp
    from run_call_live [OF Cons.prems(1) True Cons.prems(2,3) inc, of a w] obtain n b1 s1 where one:
      "run_call call (Some a) (sess a c b s w) = Some (result_of ?e, sess a (settle ?e (c\<lparr>c_pos := n\<rparr>)) b1 s1 w)"
      "sess_ok c b1" "incoming s1 = concat (map response_header_bytes hs') @ rest" "live s1"
      "outgoing s1 = outgoing s @ call_wire call (client_noack c)" by auto
    let ?c = "settle ?e (c\<lparr>c_pos := n\<rparr>)"
    have "sess_ok ?c b1" "c_noack ?c = 0" "client_noack ?c = client_noack c" "same_client c ?c"
      using one(2) Cons.prems(3) by (simp_all add: client_noack_def)
    with Cons.IH [of ?c b1 s1 hs'] one Cons.prems(4) hs True obtain c' b' s' where
      "run_calls calls (Some a) (sess a ?c b1 s1 w) = Some (map result_of (call_outcomes calls hs'), sess a c' b' s' w)"
      "sess_ok c' b'" "same_client ?c c'" "incoming s' = rest" "live s'"
      "outgoing s' = outgoing s1 @ calls_wire calls (client_noack c)" by auto
    moreover from this(3) have "same_client c c'"
      using same_client_trans [OF \<open>same_client c ?c\<close>] by simp
    ultimately show ?thesis
      using one hs True by (intro exI [of _ c'] exI [of _ b'] exI [of _ s']) (auto simp: calls_wire_def)
  qed
qed

section \<open>The request stream as the server reads it\<close>

text \<open>
  A reader that splits a stream at the lengths the headers announce, and stops when no whole
  request is left.
\<close>

function split_requests :: "bytes \<Rightarrow> (protocol_request_header \<times> bytes) list" where
  "split_requests bs =
     (if length bs < sizeof_header then []
      else
        let h = request_header_of bs; n = unat (req_bodylen h); tail = drop sizeof_header bs in
        if length tail < n then [] else (h, take n tail) # split_requests (drop n tail))"
  by pat_completeness auto
termination
  by (relation "measure length") (auto simp: sizeof_header_def)

declare split_requests.simps [simp del]

definition call_header :: "emq_call \<Rightarrow> byte \<Rightarrow> protocol_request_header" where
  "call_header call noack = emq_set_header_request (cmd_code (call_cmd call)) noack
     (word_of_nat (length (call_body call)))"

lemma call_body_short: "call_ok call \<Longrightarrow> length (call_body call) \<le> 160"
  by (rule call.body_fits)

lemma split_requests_call:
  assumes "call_ok call"
  shows "split_requests (call_wire call noack @ rest) =
    (call_header call noack, call_body call) # split_requests rest"
proof -
  have len: "unat (word_of_nat (length (call_body call)) :: u32) = length (call_body call)"
    using call_body_short [OF assms] by (simp add: unat_of_nat)
  have hdr: "request_header_of (call_wire call noack @ rest) = call_header call noack"
    using request_header_roundtrip [of "call_header call noack" "call_body call @ rest"]
    by (simp add: call_wire_def request_wire_def call_header_def)
  have tail: "drop sizeof_header (call_wire call noack @ rest) = call_body call @ rest"
    by (simp add: call_wire_def request_wire_def)
  have "req_bodylen (call_header call noack) = word_of_nat (length (call_body call))"
    by (simp add: call_header_def emq_set_header_request_def)
  then show ?thesis
    by (subst split_requests.simps) (simp add: hdr tail len Let_def, simp add: call_wire_def request_wire_def)
qed

lemma split_requests_calls:
  "split_requests (calls_wire calls noack) =
    map (\<lambda>call. (call_header call noack, call_body call)) (filter call_ok calls)"
proof (induction calls)
  case Nil
  then show ?case
    by (subst split_requests.simps) (simp add: calls_wire_def sizeof_header_def)
next
  case (Cons call calls)
  then show ?case
    using split_requests_call [of call noack "calls_wire calls noack"] by (simp add: calls_wire_def)
qed

end
