(* ===== verification/Emq_Subscribe.thy ===== *)
theory Emq_Subscribe
  imports Emq_Commands Emq_Memory
begin

text \<open>
  Subscriptions of \<^verbatim>\<open>src/src/emq.c\<close>: the commands that add one to a list of the client, the commands
  that remove them by name, and the search an event makes.

  Queues and channels keep their subscriptions in two lists of the same kind. What the code
  relies on, a name that is terminated inside its 64 byte field, is the locale
  \<open>subscription_kind\<close>, interpreted for both; the removal loop and the search are verified there
  once. The commands are shown to preserve the invariant of the client and to act on the lists
  as \<open>Cons\<close> and \<open>filter\<close>.
\<close>

section \<open>The commands\<close>

text \<open>\<open>subscription->name\<close> through the type the code gives the list value.\<close>

fun queue_sub_name :: "emq_object \<Rightarrow> bytes option" where
  "queue_sub_name (QueueSubscription s) = Some (qs_name s)"
| "queue_sub_name _ = None"

fun channel_sub_name :: "emq_object \<Rightarrow> bytes option" where
  "channel_sub_name (ChannelSubscription s) = Some (cs_name s)"
| "channel_sub_name _ = None"

text \<open>
  The common text of the three subscribe commands; \<open>create\<close> makes the subscription and \<open>subs\<close>
  picks the list. The error is cleared by the first line, and again by \<open>emq_handshake\<close>. The result of \<open>emq_list_add_value\<close> is not looked at.
\<close>

definition emq_subscribe :: "ptr \<Rightarrow> callback option \<Rightarrow> (ptr \<Rightarrow> world \<Rightarrow> (int \<times> world) option) \<Rightarrow>
    (protocol_response_header \<Rightarrow> int) \<Rightarrow> (callback \<Rightarrow> world \<Rightarrow> (ptr \<times> world) option) \<Rightarrow>
    (emq_client \<Rightarrow> ptr) \<Rightarrow> world \<Rightarrow> (int \<times> world) option" where
  "emq_subscribe client callback build check create subs w = do {
     w \<leftarrow> EMQ_CLEAR_ERROR client w;
     case callback of
       None \<Rightarrow> do {
         w \<leftarrow> emq_client_set_error client EMQ_ERROR_DATA w;
         emq_exit client False EMQ_STATUS_ERR w }
     | Some cb \<Rightarrow> do {
         (ok, w) \<leftarrow> emq_handshake client build check w;
         if \<not> ok then emq_exit client False EMQ_STATUS_ERR w
         else do {
           (subscription, w) \<leftarrow> create cb w;
           case subscription of
             None \<Rightarrow> do {
               w \<leftarrow> emq_client_set_error client EMQ_ERROR_ALLOC w;
               emq_exit client False EMQ_STATUS_ERR w }
           | Some v \<Rightarrow> do {
               c \<leftarrow> get_client client w;
               (_, w) \<leftarrow> emq_list_add_value (subs c) v w;
               emq_exit client True EMQ_STATUS_OK w } } } }"

definition emq_queue_subscribe :: "ptr \<Rightarrow> bytes \<Rightarrow> u32 \<Rightarrow> callback option \<Rightarrow> world \<Rightarrow> (int \<times> world) option" where
  "emq_queue_subscribe client name flags callback w =
     emq_subscribe client callback (\<lambda>client. emq_queue_subscribe_request client name flags)
       (reply_check EMQ_PROTOCOL_CMD_QUEUE_SUBSCRIBE 0)
       (emq_queue_subscription_create name) c_queue_subscriptions w"

definition emq_channel_subscribe :: "ptr \<Rightarrow> bytes \<Rightarrow> bytes \<Rightarrow> callback option \<Rightarrow> world \<Rightarrow> (int \<times> world) option" where
  "emq_channel_subscribe client name topic callback w =
     emq_subscribe client callback (\<lambda>client. emq_channel_subscribe_request client name topic)
       (reply_check EMQ_PROTOCOL_CMD_CHANNEL_SUBSCRIBE 0)
       (emq_channel_subscription_create name topic) c_channel_subscriptions w"

definition emq_channel_psubscribe :: "ptr \<Rightarrow> bytes \<Rightarrow> bytes \<Rightarrow> callback option \<Rightarrow> world \<Rightarrow> (int \<times> world) option" where
  "emq_channel_psubscribe client name pattern callback w =
     emq_subscribe client callback (\<lambda>client. emq_channel_psubscribe_request client name pattern)
       (reply_check EMQ_PROTOCOL_CMD_CHANNEL_PSUBSCRIBE 0)
       (emq_channel_subscription_create name pattern) c_channel_subscriptions w"

text \<open>The loop of the unsubscribe commands: the iterator is advanced before the node may go.\<close>

partial_function (option) remove_subscriptions :: "(emq_object \<Rightarrow> bytes option) \<Rightarrow> ptr \<Rightarrow>
    emq_list_iterator \<Rightarrow> bytes \<Rightarrow> world \<Rightarrow> world option" where
  "remove_subscriptions sub_name list iter name w = do {
     (node, iter) \<leftarrow> emq_list_next iter w;
     case node of
       None \<Rightarrow> Some w
     | Some a \<Rightarrow> do {
         n \<leftarrow> nodes w a;
         subscription \<leftarrow> objs w (node_value n);
         sname \<leftarrow> sub_name subscription;
         same \<leftarrow> strcmp_eq sname (cstrz name);
         w \<leftarrow> (if same then emq_list_delete_node list node w else Some w);
         remove_subscriptions sub_name list iter name w } }"

definition emq_unsubscribe :: "ptr \<Rightarrow> (ptr \<Rightarrow> world \<Rightarrow> (int \<times> world) option) \<Rightarrow>
    (protocol_response_header \<Rightarrow> int) \<Rightarrow> (emq_object \<Rightarrow> bytes option) \<Rightarrow> (emq_client \<Rightarrow> ptr) \<Rightarrow>
    bytes \<Rightarrow> world \<Rightarrow> (int \<times> world) option" where
  "emq_unsubscribe client build check sub_name subs name w = do {
     (ok, w) \<leftarrow> emq_handshake client build check w;
     if \<not> ok then emq_exit client False EMQ_STATUS_ERR w
     else do {
       c \<leftarrow> get_client client w;
       iter \<leftarrow> emq_list_rewind (subs c) w;
       w \<leftarrow> remove_subscriptions sub_name (subs c) iter name w;
       emq_exit client True EMQ_STATUS_OK w } }"

definition emq_queue_unsubscribe :: "ptr \<Rightarrow> bytes \<Rightarrow> world \<Rightarrow> (int \<times> world) option" where
  "emq_queue_unsubscribe client name w =
     emq_unsubscribe client (\<lambda>client. emq_queue_unsubscribe_request client name)
       (reply_check EMQ_PROTOCOL_CMD_QUEUE_UNSUBSCRIBE 0) queue_sub_name c_queue_subscriptions name w"

definition emq_channel_unsubscribe :: "ptr \<Rightarrow> bytes \<Rightarrow> bytes \<Rightarrow> world \<Rightarrow> (int \<times> world) option" where
  "emq_channel_unsubscribe client name topic w =
     emq_unsubscribe client (\<lambda>client. emq_channel_unsubscribe_request client name topic)
       (reply_check EMQ_PROTOCOL_CMD_CHANNEL_UNSUBSCRIBE 0) channel_sub_name c_channel_subscriptions name w"

text \<open>The reply is checked against the command code of \<open>UNSUBSCRIBE\<close>, not of \<open>PUNSUBSCRIBE\<close>.\<close>

definition emq_channel_punsubscribe :: "ptr \<Rightarrow> bytes \<Rightarrow> bytes \<Rightarrow> world \<Rightarrow> (int \<times> world) option" where
  "emq_channel_punsubscribe client name pattern w =
     emq_unsubscribe client (\<lambda>client. emq_channel_punsubscribe_request client name pattern)
       (reply_check EMQ_PROTOCOL_CMD_CHANNEL_UNSUBSCRIBE 0) channel_sub_name c_channel_subscriptions name w"

text \<open>
  The search loop of the event handlers: the value of the first node whose name equals the 64
  bytes received, or the null pointer.
\<close>

partial_function (option) find_subscription :: "(emq_object \<Rightarrow> bytes option) \<Rightarrow>
    emq_list_iterator \<Rightarrow> bytes \<Rightarrow> world \<Rightarrow> ptr option" where
  "find_subscription sub_name iter name w = do {
     (node, iter) \<leftarrow> emq_list_next iter w;
     case node of
       None \<Rightarrow> Some None
     | Some a \<Rightarrow> do {
         n \<leftarrow> nodes w a;
         subscription \<leftarrow> objs w (node_value n);
         sname \<leftarrow> sub_name subscription;
         same \<leftarrow> strcmp_eq sname name;
         if same then Some (Some (node_value n))
         else find_subscription sub_name iter name w } }"

section \<open>The loops over a subscription list\<close>

text \<open>The name of a subscription as a C string.\<close>

definition sub_title :: "(emq_object \<Rightarrow> bytes option) \<Rightarrow> world \<Rightarrow> addr \<Rightarrow> bytes" where
  "sub_title sub_name w v = cstr (the (sub_name (the (objs w v))))"

locale subscription_kind =
  fixes sub_name :: "emq_object \<Rightarrow> bytes option"
    and is_sub :: "world \<Rightarrow> addr \<Rightarrow> bool"
  assumes sub_read: "is_sub w v \<Longrightarrow>
      \<exists>x nm. objs w v = Some x \<and> sub_name x = Some nm \<and> length nm = 64 \<and> 0 \<in> set nm"
    and sub_local: "objs w' v = objs w v \<Longrightarrow> is_sub w' v = is_sub w v"

lemma remove_subscriptions_step:
  "remove_subscriptions sub_name list iter name w = do {
     (node, iter) \<leftarrow> emq_list_next iter w;
     case node of
       None \<Rightarrow> Some w
     | Some a \<Rightarrow> do {
         n \<leftarrow> nodes w a;
         subscription \<leftarrow> objs w (node_value n);
         sname \<leftarrow> sub_name subscription;
         same \<leftarrow> strcmp_eq sname (cstrz name);
         w \<leftarrow> (if same then emq_list_delete_node list node w else Some w);
         remove_subscriptions sub_name list iter name w } }"
  by (subst remove_subscriptions.simps) (rule refl)

lemma find_subscription_step:
  "find_subscription sub_name iter name w = do {
     (node, iter) \<leftarrow> emq_list_next iter w;
     case node of
       None \<Rightarrow> Some None
     | Some a \<Rightarrow> do {
         n \<leftarrow> nodes w a;
         subscription \<leftarrow> objs w (node_value n);
         sname \<leftarrow> sub_name subscription;
         same \<leftarrow> strcmp_eq sname name;
         if same then Some (Some (node_value n))
         else find_subscription sub_name iter name w } }"
  by (subst find_subscription.simps) (rule refl)

context subscription_kind
begin

lemma compare_name:
  assumes "is_sub w v"
  shows "\<exists>x nm. objs w v = Some x \<and> sub_name x = Some nm \<and>
    strcmp_eq nm (cstrz name) = Some (sub_title sub_name w v = cstr name) \<and>
    (length raw = 64 \<longrightarrow> strcmp_eq nm raw = Some (sub_title sub_name w v = cstr raw))"
proof -
  obtain x nm where x: "objs w v = Some x" "sub_name x = Some nm" "length nm = 64" "0 \<in> set nm"
    using sub_read [OF assms] by blast
  then show ?thesis
    using strcmp_eq_cstr [of nm "cstrz name"] strcmp_eq_cstr [of nm raw]
    by (intro exI [of _ x] exI [of _ nm]) (simp add: sub_title_def)
qed

text \<open>The search finds the first subscription with the name.\<close>

lemma find_subscription_rep:
  assumes "list_rep w lp fr (xs @ ys)" and "\<forall>v \<in> snd ` set ys. is_sub w v" and "length raw = 64"
  shows "find_subscription sub_name (first_ptr ys None) raw w =
    Some (map_option snd (List.find (\<lambda>(a, v). sub_title sub_name w v = cstr raw) ys))"
  using assms
proof (induction ys arbitrary: xs)
  case Nil
  then show ?case by (subst find_subscription_step) simp
next
  case (Cons av ys)
  obtain a v where av: "av = (a, v)" by (cases av)
  note nxt = emq_list_next_rep [OF Cons.prems(1) [unfolded av]]
  obtain n where n: "nodes w a = Some n" "node_value n = v" using nxt(2) by blast
  obtain x nm where x: "objs w v = Some x" "sub_name x = Some nm"
    "strcmp_eq nm raw = Some (sub_title sub_name w v = cstr raw)"
    using compare_name [of w v "[]" raw] Cons.prems(2,3) av by auto
  have "find_subscription sub_name (first_ptr ys None) raw w =
      Some (map_option snd (List.find (\<lambda>(a, v). sub_title sub_name w v = cstr raw) ys))"
    using Cons.IH [of "xs @ [av]"] Cons.prems by simp
  with nxt(1) n x av show ?case
    by (subst find_subscription_step) simp
qed

text \<open>The removal loop is \<open>filter\<close>, and frees exactly the subscriptions it removes.\<close>

lemma remove_subscriptions_rep:
  assumes "list_rep w lp (Some h) (xs @ ys)" and "\<forall>v \<in> snd ` set ys. is_sub w v"
    and "distinct (map snd ys)"
  shows "\<exists>w'. remove_subscriptions sub_name (Some lp) (first_ptr ys None) name w = Some w' \<and>
    list_rep w' lp (Some h) (xs @ filter (\<lambda>(a, v). sub_title sub_name w v \<noteq> cstr name) ys) \<and>
    edits lp (fst ` set (xs @ ys)) (snd ` set (filter (\<lambda>(a, v). sub_title sub_name w v = cstr name) ys)) w w' \<and>
    objs w' = objs w |` (- snd ` set (filter (\<lambda>(a, v). sub_title sub_name w v = cstr name) ys))"
  using assms
proof (induction ys arbitrary: xs w)
  case Nil
  then show ?case
    by (intro exI [of _ w]) (subst remove_subscriptions_step, simp add: edits_refl)
next
  case (Cons av ys)
  obtain a v where av: "av = (a, v)" by (cases av)
  note nxt = emq_list_next_rep [OF Cons.prems(1) [unfolded av]]
  obtain n where n: "nodes w a = Some n" "node_value n = v" using nxt(2) by blast
  have sub: "is_sub w v" using Cons.prems(2) av by simp
  obtain x nm where x: "objs w v = Some x" "sub_name x = Some nm"
    "strcmp_eq nm (cstrz name) = Some (sub_title sub_name w v = cstr name)"
    using compare_name [OF sub] by blast
  let ?P = "\<lambda>w (a :: addr, v). sub_title sub_name w v = cstr name"
  have tail: "\<forall>v \<in> snd ` set ys. is_sub w v" "distinct (map snd ys)" using Cons.prems(2,3) by simp_all
  show ?case
  proof (cases "sub_title sub_name w v = cstr name")
    case False
    have rep: "list_rep w lp (Some h) ((xs @ [(a, v)]) @ ys)" using Cons.prems(1) av by simp
    obtain w' where w':
      "remove_subscriptions sub_name (Some lp) (first_ptr ys None) name w = Some w'"
      "list_rep w' lp (Some h) ((xs @ [(a, v)]) @ filter (\<lambda>(a, v). sub_title sub_name w v \<noteq> cstr name) ys)"
      "edits lp (fst ` set ((xs @ [(a, v)]) @ ys)) (snd ` set (filter (?P w) ys)) w w'"
      "objs w' = objs w |` (- snd ` set (filter (?P w) ys))"
      using Cons.IH [OF rep tail] by (elim exE conjE) (rule that)
    have "remove_subscriptions sub_name (Some lp) (first_ptr (av # ys) None) name w = Some w'"
      using False nxt(1) n x av w'(1) by (subst remove_subscriptions_step) simp
    with w'(2-4) False av show ?thesis by (intro exI [of _ w']) simp
  next
    case True
    obtain w1 where del: "emq_list_delete_node (Some lp) (Some a) w = Some w1" "list_rep w1 lp (Some h) (xs @ ys)"
      "edits lp (fst ` set (xs @ (a, v) # ys)) {v} w w1" "objs w1 = (objs w)(v := None)"
      using delete_edits [OF Cons.prems(1) [unfolded av]] x(1) by auto
    have other: "objs w1 u = objs w u" if "u \<in> snd ` set ys" for u
      using del(4) Cons.prems(3) av that by auto
    have same: "sub_title sub_name w1 u = sub_title sub_name w u" if "u \<in> snd ` set ys" for u
      using other [OF that] by (simp add: sub_title_def)
    have subs1: "\<forall>u \<in> snd ` set ys. is_sub w1 u"
      using tail(1) sub_local [OF other] by blast
    have filt: "filter (?P w1) ys = filter (?P w) ys"
      "filter (\<lambda>(a, v). sub_title sub_name w1 v \<noteq> cstr name) ys = filter (\<lambda>(a, v). sub_title sub_name w v \<noteq> cstr name) ys"
      by (rule filter_cong [OF refl], use same in force)+
    obtain w' where w':
      "remove_subscriptions sub_name (Some lp) (first_ptr ys None) name w1 = Some w'"
      "list_rep w' lp (Some h) (xs @ filter (\<lambda>(a, v). sub_title sub_name w v \<noteq> cstr name) ys)"
      "edits lp (fst ` set (xs @ ys)) (snd ` set (filter (?P w) ys)) w1 w'"
      "objs w' = objs w1 |` (- snd ` set (filter (?P w) ys))"
      using Cons.IH [OF del(2) subs1 tail(2)] unfolding filt by (elim exE conjE) (rule that)
    let ?A = "fst ` set (xs @ av # ys)" and ?V = "snd ` set (filter (?P w) (av # ys))"
    have "edits lp ?A ?V w w1" using del(3) by (rule edits_mono) (use True av in auto)
    moreover have "edits lp ?A ?V w1 w'" using w'(3) by (rule edits_mono) (use av in auto)
    ultimately have "edits lp ?A ?V w w'" by (rule edits_trans)
    moreover have "objs w' = objs w |` (- ?V)"
      using w'(4) del(4) True av by (auto simp: restrict_map_def fun_eq_iff)
    moreover have "remove_subscriptions sub_name (Some lp) (first_ptr (av # ys) None) name w = Some w'"
      using True nxt(1) n x av w'(1) del(1) by (subst remove_subscriptions_step) simp
    ultimately show ?thesis using w'(2) True av by (intro exI [of _ w']) simp
  qed
qed

end

interpretation queue_subs: subscription_kind queue_sub_name is_queue_sub
  by unfold_locales (auto simp: is_queue_sub_def)

interpretation channel_subs: subscription_kind channel_sub_name is_channel_sub
  by unfold_locales (auto simp: is_channel_sub_def)

section \<open>The commands and the invariant of the client\<close>

lemma is_sub_sess [simp]:
  "is_queue_sub (sess a c b s w) v = is_queue_sub w v" "is_channel_sub (sess a c b s w) v = is_channel_sub w v"
  by (simp_all add: is_queue_sub_def is_channel_sub_def)

lemma client_lists_sess [simp]: "client_lists c (sess a c' b s w) qs cs = client_lists c w qs cs"
  by (simp add: client_lists_def)

lemma client_inv_sess: "client_inv (Some a) (sess a c b s w) qs cs \<longleftrightarrow> sess_ok c b \<and> client_lists c w qs cs"
  by (auto simp: client_inv_def client_buffer_def sess_ok_def)

lemma client_lists_upd [simp]:
  "client_lists (c\<lparr>c_error := e\<rparr>) w qs cs = client_lists c w qs cs"
  "client_lists (c\<lparr>c_status := x\<rparr>) w qs cs = client_lists c w qs cs"
  "client_lists (c\<lparr>c_pos := n\<rparr>) w qs cs = client_lists c w qs cs"
  "client_lists (settle r c) w qs cs = client_lists c w qs cs"
  by (cases r; simp add: client_lists_def)+

text \<open>The making of a subscription, when its strings fit.\<close>

lemma queue_subscription_create_cases:
  "strlenz name \<le> 64 \<Longrightarrow> emq_queue_subscription_create name cb w = Some (if alloc_ok w (brk w)
     then (Some (brk w), w\<lparr>brk := Suc (brk w), objs := (objs w)(brk w \<mapsto>
       QueueSubscription \<lparr>qs_name = zfield 64 name, qs_callback = cb\<rparr>)\<rparr>)
     else (None, w\<lparr>brk := Suc (brk w)\<rparr>))"
  by (simp add: emq_queue_subscription_create_def malloc_def)

lemma channel_subscription_create_cases:
  "strlenz name \<le> 64 \<Longrightarrow> strlenz data \<le> 32 \<Longrightarrow>
   emq_channel_subscription_create name data cb w = Some (if alloc_ok w (brk w)
     then (Some (brk w), w\<lparr>brk := Suc (brk w), objs := (objs w)(brk w \<mapsto>
       ChannelSubscription \<lparr>cs_name = zfield 64 name, cs_channel = zfield 32 data, cs_callback = cb\<rparr>)\<rparr>)
     else (None, w\<lparr>brk := Suc (brk w)\<rparr>))"
  by (simp add: emq_channel_subscription_create_def malloc_def)

text \<open>
  A subscribe command as a locale: the request, the subscription \<open>x\<close> it makes and the list it
  is put on. \<open>add_step w lp h ns x w'\<close> says that the object \<open>x\<close> was allocated at the next address and
  put on the list \<open>lp\<close>, unless its node could not be allocated.
\<close>

definition add_step :: "world \<Rightarrow> addr \<Rightarrow> free_handler \<Rightarrow> (addr \<times> addr) list \<Rightarrow> emq_object \<Rightarrow> world \<Rightarrow> bool" where
  "add_step w lp h ns x w' \<longleftrightarrow> alloc_ok w (brk w) \<and> world_wf w' \<and> grows 0 w w' \<and>
     objs w' = (objs w)(brk w \<mapsto> x) \<and> (\<forall>q. q \<noteq> lp \<longrightarrow> list_hdrs w' q = list_hdrs w q) \<and>
     (\<forall>a. a \<notin> insert (Suc (brk w)) (fst ` set ns) \<longrightarrow> nodes w' a = nodes w a) \<and>
     list_rep w' lp (Some h) (if alloc_ok w (Suc (brk w)) then (Suc (brk w), brk w) # ns else ns)"

locale subscribe_command = request_builder build ok cmd bodylen body
  for build :: "ptr \<Rightarrow> world \<Rightarrow> (int \<times> world) option" and ok cmd bodylen body +
  fixes create :: "callback \<Rightarrow> world \<Rightarrow> (ptr \<times> world) option"
    and x :: "callback \<Rightarrow> emq_object"
    and subs :: "emq_client \<Rightarrow> ptr"
  assumes create_spec: "ok \<Longrightarrow> create cb w = Some (if alloc_ok w (brk w)
      then (Some (brk w), w\<lparr>brk := Suc (brk w), objs := (objs w)(brk w \<mapsto> x cb)\<rparr>)
      else (None, w\<lparr>brk := Suc (brk w)\<rparr>))"
    and subs_same: "subs (c\<lparr>c_error := e, c_pos := n\<rparr>) = subs c"
begin

lemma subscribe_null: "emq_subscribe (Some a) None build check create subs (sess a c b s w)
    = Some (EMQ_STATUS_ERR, sess a (settle (Some EMQ_ERROR_DATA) c) b s w)"
  by (simp add: emq_subscribe_def)

text \<open>
  Once the exchange with the server is over: an error leaves the lists alone; success comes with
  the subscription made, and on the list if its node could be allocated.
\<close>

lemma subscribe_after:
  assumes hs: "emq_handshake (Some a) build check (sess a (c\<lparr>c_error := ''''\<rparr>) b s w)
      = Some (e0 = None, sess a (c\<lparr>c_error := err_text e0, c_pos := n\<rparr>) b' s' w)" "e0 = None \<Longrightarrow> ok"
    and wf: "world_wf (sess a c b s w)" and rep: "subs c = Some lp" "list_rep w lp (Some h) ns"
  shows "\<exists>e w'. emq_subscribe (Some a) (Some cb) build check create subs (sess a c b s w)
      = Some (result_of e, sess a (settle e (c\<lparr>c_pos := n\<rparr>)) b' s' w') \<and>
    (case e0 of Some e1 \<Rightarrow> e = Some e1 \<and> w' = w
      | None \<Rightarrow> if alloc_ok w (brk w) then e = None \<and> add_step w lp h ns (x cb) w'
          else e = Some EMQ_ERROR_ALLOC \<and> w' = w\<lparr>brk := Suc (brk w)\<rparr>)"
proof (cases e0)
  case (Some e1)
  with hs show ?thesis
    by (intro exI [of _ e0] exI [of _ w]) (simp add: emq_subscribe_def)
next
  case e0: None
  let ?c = "c\<lparr>c_error := '''', c_pos := n\<rparr>"
  note mk = create_spec [OF hs(2) [OF e0], of cb "sess a ?c b' s' w"]
  show ?thesis
  proof (cases "alloc_ok w (brk w)")
    case False
    with e0 hs mk show ?thesis
      by (intro exI [of _ "Some EMQ_ERROR_ALLOC"] exI [of _ "w\<lparr>brk := Suc (brk w)\<rparr>"])
        (simp add: emq_subscribe_def)
  next
    case True
    let ?W = "sess a ?c b' s' w"
    let ?W1 = "?W\<lparr>brk := Suc (brk ?W), objs := (objs ?W)(brk ?W \<mapsto> x cb)\<rparr>"
    have wfW: "world_wf ?W" using wf by (simp add: world_wf_sess_iff)
    have repW: "list_rep ?W lp (Some h) ns" using rep(2) by simp
    obtain r W2 where ad: "emq_list_add_value (Some lp) (brk ?W) ?W1 = Some (r, W2)" "grows 0 ?W W2" "world_wf W2"
      "objs W2 = (objs ?W)(brk ?W \<mapsto> x cb)" "\<forall>q. q \<noteq> lp \<longrightarrow> list_hdrs W2 q = list_hdrs ?W q"
      "\<forall>a. a \<notin> insert (Suc (brk ?W)) (fst ` set ns) \<longrightarrow> nodes W2 a = nodes ?W a"
      "list_rep W2 lp (Some h) (if alloc_ok ?W (Suc (brk ?W)) then (Suc (brk ?W), brk ?W) # ns else ns)"
      using add_object [OF wfW repW _ _ _ refl, of 0 "x cb"] by auto
    obtain w2 where w2: "W2 = sess a ?c b' s' w2" "grows 0 w w2" using grows_sess [OF ad(2)] by blast
    have "add_step w lp h ns (x cb) w2"
      using True ad(3-7) w2
      by (cases "alloc_ok w (Suc (brk w))") (simp_all add: add_step_def world_wf_sess_iff)
    moreover have "emq_subscribe (Some a) (Some cb) build check create subs (sess a c b s w)
        = Some (EMQ_STATUS_OK, sess a (settle None (c\<lparr>c_pos := n\<rparr>)) b' s' w2)"
      using e0 hs(1) mk True ad(1) rep(1) w2(1) by (simp add: emq_subscribe_def subs_same)
    ultimately show ?thesis
      using True e0 by (intro exI [of _ None] exI [of _ w2]) simp
  qed
qed

text \<open>In any environment.\<close>

lemma subscribe_sess:
  assumes ready: "sess_ok c b"
    and wf: "world_wf (sess a c b s w)" and rep: "subs c = Some lp" "list_rep w lp (Some h) ns"
  shows "\<exists>e0 e n b' s' w'. emq_subscribe (Some a) (Some cb) build check create subs (sess a c b s w)
      = Some (result_of e, sess a (settle e (c\<lparr>c_pos := n\<rparr>)) b' s' w') \<and> sess_ok c b' \<and>
    acked_call (wire_request ok cmd (client_noack c) bodylen body) (c_noack c) check s e0 s' \<and>
    (case e0 of Some e1 \<Rightarrow> e = Some e1 \<and> w' = w
      | None \<Rightarrow> if alloc_ok w (brk w) then e = None \<and> add_step w lp h ns (x cb) w'
          else e = Some EMQ_ERROR_ALLOC \<and> w' = w\<lparr>brk := Suc (brk w)\<rparr>)"
proof -
  let ?req = "wire_request ok cmd (client_noack c) bodylen body"
  have ready': "sess_ok (c\<lparr>c_error := ''''\<rparr>) b" using ready by simp
  have na: "client_noack (c\<lparr>c_error := ''''\<rparr>) = client_noack c" by (simp add: client_noack_def)
  obtain e0 n b' s' where hs: "emq_handshake (Some a) build check (sess a (c\<lparr>c_error := ''''\<rparr>) b s w)
      = Some (e0 = None, sess a (c\<lparr>c_error := err_text e0, c_pos := n\<rparr>) b' s' w)" "sess_ok c b'"
    "acked_call ?req (c_noack c) check s e0 s'"
    using handshake_sess [OF ready', of a check s w] unfolding na by auto
  have okk: ok if "e0 = None"
    using hs(3) that by (cases ok) (auto simp: wire_request_def acked_call_refused)
  from subscribe_after [OF hs(1) okk wf rep, of cb] hs(2,3) show ?thesis by blast
qed

text \<open>With a live connection the reply that is waiting decides.\<close>

lemma subscribe_live:
  assumes ready: "sess_ok c b" and fits: ok and alive: "live s" "c_noack c = 0"
    and inp: "incoming s = response_header_bytes r @ rest"
    and wf: "world_wf (sess a c b s w)" and rep: "subs c = Some lp" "list_rep w lp (Some h) ns"
  shows "\<exists>e n b' s' w'. emq_subscribe (Some a) (Some cb) build check create subs (sess a c b s w)
      = Some (result_of e, sess a (settle e (c\<lparr>c_pos := n\<rparr>)) b' s' w') \<and> sess_ok c b' \<and>
    incoming s' = rest \<and> live s' \<and> outgoing s' = outgoing s @ request_wire cmd (client_noack c) bodylen body \<and>
    (case reply_error check r of Some e1 \<Rightarrow> e = Some e1 \<and> w' = w
      | None \<Rightarrow> if alloc_ok w (brk w) then e = None \<and> add_step w lp h ns (x cb) w'
          else e = Some EMQ_ERROR_ALLOC \<and> w' = w\<lparr>brk := Suc (brk w)\<rparr>)"
proof -
  have ready': "sess_ok (c\<lparr>c_error := ''''\<rparr>) b" "c_noack (c\<lparr>c_error := ''''\<rparr>) = 0"
    "client_noack (c\<lparr>c_error := ''''\<rparr>) = client_noack c" using ready alive by (simp_all add: client_noack_def)
  obtain n b' s' where hl: "emq_handshake (Some a) build check (sess a (c\<lparr>c_error := ''''\<rparr>) b s w)
      = Some (reply_error check r = None,
          sess a (c\<lparr>c_error := err_text (reply_error check r), c_pos := n\<rparr>) b' s' w)"
    "sess_ok c b'" "incoming s' = rest" "live s'"
    "outgoing s' = outgoing s @ request_wire cmd (client_noack c) bodylen body"
    using handshake_live [OF ready'(1) fits alive(1) ready'(2) inp, of a check w] unfolding ready'(3) by auto
  from subscribe_after [OF hl(1) fits wf rep, of cb] hl(2-5) show ?thesis by blast
qed

end

interpretation queue_subscribe_cmd: subscribe_command
  "\<lambda>client. emq_queue_subscribe_request client name flags" "strlenz name \<le> 64"
  EMQ_PROTOCOL_CMD_QUEUE_SUBSCRIBE "68" "zfield 64 name @ le_bytes 4 flags"
  "emq_queue_subscription_create name" "\<lambda>cb. QueueSubscription \<lparr>qs_name = zfield 64 name, qs_callback = cb\<rparr>"
  c_queue_subscriptions
  for name flags
  by unfold_locales (simp_all add: queue_subscription_create_cases)

interpretation channel_subscribe_cmd: subscribe_command
  "\<lambda>client. emq_channel_subscribe_request client name topic" "strlenz name \<le> 64 \<and> strlenz topic \<le> 32"
  EMQ_PROTOCOL_CMD_CHANNEL_SUBSCRIBE "96" "zfield 64 name @ zfield 32 topic"
  "emq_channel_subscription_create name topic"
  "\<lambda>cb. ChannelSubscription \<lparr>cs_name = zfield 64 name, cs_channel = zfield 32 topic, cs_callback = cb\<rparr>"
  c_channel_subscriptions
  for name topic
  by unfold_locales (simp_all add: channel_subscription_create_cases)

interpretation channel_psubscribe_cmd: subscribe_command
  "\<lambda>client. emq_channel_psubscribe_request client name pattern" "strlenz name \<le> 64 \<and> strlenz pattern \<le> 32"
  EMQ_PROTOCOL_CMD_CHANNEL_PSUBSCRIBE "96" "zfield 64 name @ zfield 32 pattern"
  "emq_channel_subscription_create name pattern"
  "\<lambda>cb. ChannelSubscription \<lparr>cs_name = zfield 64 name, cs_channel = zfield 32 pattern, cs_callback = cb\<rparr>"
  c_channel_subscriptions
  for name pattern
  by unfold_locales (simp_all add: channel_subscription_create_cases)

section \<open>Two disjoint subscription lists\<close>

text \<open>
  The client keeps two subscription lists that share nothing. What an operation on one of them
  means for the pair does not depend on which one it is: \<open>two_lists\<close> is symmetric, and the
  locale \<open>subscription_lists\<close> is interpreted both ways round.
\<close>

definition two_lists :: "world \<Rightarrow> addr \<Rightarrow> free_handler \<Rightarrow> (world \<Rightarrow> addr \<Rightarrow> bool) \<Rightarrow> (addr \<times> addr) list \<Rightarrow>
    addr \<Rightarrow> free_handler \<Rightarrow> (world \<Rightarrow> addr \<Rightarrow> bool) \<Rightarrow> (addr \<times> addr) list \<Rightarrow> bool" where
  "two_lists w lp h is_sub ns lp' h' is_sub' ns' \<longleftrightarrow> lp \<noteq> lp' \<and>
     list_rep w lp (Some h) ns \<and> list_rep w lp' (Some h') ns' \<and>
     fst ` set ns \<inter> fst ` set ns' = {} \<and> distinct (map snd ns @ map snd ns') \<and>
     (\<forall>v \<in> snd ` set ns. is_sub w v) \<and> (\<forall>v \<in> snd ` set ns'. is_sub' w v)"

lemma two_lists_sym:
  "two_lists w lp h is_sub ns lp' h' is_sub' ns' \<longleftrightarrow> two_lists w lp' h' is_sub' ns' lp h is_sub ns"
  by (auto simp: two_lists_def)

lemma client_lists_two:
  "client_lists c w qs cs \<longleftrightarrow> c_queue_subscriptions c \<noteq> None \<and> c_channel_subscriptions c \<noteq> None \<and>
     two_lists w (the (c_queue_subscriptions c)) emq_queue_subscription_list_free_handler is_queue_sub qs
       (the (c_channel_subscriptions c)) emq_channel_subscription_list_free_handler is_channel_sub cs"
  by (auto simp: client_lists_def two_lists_def)

lemma add_stepD:
  assumes "add_step w lp h ns x w'"
  shows "alloc_ok w (brk w)" "world_wf w'" "brk w \<le> brk w'" "objs w' = (objs w)(brk w \<mapsto> x)"
    "q \<noteq> lp \<Longrightarrow> list_hdrs w' q = list_hdrs w q"
    "a \<notin> insert (Suc (brk w)) (fst ` set ns) \<Longrightarrow> nodes w' a = nodes w a"
    "list_rep w' lp (Some h) (if alloc_ok w (Suc (brk w)) then (Suc (brk w), brk w) # ns else ns)"
  using assms unfolding add_step_def by (auto dest: grows_fields)

locale subscription_lists = one: subscription_kind sub_name is_sub + other: subscription_kind sub_name' is_sub'
  for sub_name :: "emq_object \<Rightarrow> bytes option" and is_sub :: "world \<Rightarrow> addr \<Rightarrow> bool"
    and sub_name' :: "emq_object \<Rightarrow> bytes option" and is_sub' :: "world \<Rightarrow> addr \<Rightarrow> bool"
begin

lemma below:
  assumes tl: "two_lists w lp h is_sub ns lp' h' is_sub' ns'" and wf: "world_wf w"
  shows "v \<in> snd ` set (ns @ ns') \<Longrightarrow> v < brk w" "a \<in> fst ` set (ns @ ns') \<Longrightarrow> a < brk w"
proof -
  have l: "list_rep w lp (Some h) ns" "list_rep w lp' (Some h') ns'"
    "\<forall>v \<in> snd ` set ns. is_sub w v" "\<forall>v \<in> snd ` set ns'. is_sub' w v"
    using tl by (simp_all add: two_lists_def)
  show "a < brk w" if "a \<in> fst ` set (ns @ ns')"
    using that list_rep_below(2) [OF l(1) wf] list_rep_below(2) [OF l(2) wf] by auto
  show "v < brk w" if v: "v \<in> snd ` set (ns @ ns')"
  proof (rule ccontr)
    assume "\<not> v < brk w"
    then have "objs w v = None" using wf_fresh(4) [OF wf] by simp
    moreover have "is_sub w v \<or> is_sub' w v" using v l(3,4) by (auto simp: image_Un)
    ultimately show False using one.sub_read other.sub_read by fastforce
  qed
qed

text \<open>One more subscription at the front of the first list.\<close>

lemma add_front:
  assumes tl: "two_lists w lp h is_sub ns lp' h' is_sub' ns'" and wf: "world_wf w"
    and st: "add_step w lp h ns x w'"
    and new: "\<And>w'. objs w' (brk w) = Some x \<Longrightarrow> is_sub w' (brk w)"
  shows "two_lists w' lp h is_sub (if alloc_ok w (Suc (brk w)) then (Suc (brk w), brk w) # ns else ns)
    lp' h' is_sub' ns'"
proof -
  note low = below [OF tl wf] and st' = add_stepD [OF st]
  have l: "lp \<noteq> lp'" "list_rep w lp' (Some h') ns'" "fst ` set ns \<inter> fst ` set ns' = {}"
    "distinct (map snd ns @ map snd ns')" "\<forall>v \<in> snd ` set ns. is_sub w v" "\<forall>v \<in> snd ` set ns'. is_sub' w v"
    using tl by (simp_all add: two_lists_def)
  have old: "objs w' v = objs w v" if "v \<in> snd ` set (ns @ ns')" for v
    using low(1) [OF that] st'(4) by simp
  have "nodes w' a = nodes w a" if a: "a \<in> fst ` set ns'" for a
    using low(2) [of a] a l(3) by (intro st'(6)) (auto simp: image_Un)
  then have "list_rep w' lp' (Some h') ns'"
    using l(1) st'(5) [of lp'] by (intro list_rep_cong [OF l(2)]) auto
  moreover have "\<forall>v \<in> snd ` set ns. is_sub w' v" "\<forall>v \<in> snd ` set ns'. is_sub' w' v"
    using l(5,6) old one.sub_local other.sub_local by (metis UnCI image_Un set_append)+
  moreover have "is_sub w' (brk w)" using st'(4) by (intro new) simp
  moreover have "Suc (brk w) \<notin> fst ` set ns'" "brk w \<notin> snd ` set ns" "brk w \<notin> snd ` set ns'"
    using low(2) [of "Suc (brk w)"] low(1) [of "brk w"] by (auto simp: image_Un)
  ultimately show ?thesis
    using l st'(7) unfolding two_lists_def by (cases "alloc_ok w (Suc (brk w))"; simp)
qed

text \<open>The removal of all the subscriptions with a name from the first list.\<close>

lemma remove_named:
  assumes tl: "two_lists w lp h is_sub ns lp' h' is_sub' ns'" and wf: "world_wf w"
  shows "\<exists>w'. remove_subscriptions sub_name (Some lp) (first_ptr ns None) name w = Some w' \<and>
    two_lists w' lp h is_sub (filter (\<lambda>(a, v). sub_title sub_name w v \<noteq> cstr name) ns) lp' h' is_sub' ns' \<and>
    world_wf w' \<and>
    edits lp (fst ` set ns) (snd ` set (filter (\<lambda>(a, v). sub_title sub_name w v = cstr name) ns)) w w' \<and>
    objs w' = objs w |` (- snd ` set (filter (\<lambda>(a, v). sub_title sub_name w v = cstr name) ns))"
proof -
  let ?V = "snd ` set (filter (\<lambda>(a, v). sub_title sub_name w v = cstr name) ns)"
  let ?ns = "filter (\<lambda>(a, v). sub_title sub_name w v \<noteq> cstr name) ns"
  have l: "lp \<noteq> lp'" "list_rep w lp (Some h) ([] @ ns)" "list_rep w lp' (Some h') ns'"
    "fst ` set ns \<inter> fst ` set ns' = {}" "distinct (map snd ns @ map snd ns')"
    "\<forall>v \<in> snd ` set ns. is_sub w v" "\<forall>v \<in> snd ` set ns'. is_sub' w v" "distinct (map snd ns)"
    using tl by (simp_all add: two_lists_def)
  obtain w' where w': "remove_subscriptions sub_name (Some lp) (first_ptr ns None) name w = Some w'"
    "list_rep w' lp (Some h) ([] @ ?ns)" "edits lp (fst ` set ([] @ ns)) ?V w w'" "objs w' = objs w |` (- ?V)"
    using one.remove_subscriptions_rep [OF l(2,6,8), of name] by (elim exE conjE) (rule that)
  note ed = edits_fields [OF w'(3)]
  have "nodes w' u = nodes w u" if "u \<in> fst ` set ns'" for u
    using that l(4) by (intro ed(8)) auto
  then have "list_rep w' lp' (Some h') ns'"
    using l(1) ed(9) by (intro list_rep_cong [OF l(3)]) auto
  moreover have "is_sub' w' v" if v: "v \<in> snd ` set ns'" for v
  proof -
    have "v \<notin> ?V" using v l(5) by auto
    then have "objs w' v = objs w v" by (rule ed(7))
    then show ?thesis using v l(7) other.sub_local by blast
  qed
  moreover have "is_sub w' v" if v: "v \<in> snd ` set ?ns" for v
  proof -
    have "v \<notin> ?V" using v by auto
    then have "objs w' v = objs w v" by (rule ed(7))
    moreover have "is_sub w v" using v l(6) by auto
    ultimately show ?thesis using one.sub_local by blast
  qed
  moreover have "distinct (map snd ?ns @ map snd ns')"
    using l(5) by (auto simp: distinct_map_filter)
  ultimately have "two_lists w' lp h is_sub ?ns lp' h' is_sub' ns'"
    using l(1,4) w'(2) unfolding two_lists_def by auto
  with w' edits_wf [OF w'(3) wf] show ?thesis by (intro exI [of _ w']) simp
qed

end

interpretation queue_first: subscription_lists queue_sub_name is_queue_sub channel_sub_name is_channel_sub
  by unfold_locales

interpretation channel_first: subscription_lists channel_sub_name is_channel_sub queue_sub_name is_queue_sub
  by unfold_locales

lemma two_lists_sess [simp]:
  "(\<And>a c b s w v. is_sub (sess a c b s w) v = is_sub w v) \<Longrightarrow> (\<And>a c b s w v. is_sub' (sess a c b s w) v = is_sub' w v) \<Longrightarrow>
   two_lists (sess a c b s w) lp h is_sub ns lp' h' is_sub' ns' = two_lists w lp h is_sub ns lp' h' is_sub' ns'"
  by (simp add: two_lists_def)

lemma sub_title_sess [simp]: "sub_title sub_name (sess a c b s w) v = sub_title sub_name w v"
  by (simp add: sub_title_def)

lemma edits_sess:
  assumes "edits lp A V (sess a c b s w) w'"
  shows "\<exists>w1. w' = sess a c b s w1 \<and> edits lp A V w w1"
proof -
  from assms obtain os ls nd where e: "w' = (sess a c b s w)\<lparr>objs := os, list_hdrs := ls, nodes := nd\<rparr>"
    "\<And>q. q \<noteq> lp \<Longrightarrow> ls q = list_hdrs w q" "\<And>a. a \<notin> A \<Longrightarrow> nd a = nodes w a"
    "\<And>v. v \<notin> V \<Longrightarrow> os v = objs w v" "dom ls = dom (list_hdrs w)" "dom nd \<subseteq> dom (nodes w)"
    "dom os \<subseteq> dom (objs w)" by (elim editsE) (simp add: that)
  let ?w1 = "w\<lparr>objs := os, list_hdrs := ls, nodes := nd\<rparr>"
  have "w' = sess a c b s ?w1" using e(1) by simp
  moreover have "edits lp A V w ?w1"
    using e(2-7) by (intro editsI [where os = os and ls = ls and nd = nd]) simp_all
  ultimately show ?thesis by blast
qed

text \<open>
  \<open>remove_step sub_name name lp ns w w'\<close>: the subscriptions with the name were freed, and nothing
  but the list at \<open>lp\<close>, its nodes and these objects changed.
\<close>

definition remove_step :: "(emq_object \<Rightarrow> bytes option) \<Rightarrow> bytes \<Rightarrow> addr \<Rightarrow> (addr \<times> addr) list \<Rightarrow>
    world \<Rightarrow> world \<Rightarrow> bool" where
  "remove_step sub_name name lp ns w w' \<longleftrightarrow>
     (let V = snd ` set (filter (\<lambda>(a, v). sub_title sub_name w v = cstr name) ns)
      in edits lp (fst ` set ns) V w w' \<and> objs w' = objs w |` (- V))"

text \<open>An unsubscribe command: what it sends, and the list it removes from.\<close>

locale unsubscribe_command = request_builder build ok cmd bodylen body +
    lists: subscription_lists sub_name is_sub sub_name' is_sub'
  for build :: "ptr \<Rightarrow> world \<Rightarrow> (int \<times> world) option" and ok cmd bodylen body
    and sub_name :: "emq_object \<Rightarrow> bytes option" and is_sub :: "world \<Rightarrow> addr \<Rightarrow> bool"
    and sub_name' :: "emq_object \<Rightarrow> bytes option" and is_sub' :: "world \<Rightarrow> addr \<Rightarrow> bool" +
  fixes subs :: "emq_client \<Rightarrow> ptr"
  assumes subs_same: "subs (c\<lparr>c_error := e, c_pos := n\<rparr>) = subs c"
    and sub_sess: "is_sub (sess a c b s w) v = is_sub w v" "is_sub' (sess a c b s w) v = is_sub' w v"
begin

lemma unsubscribe_after:
  assumes hs: "emq_handshake (Some a) build check (sess a c b s w)
      = Some (e = None, sess a (c\<lparr>c_error := err_text e, c_pos := n\<rparr>) b' s' w)"
    and wf: "world_wf (sess a c b s w)" and lp: "subs c = Some lp"
    and tl: "two_lists w lp h is_sub ns lp' h' is_sub' ns'"
  shows "\<exists>w'. emq_unsubscribe (Some a) build check sub_name subs name (sess a c b s w)
      = Some (result_of e, sess a (settle e (c\<lparr>c_pos := n\<rparr>)) b' s' w') \<and> world_wf (sess a c b s w') \<and>
    (if e = None then remove_step sub_name name lp ns w w' \<and>
       two_lists w' lp h is_sub (filter (\<lambda>(a, v). sub_title sub_name w v \<noteq> cstr name) ns) lp' h' is_sub' ns'
     else w' = w)"
proof (cases e)
  case (Some e1)
  with hs wf show ?thesis
    by (intro exI [of _ w]) (simp add: emq_unsubscribe_def)
next
  case None
  let ?c = "c\<lparr>c_error := '''', c_pos := n\<rparr>"
  let ?W = "sess a ?c b' s' w"
  have wfW: "world_wf ?W" using wf by (simp add: world_wf_sess_iff)
  have tlW: "two_lists ?W lp h is_sub ns lp' h' is_sub' ns'" using tl by (simp add: sub_sess)
  obtain W2 where rm: "remove_subscriptions sub_name (Some lp) (first_ptr ns None) name ?W = Some W2"
    "two_lists W2 lp h is_sub (filter (\<lambda>(a, v). sub_title sub_name ?W v \<noteq> cstr name) ns) lp' h' is_sub' ns'"
    "world_wf W2"
    "edits lp (fst ` set ns) (snd ` set (filter (\<lambda>(a, v). sub_title sub_name ?W v = cstr name) ns)) ?W W2"
    "objs W2 = objs ?W |` (- snd ` set (filter (\<lambda>(a, v). sub_title sub_name ?W v = cstr name) ns))"
    using lists.remove_named [OF tlW wfW, of name] by (elim exE conjE) (rule that)
  obtain w2 where w2: "W2 = sess a ?c b' s' w2"
    "edits lp (fst ` set ns) (snd ` set (filter (\<lambda>(a, v). sub_title sub_name w v = cstr name) ns)) w w2"
    using edits_sess [OF rm(4)] by auto
  have rw: "emq_list_rewind (Some lp) ?W = Some (first_ptr ns None)"
    using tlW unfolding two_lists_def by (auto intro: emq_list_rewind_rep)
  have "emq_unsubscribe (Some a) build check sub_name subs name (sess a c b s w)
      = Some (EMQ_STATUS_OK, sess a (settle None (c\<lparr>c_pos := n\<rparr>)) b' s' w2)"
    using None hs(1) lp rw rm(1) w2(1) by (simp add: emq_unsubscribe_def subs_same)
  moreover have "world_wf (sess a c b s w2)" using rm(3) w2(1) by (simp add: world_wf_sess_iff)
  moreover have "two_lists w2 lp h is_sub (filter (\<lambda>(a, v). sub_title sub_name w v \<noteq> cstr name) ns) lp' h' is_sub' ns'"
    using rm(2) w2(1) by (simp add: sub_sess)
  ultimately show ?thesis
    using None w2 rm(5) by (intro exI [of _ w2]) (simp add: remove_step_def)
qed

lemma unsubscribe_sess:
  assumes ready: "sess_ok c b" and wf: "world_wf (sess a c b s w)" and lp: "subs c = Some lp"
    and tl: "two_lists w lp h is_sub ns lp' h' is_sub' ns'"
  shows "\<exists>e n b' s' w'. emq_unsubscribe (Some a) build check sub_name subs name (sess a c b s w)
      = Some (result_of e, sess a (settle e (c\<lparr>c_pos := n\<rparr>)) b' s' w') \<and> sess_ok c b' \<and>
    acked_call (wire_request ok cmd (client_noack c) bodylen body) (c_noack c) check s e s' \<and>
    world_wf (sess a c b s w') \<and>
    (if e = None then remove_step sub_name name lp ns w w' \<and>
       two_lists w' lp h is_sub (filter (\<lambda>(a, v). sub_title sub_name w v \<noteq> cstr name) ns) lp' h' is_sub' ns'
     else w' = w)"
proof -
  obtain e n b' s' where hs: "emq_handshake (Some a) build check (sess a c b s w)
      = Some (e = None, sess a (c\<lparr>c_error := err_text e, c_pos := n\<rparr>) b' s' w)" "sess_ok c b'"
    "acked_call (wire_request ok cmd (client_noack c) bodylen body) (c_noack c) check s e s'"
    using handshake_sess [OF ready, of a check s w] by auto
  from unsubscribe_after [OF hs(1) wf lp tl, of name] hs(2,3) show ?thesis by blast
qed

lemma unsubscribe_live:
  assumes ready: "sess_ok c b" and fits: ok and alive: "live s" "c_noack c = 0"
    and inp: "incoming s = response_header_bytes r @ rest"
    and wf: "world_wf (sess a c b s w)" and lp: "subs c = Some lp"
    and tl: "two_lists w lp h is_sub ns lp' h' is_sub' ns'"
  shows "\<exists>n b' s' w'. emq_unsubscribe (Some a) build check sub_name subs name (sess a c b s w)
      = Some (result_of (reply_error check r), sess a (settle (reply_error check r) (c\<lparr>c_pos := n\<rparr>)) b' s' w') \<and>
    sess_ok c b' \<and> incoming s' = rest \<and> live s' \<and>
    outgoing s' = outgoing s @ request_wire cmd (client_noack c) bodylen body \<and> world_wf (sess a c b s w') \<and>
    (if reply_error check r = None then remove_step sub_name name lp ns w w' \<and>
       two_lists w' lp h is_sub (filter (\<lambda>(a, v). sub_title sub_name w v \<noteq> cstr name) ns) lp' h' is_sub' ns'
     else w' = w)"
proof -
  obtain n b' s' where hl: "emq_handshake (Some a) build check (sess a c b s w)
      = Some (reply_error check r = None,
          sess a (c\<lparr>c_error := err_text (reply_error check r), c_pos := n\<rparr>) b' s' w)"
    "sess_ok c b'" "incoming s' = rest" "live s'"
    "outgoing s' = outgoing s @ request_wire cmd (client_noack c) bodylen body"
    using handshake_live [OF ready fits alive inp, of a check w] by auto
  from unsubscribe_after [OF hl(1) wf lp tl, of name] hl(2-5) show ?thesis by blast
qed

end

interpretation queue_unsubscribe_cmd: unsubscribe_command
  "\<lambda>client. emq_queue_unsubscribe_request client name" "strlenz name \<le> 64"
  EMQ_PROTOCOL_CMD_QUEUE_UNSUBSCRIBE "64" "zfield 64 name"
  queue_sub_name is_queue_sub channel_sub_name is_channel_sub c_queue_subscriptions
  for name
  by unfold_locales simp_all

interpretation channel_unsubscribe_cmd: unsubscribe_command
  "\<lambda>client. emq_channel_unsubscribe_request client name topic" "strlenz name \<le> 64 \<and> strlenz topic \<le> 32"
  EMQ_PROTOCOL_CMD_CHANNEL_UNSUBSCRIBE "96" "zfield 64 name @ zfield 32 topic"
  channel_sub_name is_channel_sub queue_sub_name is_queue_sub c_channel_subscriptions
  for name topic
  by unfold_locales simp_all

interpretation channel_punsubscribe_cmd: unsubscribe_command
  "\<lambda>client. emq_channel_punsubscribe_request client name pattern" "strlenz name \<le> 64 \<and> strlenz pattern \<le> 32"
  EMQ_PROTOCOL_CMD_CHANNEL_PUNSUBSCRIBE "96" "zfield 64 name @ zfield 32 pattern"
  channel_sub_name is_channel_sub queue_sub_name is_queue_sub c_channel_subscriptions
  for name pattern
  by unfold_locales simp_all

end
