(* ===== verification/Emq_Process.thy ===== *)
theory Emq_Process
  imports Emq_Subscribe
begin

text \<open>
  Events of \<^verbatim>\<open>src/src/emq.c\<close>: \<open>emq_queue_process\<close>, \<open>emq_channel_process\<close> and the loop of
  \<open>emq_process\<close>. The user's functions are a parameter \<open>cb\<close> that gives the effect of each
  callback. The lemmas give the outcomes of the handlers in any environment, and the dispatch
  of one event on a live connection.
\<close>

section \<open>The operations\<close>

text \<open>
  A user's function: the client, the kind of callback, name, topic, pattern and message. The
  strings are given by the bytes of their arrays.
\<close>

type_synonym user_function =
  "ptr \<Rightarrow> int \<Rightarrow> bytes \<Rightarrow> bytes option \<Rightarrow> bytes option \<Rightarrow> ptr \<Rightarrow> world \<Rightarrow> (int \<times> world) option"

text \<open>
  The end of both handlers: the call, and 1 when it returned non-zero and no queue subscription
  is left. The client is read after the call, which may have released it.
\<close>

definition run_callback :: "ptr \<Rightarrow> (world \<Rightarrow> (int \<times> world) option) \<Rightarrow> world \<Rightarrow> (int \<times> world) option" where
  "run_callback client f w = do {
     (r, w) \<leftarrow> f w;
     if r = 0 then Some (0, w)
     else do {
       c \<leftarrow> get_client client w;
       l \<leftarrow> deref (list_hdrs w) (c_queue_subscriptions c);
       Some (if list_length l = 0 then 1 else 0, w) } }"

definition emq_queue_process ::
    "(callback \<Rightarrow> user_function) \<Rightarrow> ptr \<Rightarrow> protocol_event_header \<Rightarrow> world \<Rightarrow> (int \<times> world) option" where
  "emq_queue_process cb client header w = do {
     (r, name, w) \<leftarrow> emq_client_read client 64 w;
     if r = -1 then do {
       w \<leftarrow> emq_client_set_error client EMQ_ERROR_READ w;
       Some (-1, w) }
     else do {
       c \<leftarrow> get_client client w;
       iter \<leftarrow> emq_list_rewind (c_queue_subscriptions c) w;
       subscription \<leftarrow> find_subscription queue_sub_name iter name w;
       case subscription of
         None \<Rightarrow> Some (-1, w)
       | Some v \<Rightarrow> do {
           (ok, msg, w) \<leftarrow> (if ev_type header = EMQ_PROTOCOL_EVENT_MESSAGE then do {
               (msg, w) \<leftarrow> emq_read_message client (ucast (ev_bodylen header - 64)) w;
               Some (msg \<noteq> None, msg, w) }
             else Some (True, None, w));
           if \<not> ok then Some (-1, w)
           else (case objs w v of
               Some (QueueSubscription s) \<Rightarrow>
                 run_callback client
                   (cb (qs_callback s) client EMQ_CALLBACK_QUEUE (qs_name s) None None msg) w
             | _ \<Rightarrow> None) } } }"

definition emq_channel_process ::
    "(callback \<Rightarrow> user_function) \<Rightarrow> ptr \<Rightarrow> protocol_event_header \<Rightarrow> bool \<Rightarrow> world \<Rightarrow> (int \<times> world) option" where
  "emq_channel_process cb client header extended w = do {
     (r, name, w) \<leftarrow> emq_client_read client 64 w;
     if r = -1 then do {
       w \<leftarrow> emq_client_set_error client EMQ_ERROR_READ w;
       Some (-1, w) }
     else do {
       (r, topic, w) \<leftarrow> emq_client_read client 32 w;
       if r = -1 then do {
         w \<leftarrow> emq_client_set_error client EMQ_ERROR_READ w;
         Some (-1, w) }
       else do {
         (r, pattern, w) \<leftarrow> (if extended then emq_client_read client 32 w else Some (0, [], w));
         if r = -1 then do {
           w \<leftarrow> emq_client_set_error client EMQ_ERROR_READ w;
           Some (-1, w) }
         else do {
           c \<leftarrow> get_client client w;
           iter \<leftarrow> emq_list_rewind (c_channel_subscriptions c) w;
           subscription \<leftarrow> find_subscription channel_sub_name iter name w;
           case subscription of
             None \<Rightarrow> Some (-1, w)
           | Some v \<Rightarrow> do {
               (msg, w) \<leftarrow> emq_read_message client
                 (ucast (ev_bodylen header - (if extended then 128 else 96))) w;
               if msg = None then Some (-1, w)
               else (case objs w v of
                   Some (ChannelSubscription s) \<Rightarrow>
                     run_callback client (cb (cs_callback s) client EMQ_CALLBACK_CHANNEL (cs_name s)
                       (Some topic) (if extended then Some pattern else None) msg) w
                 | _ \<Rightarrow> None) } } } } }"

text \<open>The \<open>switch\<close> on the command of an event; the command was checked before.\<close>

definition process_event ::
    "(callback \<Rightarrow> user_function) \<Rightarrow> ptr \<Rightarrow> protocol_event_header \<Rightarrow> world \<Rightarrow> (int \<times> world) option" where
  "process_event cb client header w =
     (if ev_cmd header = cmd_code EMQ_PROTOCOL_CMD_QUEUE_SUBSCRIBE then emq_queue_process cb client header w
      else emq_channel_process cb client header
        (ev_cmd header \<noteq> cmd_code EMQ_PROTOCOL_CMD_CHANNEL_SUBSCRIBE) w)"

definition event_expected :: "protocol_event_header \<Rightarrow> bool" where
  "event_expected header \<longleftrightarrow>
     emq_check_event_header header EMQ_PROTOCOL_EVENT_NOTIFY EMQ_PROTOCOL_EVENT_MESSAGE \<noteq> EMQ_STATUS_ERR \<and>
     ev_cmd header \<in> {cmd_code EMQ_PROTOCOL_CMD_QUEUE_SUBSCRIBE,
       cmd_code EMQ_PROTOCOL_CMD_CHANNEL_SUBSCRIBE, cmd_code EMQ_PROTOCOL_CMD_CHANNEL_PSUBSCRIBE}"

definition no_subscriptions :: "ptr \<Rightarrow> world \<Rightarrow> bool option" where
  "no_subscriptions client w = do {
     c \<leftarrow> get_client client w;
     ql \<leftarrow> deref (list_hdrs w) (c_queue_subscriptions c);
     if list_length ql \<noteq> 0 then Some False
     else do {
       cl \<leftarrow> deref (list_hdrs w) (c_channel_subscriptions c);
       Some (list_length cl = 0) } }"

text \<open>The \<open>for (;;)\<close> loop; the result tells whether it was left by \<open>break\<close> or to \<open>error\<close>.\<close>

partial_function (option) process_loop ::
    "(callback \<Rightarrow> user_function) \<Rightarrow> ptr \<Rightarrow> world \<Rightarrow> (bool \<times> world) option" where
  "process_loop cb client w = do {
     idle \<leftarrow> no_subscriptions client w;
     if idle then Some (True, w)
     else do {
       (r, bs, w) \<leftarrow> emq_client_read client (int sizeof_header) w;
       if r = -1 then do {
         w \<leftarrow> emq_client_set_error client EMQ_ERROR_READ w;
         Some (False, w) }
       else if \<not> event_expected (event_header_of bs) then do {
         w \<leftarrow> emq_client_set_error client EMQ_ERROR_READ w;
         Some (False, w) }
       else do {
         (status, w) \<leftarrow> process_event cb client (event_header_of bs) w;
         if status = 0 then process_loop cb client w
         else Some (status = 1, w) } } }"

definition emq_process :: "(callback \<Rightarrow> user_function) \<Rightarrow> ptr \<Rightarrow> world \<Rightarrow> (int \<times> world) option" where
  "emq_process cb client w = do {
     w \<leftarrow> EMQ_CLEAR_ERROR client w;
     (ok, w) \<leftarrow> process_loop cb client w;
     let status = (if ok then EMQ_STATUS_OK else EMQ_STATUS_ERR);
     w \<leftarrow> EMQ_SET_STATUS client status w;
     Some (status, w) }"

text \<open>
  The first \<open>n\<close> rounds of the same loop: whether and how it was left in one of them;
  \<^const>\<open>None\<close> means that it has not been left yet.
\<close>

primrec process_rounds :: "(callback \<Rightarrow> user_function) \<Rightarrow> nat \<Rightarrow> ptr \<Rightarrow> world \<Rightarrow> (bool option \<times> world) option" where
  "process_rounds cb 0 client w = Some (None, w)"
| "process_rounds cb (Suc n) client w = do {
     idle \<leftarrow> no_subscriptions client w;
     if idle then Some (Some True, w)
     else do {
       (r, bs, w) \<leftarrow> emq_client_read client (int sizeof_header) w;
       if r = -1 then do {
         w \<leftarrow> emq_client_set_error client EMQ_ERROR_READ w;
         Some (Some False, w) }
       else if \<not> event_expected (event_header_of bs) then do {
         w \<leftarrow> emq_client_set_error client EMQ_ERROR_READ w;
         Some (Some False, w) }
       else do {
         (status, w) \<leftarrow> process_event cb client (event_header_of bs) w;
         if status = 0 then process_rounds cb n client w
         else Some (Some (status = 1), w) } } }"

lemma process_loop_step:
  "process_loop cb client w = do {
     idle \<leftarrow> no_subscriptions client w;
     if idle then Some (True, w)
     else do {
       (r, bs, w) \<leftarrow> emq_client_read client (int sizeof_header) w;
       if r = -1 then do {
         w \<leftarrow> emq_client_set_error client EMQ_ERROR_READ w;
         Some (False, w) }
       else if \<not> event_expected (event_header_of bs) then do {
         w \<leftarrow> emq_client_set_error client EMQ_ERROR_READ w;
         Some (False, w) }
       else do {
         (status, w) \<leftarrow> process_event cb client (event_header_of bs) w;
         if status = 0 then process_loop cb client w
         else Some (status = 1, w) } } }"
  by (subst process_loop.simps) (rule refl)

lemma rounds_then_loop:
  "process_rounds cb n client w = Some (out, w') \<Longrightarrow>
   process_loop cb client w = (case out of None \<Rightarrow> process_loop cb client w' | Some fin \<Rightarrow> Some (fin, w'))"
proof (induction n arbitrary: w)
  case (Suc n)
  obtain idle where idle: "no_subscriptions client w = Some idle"
    using Suc.prems by (cases "no_subscriptions client w") simp_all
  show ?case
  proof (cases idle)
    case True
    have "process_loop cb client w = Some (True, w)" using idle True by (subst process_loop_step) simp
    moreover have "out = Some True" "w' = w" using Suc.prems idle True by simp_all
    ultimately show ?thesis by simp
  next
    case False
    then obtain r bs w1 where rd: "emq_client_read client (int sizeof_header) w = Some (r, bs, w1)"
      using Suc.prems idle by (cases "emq_client_read client (int sizeof_header) w") auto
    show ?thesis
    proof (cases "r = -1 \<or> \<not> event_expected (event_header_of bs)")
      case True
      have "process_loop cb client w = do {
          w \<leftarrow> emq_client_set_error client EMQ_ERROR_READ w1;
          Some (False, w) }" using idle False rd True by (subst process_loop_step) auto
      moreover have "process_rounds cb (Suc n) client w = do {
          w \<leftarrow> emq_client_set_error client EMQ_ERROR_READ w1;
          Some (Some False, w) }" using idle False rd True by auto
      ultimately show ?thesis
        using Suc.prems by (cases "emq_client_set_error client EMQ_ERROR_READ w1") auto
    next
      case go: False
      then obtain st w2 where ev: "process_event cb client (event_header_of bs) w1 = Some (st, w2)"
        using Suc.prems idle False rd by (cases "process_event cb client (event_header_of bs) w1") auto
      have "process_loop cb client w = (if st = 0 then process_loop cb client w2 else Some (st = 1, w2))"
        using idle False rd go ev by (subst process_loop_step) simp
      moreover have "process_rounds cb (Suc n) client w = (if st = 0 then process_rounds cb n client w2 else Some (Some (st = 1), w2))"
        using idle False rd go ev by simp
      ultimately show ?thesis using Suc.prems Suc.IH [of w2] by (cases "st = 0") auto
    qed
  qed
qed simp

lemma rounds_are_the_loop: "process_rounds cb n client w = Some (Some fin, w') \<Longrightarrow> process_loop cb client w = Some (fin, w')"
  using rounds_then_loop [of cb n client w "Some fin" w'] by simp

section \<open>Reading an event\<close>

lemma shrinks_message: "message_read n s r s' \<Longrightarrow> shrinks s s'"
  by (auto elim!: message_readE intro: shrinks_read)

text \<open>The lists do not depend on messages and character blocks.\<close>

lemma client_lists_heap [simp]:
  "client_lists c (w\<lparr>brk := n\<rparr>) qs cs = client_lists c w qs cs"
  "client_lists c (add_msg m d w) qs cs = client_lists c w qs cs"
  "client_lists c (w\<lparr>msgs := ms\<rparr>) qs cs = client_lists c w qs cs"
  "client_lists c (w\<lparr>bufs := bs\<rparr>) qs cs = client_lists c w qs cs"
  by (simp_all add: client_lists_def list_rep_def is_queue_sub_def is_channel_sub_def add_msg_def)

lemma add_msg_fields [simp]: "objs (add_msg m d w) = objs w" "message_counter (add_msg m d w) = message_counter w"
  by (simp_all add: add_msg_def)

text \<open>The subscription an event goes to.\<close>

definition addressee :: "(emq_object \<Rightarrow> bytes option) \<Rightarrow> world \<Rightarrow> bytes \<Rightarrow> (addr \<times> addr) list \<Rightarrow> ptr" where
  "addressee sub_name w raw ns = map_option snd (List.find (\<lambda>(a, v). sub_title sub_name w v = cstr raw) ns)"

lemma addressee_in: "addressee sub_name w raw ns = Some v \<Longrightarrow> v \<in> snd ` set ns"
  by (auto simp: addressee_def find_Some_iff in_set_conv_nth) (metis snd_conv image_eqI nth_mem)

lemma search_queue:
  assumes "client_lists c w qs cs" and "length raw = 64"
  shows "\<exists>iter. emq_list_rewind (c_queue_subscriptions c) (sess a c' b s w) = Some iter \<and>
    find_subscription queue_sub_name iter raw (sess a c' b s w) = Some (addressee queue_sub_name w raw qs)"
proof -
  obtain ql where l: "c_queue_subscriptions c = Some ql"
    "list_rep w ql (Some emq_queue_subscription_list_free_handler) ([] @ qs)"
    "\<forall>v \<in> snd ` set qs. is_queue_sub w v"
    using assms(1) unfolding client_lists_def by auto
  show ?thesis
    using l assms(2) emq_list_rewind_rep [of "sess a c' b s w" ql _ qs]
      queue_subs.find_subscription_rep [of "sess a c' b s w" ql _ "[]" qs raw]
    by (simp add: addressee_def)
qed

lemma search_channel:
  assumes "client_lists c w qs cs" and "length raw = 64"
  shows "\<exists>iter. emq_list_rewind (c_channel_subscriptions c) (sess a c' b s w) = Some iter \<and>
    find_subscription channel_sub_name iter raw (sess a c' b s w) = Some (addressee channel_sub_name w raw cs)"
proof -
  obtain cl where l: "c_channel_subscriptions c = Some cl"
    "list_rep w cl (Some emq_channel_subscription_list_free_handler) ([] @ cs)"
    "\<forall>v \<in> snd ` set cs. is_channel_sub w v"
    using assms(1) unfolding client_lists_def by auto
  show ?thesis
    using l assms(2) emq_list_rewind_rep [of "sess a c' b s w" cl _ cs]
      channel_subs.find_subscription_rep [of "sess a c' b s w" cl _ "[]" cs raw]
    by (simp add: addressee_def)
qed

text \<open>
  What a callback finds: the invariant of the client, and, when it gets a message, a complete one that owns its data.
\<close>

definition owned_msg :: "emq_client \<Rightarrow> world \<Rightarrow> ptr \<Rightarrow> bool" where
  "owned_msg c w msg \<longleftrightarrow> (case msg of None \<Rightarrow> True
     | Some p \<Rightarrow> \<exists>m d. msg_rep w p m d \<and> m_zero_copy m = Some EMQ_ZEROCOPY_OFF \<and> m_data m \<noteq> c_request c)"

definition callback_ready :: "addr \<Rightarrow> emq_client \<Rightarrow> byte option list \<Rightarrow> socket \<Rightarrow> world \<Rightarrow>
    (addr \<times> addr) list \<Rightarrow> (addr \<times> addr) list \<Rightarrow> ptr \<Rightarrow> bool" where
  "callback_ready a c b s w qs cs msg \<longleftrightarrow> sess_ok c b \<and> world_wf (sess a c b s w) \<and>
     client_lists c w qs cs \<and> owned_msg c w msg"

lemma callback_ready_None: "callback_ready a c b s w qs cs msg \<Longrightarrow> callback_ready a c b s w qs cs None"
  by (simp add: callback_ready_def owned_msg_def)

lemma world_wf_add_msg: "world_wf (sess a c b s w) \<Longrightarrow> world_wf (sess a c b s (add_msg m d w))"
  unfolding world_wf_sess_iff by (auto simp: world_wf_def add_msg_def)

lemma world_wf_brk: "world_wf (sess a c b s w) \<Longrightarrow> brk w \<le> n \<Longrightarrow> world_wf (sess a c b s (w\<lparr>brk := n\<rparr>))"
  unfolding world_wf_sess_iff by (auto simp: world_wf_def)

lemma callback_ready_upd:
  assumes "callback_ready a c b s w qs cs None"
  shows "callback_ready a c b s' w qs cs None"
    "brk w \<le> n \<Longrightarrow> callback_ready a (c\<lparr>c_error := e\<rparr>) b s' (w\<lparr>brk := n\<rparr>) qs cs None"
    "callback_ready a (c\<lparr>c_error := e\<rparr>) b s' w qs cs None"
  using assms world_wf_brk [of a c b s w n]
  by (simp_all add: callback_ready_def owned_msg_def world_wf_sess_iff)

lemma callback_ready_message:
  assumes "callback_ready a c b s w qs cs None" and "length d = unat sz"
  shows "callback_ready a c b s' (add_msg (read_msg sz (Suc (brk w))) d w) qs cs (Some (brk w))"
proof -
  have "msg_rep (add_msg (read_msg sz (Suc (brk w))) d w) (brk w) (read_msg sz (Suc (brk w))) d"
    using assms(2) by (simp add: msg_rep_def add_msg_def read_msg_def)
  moreover have "world_wf (sess a c b s' w)" using assms(1) by (simp add: callback_ready_def world_wf_sess_iff)
  moreover have "c_request c \<noteq> Some (Suc (brk w))"
    using assms(1) wf_request [of a c b s w] by (auto simp: callback_ready_def)
  ultimately show ?thesis
    using assms(1) world_wf_add_msg by (auto simp: callback_ready_def owned_msg_def read_msg_def)
qed

lemma delivered_message:
  assumes "callback_ready a c b s w qs cs None" and "length d = unat sz"
  shows "msg_rep (sess a c b s' (add_msg (read_msg sz (Suc (brk w))) d w)) (brk w) (read_msg sz (Suc (brk w))) d"
proof -
  have "the (c_request c) < brk w" using assms(1) wf_request [of a c b s w] by (simp add: callback_ready_def)
  then show ?thesis using assms(2) by (simp add: msg_rep_def add_msg_def read_msg_def)
qed

text \<open>
  The outcomes of a handler: it gives up before the callback, with the memory as it was, or it
  calls the callback of the addressee.
\<close>

inductive gives_up :: "addr \<Rightarrow> emq_client \<Rightarrow> byte option list \<Rightarrow> socket \<Rightarrow> world \<Rightarrow> (int \<times> world) option \<Rightarrow> bool"
  for a c b s w where
  no_text: "shrinks s s' \<Longrightarrow> gives_up a c b s w (Some (-1, sess a c b s' w))"
| with_text: "shrinks s s' \<Longrightarrow> brk w \<le> n \<Longrightarrow>
    gives_up a c b s w (Some (-1, sess a (c\<lparr>c_error := error_text e\<rparr>) b s' (w\<lparr>brk := n\<rparr>)))"

lemma gives_up_read: "shrinks s s' \<Longrightarrow>
    gives_up a c b s w (Some (-1, sess a (c\<lparr>c_error := ''Error read request''\<rparr>) b s' w))"
  using gives_up.with_text [of s s' w "brk w" a c b EMQ_ERROR_READ] by simp

definition calls_back :: "addr \<Rightarrow> emq_client \<Rightarrow> byte option list \<Rightarrow> socket \<Rightarrow> world \<Rightarrow> (addr \<times> addr) list \<Rightarrow>
    (addr \<times> addr) list \<Rightarrow> (ptr \<Rightarrow> bool) \<Rightarrow> (ptr \<Rightarrow> world \<Rightarrow> (int \<times> world) option) \<Rightarrow> (int \<times> world) option \<Rightarrow> bool" where
  "calls_back a c b s w qs cs P f r \<longleftrightarrow> (\<exists>msg s' w'. shrinks s s' \<and> P msg \<and>
     callback_ready a c b s' w' qs cs msg \<and> message_counter w' = message_counter w \<and> r = run_callback (Some a) (f msg) (sess a c b s' w'))"

lemma read_message_cases:
  assumes ready: "callback_ready a c b s w qs cs None" and sz: "unat sz < 2 ^ 32"
  shows "(\<exists>e n s'. emq_read_message (Some a) sz (sess a c b s w)
       = Some (None, sess a (c\<lparr>c_error := error_text e\<rparr>) b s' (w\<lparr>brk := n\<rparr>)) \<and> brk w \<le> n \<and> shrinks s s') \<or>
    (\<exists>m d s'. emq_read_message (Some a) sz (sess a c b s w)
       = Some (Some (brk w), sess a c b s' (add_msg m d w)) \<and> shrinks s s' \<and>
       callback_ready a c b s' (add_msg m d w) qs cs (Some (brk w)))"
proof -
  have wf: "world_wf (sess a c b s w)" using ready by (simp add: callback_ready_def)
  obtain r s' where r: "message_read (unat sz) s r s'" "case r of
      Inl e \<Rightarrow> (\<exists>n. emq_read_message (Some a) sz (sess a c b s w)
          = Some (None, sess a (c\<lparr>c_error := error_text e\<rparr>) b s' (w\<lparr>brk := n\<rparr>)) \<and> brk w \<le> n)
    | Inr d \<Rightarrow> emq_read_message (Some a) sz (sess a c b s w)
          = Some (Some (brk w), sess a c b s' (add_msg (read_msg sz (Suc (brk w))) d w))"
    using emq_read_message_sess [OF wf sz] by blast
  note sh = shrinks_message [OF r(1)]
  show ?thesis
  proof (cases r)
    case (Inl e)
    with r(2) sh show ?thesis by auto
  next
    case (Inr d)
    then have "length d = unat sz" using r(1) by (auto elim: message_readE)
    then show ?thesis
      using callback_ready_message [OF ready, of d sz s'] Inr r(2) sh by auto
  qed
qed

lemma event_size: "unat (ucast (n :: u32) :: size_t) < 2 ^ 32"
  using unat_u32_lt [of n] by (simp add: unat_ucast_u64)

lemma read_cases:
  assumes "0 \<le> n" and "shrinks s0 s"
  obtains (lost) bs s' where "emq_client_read (Some a) n (sess a c b s w) = Some (-1, bs, sess a c b s' w)" "shrinks s0 s'"
    | (got) bs s' where "emq_client_read (Some a) n (sess a c b s w) = Some (n, bs, sess a c b s' w)"
      "length bs = nat n" "shrinks s0 s'"
proof -
  obtain r bs s' where rd: "emq_client_read (Some a) n (sess a c b s w) = Some (r, bs, sess a c b s' w)"
    "sock_read s bs s'" "r = -1 \<or> r = n \<and> int (length bs) = n"
    using emq_client_read_sess by blast
  note sh = shrinks_trans [OF assms(2) shrinks_read [OF rd(2)]]
  from rd(3) show ?thesis
  proof (elim disjE conjE)
    assume "r = -1"
    with rd(1) sh show ?thesis by (intro lost) simp_all
  next
    assume r: "r = n" "int (length bs) = n"
    then have "length bs = nat n" by simp
    with r(1) rd(1) sh show ?thesis by (intro got) simp_all
  qed
qed

lemma emq_queue_process_sess:
  assumes ready: "callback_ready a c b s w qs cs None"
  shows "gives_up a c b s w (emq_queue_process cb (Some a) h (sess a c b s w)) \<or>
    (\<exists>v q. v \<in> snd ` set qs \<and> objs w v = Some (QueueSubscription q) \<and>
      calls_back a c b s w qs cs (\<lambda>msg. msg = None \<longleftrightarrow> ev_type h \<noteq> EMQ_PROTOCOL_EVENT_MESSAGE)
        (\<lambda>msg. cb (qs_callback q) (Some a) EMQ_CALLBACK_QUEUE (qs_name q) None None msg)
        (emq_queue_process cb (Some a) h (sess a c b s w)))"
proof -
  have cl: "client_lists c w qs cs" using ready by (simp add: callback_ready_def)
  obtain r raw s1 where rd: "emq_client_read (Some a) 64 (sess a c b s w) = Some (r, raw, sess a c b s1 w)"
    "sock_read s raw s1" "r = -1 \<or> r = 64 \<and> int (length raw) = 64"
    using emq_client_read_sess [of a 64 c b s w] by auto
  note sh = shrinks_read [OF rd(2)] and ready1 = callback_ready_upd(1) [OF ready, of s1]
  consider "r = -1" | "r = 64" "length raw = 64" using rd(3) by linarith
  then show ?thesis
  proof cases
    case 1
    with rd(1) sh show ?thesis by (simp add: emq_queue_process_def gives_up_read)
  next
    case 2
    obtain iter where it: "emq_list_rewind (c_queue_subscriptions c) (sess a c b s1 w) = Some iter"
      "find_subscription queue_sub_name iter raw (sess a c b s1 w) = Some (addressee queue_sub_name w raw qs)"
      using search_queue [OF cl 2(2)] by blast
    show ?thesis
    proof (cases "addressee queue_sub_name w raw qs")
      case None
      with 2 rd(1) it sh show ?thesis by (simp add: emq_queue_process_def gives_up.no_text)
    next
      case (Some v)
      have v: "v \<in> snd ` set qs" using Some by (rule addressee_in)
      then obtain q where q: "objs w v = Some (QueueSubscription q)"
        using cl unfolding client_lists_def is_queue_sub_def by blast
      show ?thesis
      proof (cases "ev_type h = EMQ_PROTOCOL_EVENT_MESSAGE")
        case False
        have "calls_back a c b s w qs cs (\<lambda>msg. msg = None \<longleftrightarrow> ev_type h \<noteq> EMQ_PROTOCOL_EVENT_MESSAGE)
            (\<lambda>msg. cb (qs_callback q) (Some a) EMQ_CALLBACK_QUEUE (qs_name q) None None msg)
            (emq_queue_process cb (Some a) h (sess a c b s w))"
          unfolding calls_back_def using False 2 rd(1) it Some q sh ready1
          by (intro exI [of _ None] exI [of _ s1] exI [of _ w]) (simp add: emq_queue_process_def)
        with v q show ?thesis by blast
      next
        case True
        consider (fails) e n s' where "emq_read_message (Some a) (ucast (ev_bodylen h - 64)) (sess a c b s1 w)
             = Some (None, sess a (c\<lparr>c_error := error_text e\<rparr>) b s' (w\<lparr>brk := n\<rparr>))" "brk w \<le> n" "shrinks s1 s'"
          | (reads) m d s' where "emq_read_message (Some a) (ucast (ev_bodylen h - 64)) (sess a c b s1 w)
             = Some (Some (brk w), sess a c b s' (add_msg m d w))" "shrinks s1 s'"
             "callback_ready a c b s' (add_msg m d w) qs cs (Some (brk w))"
          using read_message_cases [OF ready1 event_size] by blast
        then show ?thesis
        proof cases
          case fails
          with True 2 rd(1) it Some show ?thesis
            using gives_up.with_text [OF shrinks_trans [OF sh fails(3)] fails(2)]
            by (simp add: emq_queue_process_def)
        next
          case reads
          have "calls_back a c b s w qs cs (\<lambda>msg. msg = None \<longleftrightarrow> ev_type h \<noteq> EMQ_PROTOCOL_EVENT_MESSAGE)
              (\<lambda>msg. cb (qs_callback q) (Some a) EMQ_CALLBACK_QUEUE (qs_name q) None None msg)
              (emq_queue_process cb (Some a) h (sess a c b s w))"
            unfolding calls_back_def using True 2 rd(1) it Some q reads shrinks_trans [OF sh reads(2)]
            by (intro exI [of _ "Some (brk w)"] exI [of _ s'] exI [of _ "add_msg m d w"])
              (simp add: emq_queue_process_def)
          with v q show ?thesis by blast
        qed
      qed
    qed
  qed
qed

text \<open>The read of the pattern, when the event has one.\<close>

lemma read_third:
  assumes "shrinks s0 s"
  obtains (lost) bs s' where "(if ext then emq_client_read (Some a) 32 (sess a c b s w) else Some (0, [], sess a c b s w))
      = Some (-1, bs, sess a c b s' w)" "shrinks s0 s'"
    | (got) k bs s' where "(if ext then emq_client_read (Some a) 32 (sess a c b s w) else Some (0, [], sess a c b s w))
      = Some (k, bs, sess a c b s' w)" "k \<noteq> -1" "shrinks s0 s'"
proof (cases ext)
  case False
  with assms show ?thesis by (intro got [of 0 "[]" s]) simp_all
next
  case True
  have nz: "(32 :: int) \<noteq> -1" by simp
  show ?thesis
  proof (rule read_cases [OF _ assms, of 32 a c b w])
    show "(0 :: int) \<le> 32" by simp
  next
    fix bs s' assume "emq_client_read (Some a) 32 (sess a c b s w) = Some (-1, bs, sess a c b s' w)" "shrinks s0 s'"
    with True show ?thesis by (intro lost) simp_all
  next
    fix bs s' assume "emq_client_read (Some a) 32 (sess a c b s w) = Some (32, bs, sess a c b s' w)" "shrinks s0 s'"
    with True nz show ?thesis by (intro got [of 32 bs s']) simp_all
  qed
qed

lemma emq_channel_process_sess:
  assumes ready: "callback_ready a c b s w qs cs None"
  shows "gives_up a c b s w (emq_channel_process cb (Some a) h ext (sess a c b s w)) \<or>
    (\<exists>v q topic pattern. v \<in> snd ` set cs \<and> objs w v = Some (ChannelSubscription q) \<and>
      calls_back a c b s w qs cs (\<lambda>msg. msg \<noteq> None)
        (\<lambda>msg. cb (cs_callback q) (Some a) EMQ_CALLBACK_CHANNEL (cs_name q) (Some topic)
           (if ext then Some pattern else None) msg)
        (emq_channel_process cb (Some a) h ext (sess a c b s w)))"
    (is "gives_up a c b s w ?run \<or> _")
proof -
  have cl: "client_lists c w qs cs" using ready by (simp add: callback_ready_def)
  consider (f1) bs s1 where "emq_client_read (Some a) 64 (sess a c b s w) = Some (-1, bs, sess a c b s1 w)" "shrinks s s1"
    | (r1) raw s1 where "emq_client_read (Some a) 64 (sess a c b s w) = Some (64, raw, sess a c b s1 w)"
      "length raw = 64" "shrinks s s1"
    by (rule read_cases [where n = 64 and a = a and b = b and c = c and s = s and w = w, OF _ shrinks_refl]) simp_all
  then show ?thesis
  proof cases
    case f1
    then show ?thesis by (simp add: emq_channel_process_def gives_up_read)
  next
    case r1
    consider (f2) bs s2 where "emq_client_read (Some a) 32 (sess a c b s1 w) = Some (-1, bs, sess a c b s2 w)" "shrinks s s2"
      | (r2) topic s2 where "emq_client_read (Some a) 32 (sess a c b s1 w) = Some (32, topic, sess a c b s2 w)" "shrinks s s2"
      by (rule read_cases [where n = 32 and a = a and b = b and c = c and w = w, OF _ r1(3)]) simp_all
    then show ?thesis
    proof cases
      case f2
      with r1 show ?thesis by (simp add: emq_channel_process_def gives_up_read)
    next
      case r2
      let ?third = "if ext then emq_client_read (Some a) 32 (sess a c b s2 w) else Some (0, [], sess a c b s2 w)"
      consider (f3) bs s3 where "?third = Some (-1, bs, sess a c b s3 w)" "shrinks s s3"
        | (r3) k pattern s3 where "?third = Some (k, pattern, sess a c b s3 w)" "k \<noteq> -1" "shrinks s s3"
        by (rule read_third [OF r2(2)])
      then show ?thesis
      proof cases
        case f3
        with r1 r2 show ?thesis by (simp add: emq_channel_process_def gives_up_read)
      next
        case r3
        obtain iter where it: "emq_list_rewind (c_channel_subscriptions c) (sess a c b s3 w) = Some iter"
          "find_subscription channel_sub_name iter raw (sess a c b s3 w) = Some (addressee channel_sub_name w raw cs)"
          using search_channel [OF cl r1(2)] by blast
        note ready3 = callback_ready_upd(1) [OF ready, of s3]
        show ?thesis
        proof (cases "addressee channel_sub_name w raw cs")
          case None
          with r1 r2 r3 it show ?thesis by (simp add: emq_channel_process_def gives_up.no_text)
        next
          case (Some v)
          have v: "v \<in> snd ` set cs" using Some by (rule addressee_in)
          then obtain q where q: "objs w v = Some (ChannelSubscription q)"
            using cl unfolding client_lists_def is_channel_sub_def by blast
          let ?sz = "ucast (ev_bodylen h - (if ext then 128 else 96)) :: size_t"
          consider (fails) e n s' where "emq_read_message (Some a) ?sz (sess a c b s3 w)
               = Some (None, sess a (c\<lparr>c_error := error_text e\<rparr>) b s' (w\<lparr>brk := n\<rparr>))" "brk w \<le> n" "shrinks s3 s'"
            | (reads) m d s' where "emq_read_message (Some a) ?sz (sess a c b s3 w)
               = Some (Some (brk w), sess a c b s' (add_msg m d w))" "shrinks s3 s'"
               "callback_ready a c b s' (add_msg m d w) qs cs (Some (brk w))"
            using read_message_cases [OF ready3 event_size] by blast
          then show ?thesis
          proof cases
            case fails
            with r1 r2 r3 it Some show ?thesis
              using gives_up.with_text [OF shrinks_trans [OF r3(3) fails(3)] fails(2)]
              by (simp add: emq_channel_process_def)
          next
            case reads
            have "?run = run_callback (Some a) (cb (cs_callback q) (Some a) EMQ_CALLBACK_CHANNEL (cs_name q)
                (Some topic) (if ext then Some pattern else None) (Some (brk w))) (sess a c b s' (add_msg m d w))"
              using r1(1) r2(1) r3(1,2) it Some q reads(1) by (simp add: emq_channel_process_def)
            then have "calls_back a c b s w qs cs (\<lambda>msg. msg \<noteq> None)
                (\<lambda>msg. cb (cs_callback q) (Some a) EMQ_CALLBACK_CHANNEL (cs_name q) (Some topic)
                   (if ext then Some pattern else None) msg) ?run"
              unfolding calls_back_def using reads(3) shrinks_trans [OF r3(3) reads(2)] add_msg_fields(2) by blast
            with v q show ?thesis by blast
          qed
        qed
      qed
    qed
  qed
qed

section \<open>Dispatch on a live connection\<close>

lemma live_read_message:
  assumes ready: "callback_ready a c b s w qs cs None" and "live s" and "incoming s = d @ rest"
    and size: "unat sz = length d" "length d < 2 ^ 31" and mem: "alloc_ok w (brk w)" "alloc_ok w (Suc (brk w))"
  shows "\<exists>s'. emq_read_message (Some a) sz (sess a c b s w)
      = Some (Some (brk w), sess a c b s' (add_msg (read_msg sz (Suc (brk w))) d w)) \<and> took_in s d s'"
proof -
  have wf: "world_wf (sess a c b s w)" using ready by (simp add: callback_ready_def)
  have "unat sz < 2 ^ 32" using size by simp
  from emq_read_message_sess [OF wf this] obtain r s' where r: "message_read (unat sz) s r s'" "case r of
      Inl e \<Rightarrow> (\<exists>n. emq_read_message (Some a) sz (sess a c b s w)
          = Some (None, sess a (c\<lparr>c_error := error_text e\<rparr>) b s' (w\<lparr>brk := n\<rparr>)) \<and> brk w \<le> n)
    | Inr d \<Rightarrow> emq_read_message (Some a) sz (sess a c b s w)
          = Some (Some (brk w), sess a c b s' (add_msg (read_msg sz (Suc (brk w))) d w))"
    "alloc_ok w (brk w) \<and> alloc_ok w (Suc (brk w)) \<and> live_reads s \<and> unat sz < 2 ^ 31 \<and>
       unat sz \<le> length (incoming s) \<longrightarrow> r = Inr (take (unat sz) (incoming s))" by blast
  have "r = Inr d" using r(3) mem size assms(3) liveD(1) [OF assms(2)] by simp
  then show ?thesis using r(1,2) took_inI [OF assms(2)] by (auto elim: message_readE)
qed

lemma unat_minus_small: "k \<le> unat x \<Longrightarrow> k < 2 ^ 32 \<Longrightarrow> unat (x - word_of_nat k :: u32) = unat x - k"
  by (subst unat_sub) (simp_all add: word_le_nat_alt unat_of_nat)

lemma event_msg_size:
  assumes "unat (n :: u32) = k + m" and "k < 2 ^ 32"
  shows "unat (ucast (n - word_of_nat k) :: size_t) = m"
  using assms unat_minus_small [of k n] by (simp add: unat_ucast_u64)

text \<open>A message event of a queue reaches the callback of its addressee with the name and the message.\<close>

lemma queue_dispatch_live:
  assumes ready: "callback_ready a c b s w qs cs None" and live: "live s"
    and reply: "incoming s = raw @ d @ rest" "length raw = 64"
    and head: "ev_type h = EMQ_PROTOCOL_EVENT_MESSAGE" "unat (ev_bodylen h) = 64 + length d" "length d < 2 ^ 31"
    and mem: "alloc_ok w (brk w)" "alloc_ok w (Suc (brk w))"
    and found: "addressee queue_sub_name w raw qs = Some v" "objs w v = Some (QueueSubscription q)"
  shows "\<exists>s'. emq_queue_process cb (Some a) h (sess a c b s w) = run_callback (Some a)
      (cb (qs_callback q) (Some a) EMQ_CALLBACK_QUEUE (qs_name q) None None (Some (brk w)))
      (sess a c b s' (add_msg (read_msg (ucast (ev_bodylen h - 64)) (Suc (brk w))) d w)) \<and>
    incoming s' = rest \<and> live s'"
proof -
  let ?sz = "ucast (ev_bodylen h - 64) :: size_t"
  have cl: "client_lists c w qs cs" using ready by (simp add: callback_ready_def)
  obtain s1 where s1: "emq_client_read (Some a) 64 (sess a c b s w) = Some (64, raw, sess a c b s1 w)" "took_in s raw s1"
    using emq_client_read_front [OF live reply(1), of 64 a c b w] reply(2) by auto
  have inc1: "incoming s1 = d @ rest" "live s1" using s1(2) reply(1) by (simp_all add: took_in_def)
  have sz: "unat ?sz = length d" using event_msg_size [of "ev_bodylen h" 64 "length d"] head(2) by simp
  obtain s' where s': "emq_read_message (Some a) ?sz (sess a c b s1 w)
      = Some (Some (brk w), sess a c b s' (add_msg (read_msg ?sz (Suc (brk w))) d w))" "took_in s1 d s'"
    using live_read_message [OF callback_ready_upd(1) [OF ready] inc1(2,1) sz head(3) mem] by blast
  obtain iter where "emq_list_rewind (c_queue_subscriptions c) (sess a c b s1 w) = Some iter"
    "find_subscription queue_sub_name iter raw (sess a c b s1 w) = Some (addressee queue_sub_name w raw qs)"
    using search_queue [OF cl reply(2)] by blast
  then have "emq_queue_process cb (Some a) h (sess a c b s w) = run_callback (Some a)
      (cb (qs_callback q) (Some a) EMQ_CALLBACK_QUEUE (qs_name q) None None (Some (brk w)))
      (sess a c b s' (add_msg (read_msg ?sz (Suc (brk w))) d w))"
    using s1(1) s'(1) head(1) found by (simp add: emq_queue_process_def)
  moreover have "incoming s' = rest" "live s'" using s'(2) inc1(1) by (simp_all add: took_in_def)
  ultimately show ?thesis by blast
qed

text \<open>An event for a queue nobody subscribed: -1, no error text, and the message is left in the stream.\<close>

lemma queue_unknown_live:
  assumes ready: "callback_ready a c b s w qs cs None" and live: "live s"
    and reply: "incoming s = raw @ rest" "length raw = 64"
    and unknown: "addressee queue_sub_name w raw qs = None"
  shows "\<exists>s'. emq_queue_process cb (Some a) h (sess a c b s w) = Some (-1, sess a c b s' w) \<and>
    incoming s' = rest \<and> live s'"
proof -
  have cl: "client_lists c w qs cs" using ready by (simp add: callback_ready_def)
  obtain s1 where s1: "emq_client_read (Some a) 64 (sess a c b s w) = Some (64, raw, sess a c b s1 w)" "took_in s raw s1"
    using emq_client_read_front [OF live reply(1), of 64 a c b w] reply(2) by auto
  obtain iter where "emq_list_rewind (c_queue_subscriptions c) (sess a c b s1 w) = Some iter"
    "find_subscription queue_sub_name iter raw (sess a c b s1 w) = Some (addressee queue_sub_name w raw qs)"
    using search_queue [OF cl reply(2)] by blast
  then have "emq_queue_process cb (Some a) h (sess a c b s w) = Some (-1, sess a c b s1 w)"
    using s1(1) unknown by (simp add: emq_queue_process_def)
  moreover have "incoming s1 = rest" "live s1" using s1(2) reply(1) by (simp_all add: took_in_def)
  ultimately show ?thesis by blast
qed

text \<open>
  A channel event reaches the callback of the first subscription with the channel's name; the
  topic the subscription was made for is not compared.
\<close>

lemma channel_dispatch_live:
  assumes ready: "callback_ready a c b s w qs cs None" and live: "live s"
    and reply: "incoming s = raw @ topic @ pattern @ d @ rest" "length raw = 64" "length topic = 32"
      "length pattern = (if ext then 32 else 0)"
    and head: "unat (ev_bodylen h) = 96 + length pattern + length d" "length d < 2 ^ 31"
    and mem: "alloc_ok w (brk w)" "alloc_ok w (Suc (brk w))"
    and found: "addressee channel_sub_name w raw cs = Some v" "objs w v = Some (ChannelSubscription q)"
  shows "\<exists>s' sz. emq_channel_process cb (Some a) h ext (sess a c b s w) = run_callback (Some a)
      (cb (cs_callback q) (Some a) EMQ_CALLBACK_CHANNEL (cs_name q) (Some topic)
        (if ext then Some pattern else None) (Some (brk w)))
      (sess a c b s' (add_msg (read_msg sz (Suc (brk w))) d w)) \<and> unat sz = length d \<and>
    incoming s' = rest \<and> live s'"
proof -
  let ?sz = "ucast (ev_bodylen h - (if ext then 128 else 96)) :: size_t"
  have cl: "client_lists c w qs cs" using ready by (simp add: callback_ready_def)
  obtain s1 where s1: "emq_client_read (Some a) 64 (sess a c b s w) = Some (64, raw, sess a c b s1 w)" "took_in s raw s1"
    using emq_client_read_front [OF live reply(1), of 64 a c b w] reply(2) by auto
  have inc1: "live s1" "incoming s1 = topic @ pattern @ d @ rest" using s1(2) reply(1) by (simp_all add: took_in_def)
  obtain s2 where s2: "emq_client_read (Some a) 32 (sess a c b s1 w) = Some (32, topic, sess a c b s2 w)" "took_in s1 topic s2"
    using emq_client_read_front [OF inc1, of 32 a c b w] reply(3) by auto
  have inc2: "live s2" "incoming s2 = pattern @ d @ rest" using s2(2) inc1(2) by (simp_all add: took_in_def)
  obtain k s3 where s3: "(if ext then emq_client_read (Some a) 32 (sess a c b s2 w) else Some (0, [], sess a c b s2 w))
      = Some (k, pattern, sess a c b s3 w)" "k \<noteq> -1" "took_in s2 pattern s3"
  proof (cases ext)
    case True
    have nz: "(32 :: int) \<noteq> -1" by simp
    from True nz show ?thesis
      using emq_client_read_front [OF inc2, of 32 a c b w] reply(4) by (auto intro: that [of 32])
  next
    case False
    with reply(4) inc2(1) show ?thesis by (intro that [of 0 s2]) (simp_all add: took_in_def)
  qed
  have inc3: "live s3" "incoming s3 = d @ rest" using s3(3) inc2(2) by (simp_all add: took_in_def)
  have sz: "unat ?sz = length d"
    using event_msg_size [of "ev_bodylen h" 128 "length d"] event_msg_size [of "ev_bodylen h" 96 "length d"] head(1) reply(4)
    by (cases ext) simp_all
  obtain s' where s': "emq_read_message (Some a) ?sz (sess a c b s3 w)
      = Some (Some (brk w), sess a c b s' (add_msg (read_msg ?sz (Suc (brk w))) d w))" "took_in s3 d s'"
    using live_read_message [OF callback_ready_upd(1) [OF ready] inc3 sz head(2) mem] by blast
  obtain iter where it: "emq_list_rewind (c_channel_subscriptions c) (sess a c b s3 w) = Some iter"
    "find_subscription channel_sub_name iter raw (sess a c b s3 w) = Some (addressee channel_sub_name w raw cs)"
    using search_channel [OF cl reply(2)] by blast
  have "emq_channel_process cb (Some a) h ext (sess a c b s w) = run_callback (Some a)
      (cb (cs_callback q) (Some a) EMQ_CALLBACK_CHANNEL (cs_name q) (Some topic)
        (if ext then Some pattern else None) (Some (brk w)))
      (sess a c b s' (add_msg (read_msg ?sz (Suc (brk w))) d w))"
    using s1(1) s2(1) s3(1,2) s'(1) it found by (simp add: emq_channel_process_def)
  moreover have "incoming s' = rest" "live s'" using s'(2) inc3(2) by (simp_all add: took_in_def)
  ultimately show ?thesis using sz by blast
qed

end
