(* ===== verification/Emq_Callbacks.thy ===== *)
theory Emq_Callbacks
  imports Emq_Process
begin

text \<open>
  Callbacks and the loop of \<open>emq_process\<close> together. The contract of a callback is the locale
  \<open>callback_contract\<close>; under it the loop ends and the invariant of the client holds
  afterwards. The callbacks of the two example programs are shown to keep the contract,
  including that they unsubscribe while they run, as long as their counter has room.
\<close>

section \<open>The callbacks of the example programs\<close>

text \<open>
  The callbacks of \<^verbatim>\<open>src/src/examples/queue-subscribe.c\<close> and
  \<^verbatim>\<open>src/src/examples/channel-subscribe.c\<close>, but for what they print. Each counts its messages in
  the static variable \<open>message_counter\<close> of its program; when it has seen \<open>MESSAGES\<close> of them it
  ends the subscription, with acknowledgements off so that it need not read among the events, and
  the loop. Reading the data of a null message is the crash it is in C.
\<close>

definition MESSAGES :: int where
  "MESSAGES = 10"

text \<open>\<open>++message_counter\<close> on an \<open>int\<close>, which is not defined at the largest value.\<close>

definition INT_MAX :: int where
  "INT_MAX = 2147483647"

definition count_message :: "world \<Rightarrow> world option" where
  "count_message w = (if message_counter w = INT_MAX then None
     else Some (w\<lparr>message_counter := message_counter w + 1\<rparr>))"

definition queue_message_callback :: user_function where
  "queue_message_callback client type name topic pattern msg w = do {
     _ \<leftarrow> emq_msg_data msg w;
     w \<leftarrow> count_message w;
     if message_counter w \<ge> MESSAGES then do {
       w \<leftarrow> emq_noack_enable client w;
       (_, w) \<leftarrow> emq_queue_unsubscribe client (ascii ''.queue-test'') w;
       w \<leftarrow> emq_noack_disable client w;
       w \<leftarrow> emq_msg_release msg w;
       Some (1, w) }
     else do {
       w \<leftarrow> emq_msg_release msg w;
       Some (0, w) } }"

definition channel_message_callback :: user_function where
  "channel_message_callback client type name topic pattern msg w = do {
     _ \<leftarrow> emq_msg_data msg w;
     w \<leftarrow> count_message w;
     if message_counter w \<ge> MESSAGES then do {
       w \<leftarrow> emq_noack_enable client w;
       (_, w) \<leftarrow> emq_channel_punsubscribe client (ascii ''.channel-test'') (ascii ''world.belarus.*'') w;
       w \<leftarrow> emq_noack_disable client w;
       w \<leftarrow> emq_msg_release msg w;
       Some (1, w) }
     else do {
       w \<leftarrow> emq_msg_release msg w;
       Some (0, w) } }"

section \<open>The contract of the callbacks\<close>

text \<open>
  What \<open>emq_process\<close> relies on: a callback returns, leaves the invariant of the client as it found it, does not
  put bytes back into the connection, and makes no queue subscription when there is none. It
  takes the ownership of its message. Some callbacks cannot take the null pointer a \<open>NOTIFY\<close>
  event comes with; \<open>null_ok\<close> says whether these can. Nor can a function that counts its calls in
  an \<open>int\<close> be called without end: \<open>room n k\<close> says that the functions can take all events of
  \<open>n\<close> bytes of input when the variable of the program is at \<open>k\<close>.
\<close>

locale callback_contract =
  fixes cb :: "callback \<Rightarrow> user_function"
    and null_ok :: bool
    and room :: "nat \<Rightarrow> int \<Rightarrow> bool"
  assumes room_mono: "room n k \<Longrightarrow> m \<le> n \<Longrightarrow> room m k"
    and keeps: "callback_ready a c b s w qs cs msg \<Longrightarrow> null_ok \<or> msg \<noteq> None \<Longrightarrow>
    room (sizeof_header + length (incoming s)) (message_counter w) \<Longrightarrow>
    \<exists>r c' b' s' w' qs' cs'. cb f (Some a) kind name topic pattern msg (sess a c b s w)
        = Some (r, sess a c' b' s' w') \<and> callback_ready a c' b' s' w' qs' cs' None \<and>
      shrinks s s' \<and> (qs = [] \<longrightarrow> qs' = []) \<and> room (length (incoming s')) (message_counter w')"

text \<open>No event header without a message is anywhere in the rest of the stream.\<close>

definition notify_free :: "socket \<Rightarrow> bool" where
  "notify_free s \<longleftrightarrow> \<not> (\<exists>xs h ys. incoming s = xs @ event_header_bytes h @ ys \<and> event_expected h \<and>
     ev_type h \<noteq> EMQ_PROTOCOL_EVENT_MESSAGE)"

lemma notify_free_shrinks: "notify_free s \<Longrightarrow> shrinks s s' \<Longrightarrow> notify_free s'"
  unfolding notify_free_def shrinks_def by (metis append_assoc)

text \<open>A result of a handler with the invariant in place; \<open>R\<close> is what else holds of input and counter.\<close>

definition event_done :: "(nat \<Rightarrow> int \<Rightarrow> bool) \<Rightarrow> addr \<Rightarrow> socket \<Rightarrow> (addr \<times> addr) list \<Rightarrow> (int \<times> world) option \<Rightarrow> bool" where
  "event_done R a s qs res \<longleftrightarrow> (\<exists>r c' b' s' w' qs' cs'. res = Some (r, sess a c' b' s' w') \<and> r \<in> {-1, 0, 1} \<and>
     callback_ready a c' b' s' w' qs' cs' None \<and> shrinks s s' \<and> (qs = [] \<longrightarrow> qs' = []) \<and>
     (r = 1 \<longrightarrow> qs' = []) \<and> R (length (incoming s')) (message_counter w'))"

lemma gives_up_done:
  assumes "gives_up a c b s w res" and "callback_ready a c b s w qs cs None"
    and less: "\<forall>m \<le> length (incoming s). R m (message_counter w)"
  shows "event_done R a s qs res"
  using assms(1)
proof cases
  case (no_text s')
  have "(-1 :: int) \<noteq> 1" "R (length (incoming s')) (message_counter w)" using less shrinks_length [OF no_text(2)] by simp_all
  with no_text callback_ready_upd(1) [OF assms(2), of s'] show ?thesis unfolding event_done_def by blast
next
  case (with_text s' n e)
  have "(-1 :: int) \<noteq> 1" "R (length (incoming s')) (message_counter (w\<lparr>brk := n\<rparr>))"
    using less shrinks_length [OF with_text(2)] by simp_all
  with with_text callback_ready_upd(2) [OF assms(2), of n "error_text e" s'] show ?thesis unfolding event_done_def by blast
qed

lemma client_lists_headers:
  assumes "client_lists c w qs cs"
  obtains ql cl where "deref (list_hdrs w) (c_queue_subscriptions c) = Some ql" "list_length ql = length qs"
    "deref (list_hdrs w) (c_channel_subscriptions c) = Some cl" "list_length cl = length cs"
proof -
  obtain qp cp where "c_queue_subscriptions c = Some qp" "c_channel_subscriptions c = Some cp"
    "list_rep w qp (Some emq_queue_subscription_list_free_handler) qs"
    "list_rep w cp (Some emq_channel_subscription_list_free_handler) cs"
    using assms unfolding client_lists_def by (elim exE conjE) (rule that)
  then show ?thesis using list_rep_length [of w qp] list_rep_length [of w cp] that by fastforce
qed

context callback_contract
begin

lemma calls_back_done:
  assumes "calls_back a c b s w qs cs P (\<lambda>msg. cb f (Some a) kind name topic pattern msg) res"
    and "\<And>msg. P msg \<Longrightarrow> null_ok \<or> msg \<noteq> None"
    and enough: "room (sizeof_header + length (incoming s)) (message_counter w)"
  shows "event_done room a s qs res"
proof -
  obtain msg s1 w1 where m: "shrinks s s1" "P msg" "callback_ready a c b s1 w1 qs cs msg" "message_counter w1 = message_counter w"
    "res = run_callback (Some a) (cb f (Some a) kind name topic pattern msg) (sess a c b s1 w1)"
    using assms(1) unfolding calls_back_def by (elim exE conjE) (rule that)
  have en: "room (sizeof_header + length (incoming s1)) (message_counter w1)"
    using room_mono [OF enough] shrinks_length [OF m(1)] m(4) by simp
  obtain r c' b' s' w' qs' cs' where k: "cb f (Some a) kind name topic pattern msg (sess a c b s1 w1)
      = Some (r, sess a c' b' s' w')" "callback_ready a c' b' s' w' qs' cs' None" "shrinks s1 s'" "qs = [] \<longrightarrow> qs' = []"
      "room (length (incoming s')) (message_counter w')"
    using keeps [OF m(3) assms(2) [OF m(2)] en, of f kind name topic pattern] by (elim exE conjE) (rule that)
  have "client_lists c' w' qs' cs'" using k(2) by (simp add: callback_ready_def)
  then obtain ql where "deref (list_hdrs w') (c_queue_subscriptions c') = Some ql" "list_length ql = length qs'"
    by (rule client_lists_headers)
  then have "\<exists>n. res = Some (n, sess a c' b' s' w') \<and> n \<in> {-1, 0, 1} \<and> (n = 1 \<longrightarrow> qs' = [])"
    using m(5) k(1) by (simp add: run_callback_def)
  then show ?thesis using k(2-5) shrinks_trans [OF m(1) k(3)] unfolding event_done_def by blast
qed

lemma process_event_done:
  assumes ready: "callback_ready a c b s w qs cs None"
    and quiet: "null_ok \<or> qs = [] \<or> ev_type h = EMQ_PROTOCOL_EVENT_MESSAGE"
    and enough: "room (sizeof_header + length (incoming s)) (message_counter w)"
  shows "event_done room a s qs (process_event cb (Some a) h (sess a c b s w))"
proof (cases "ev_cmd h = cmd_code EMQ_PROTOCOL_CMD_QUEUE_SUBSCRIBE")
  case True
  have less: "\<forall>m \<le> length (incoming s). room m (message_counter w)"
    using room_mono [OF enough] by simp
  from emq_queue_process_sess [OF ready, of cb h] show ?thesis
  proof (elim disjE exE conjE)
    assume "gives_up a c b s w (emq_queue_process cb (Some a) h (sess a c b s w))"
    with True gives_up_done [where R = room, OF _ ready less] show ?thesis by (simp add: process_event_def)
  next
    fix v q
    assume "v \<in> snd ` set qs" and cbk: "calls_back a c b s w qs cs (\<lambda>msg. msg = None \<longleftrightarrow> ev_type h \<noteq> EMQ_PROTOCOL_EVENT_MESSAGE)
        (\<lambda>msg. cb (qs_callback q) (Some a) EMQ_CALLBACK_QUEUE (qs_name q) None None msg)
        (emq_queue_process cb (Some a) h (sess a c b s w))"
    then have "null_ok \<or> ev_type h = EMQ_PROTOCOL_EVENT_MESSAGE" using quiet by auto
    then have "event_done room a s qs (emq_queue_process cb (Some a) h (sess a c b s w))"
      by (intro calls_back_done [OF cbk _ enough]) blast
    with True show ?thesis by (simp add: process_event_def)
  qed
next
  case False
  have less: "\<forall>m \<le> length (incoming s). room m (message_counter w)"
    using room_mono [OF enough] by simp
  let ?ext = "ev_cmd h \<noteq> cmd_code EMQ_PROTOCOL_CMD_CHANNEL_SUBSCRIBE"
  from emq_channel_process_sess [OF ready, of cb h ?ext]
  have "event_done room a s qs (emq_channel_process cb (Some a) h ?ext (sess a c b s w))"
  proof (elim disjE exE conjE)
    assume "gives_up a c b s w (emq_channel_process cb (Some a) h ?ext (sess a c b s w))"
    then show ?thesis using ready less by (rule gives_up_done [where R = room])
  next
    fix v q topic pattern
    assume "calls_back a c b s w qs cs (\<lambda>msg. msg \<noteq> None)
        (\<lambda>msg. cb (cs_callback q) (Some a) EMQ_CALLBACK_CHANNEL (cs_name q) (Some topic)
           (if ?ext then Some pattern else None) msg)
        (emq_channel_process cb (Some a) h ?ext (sess a c b s w))"
    then show ?thesis by (rule calls_back_done [OF _ _ enough]) blast
  qed
  with False show ?thesis by (simp add: process_event_def)
qed

end

lemma no_subscriptions_sess:
  "client_lists c w qs cs \<Longrightarrow> no_subscriptions (Some a) (sess a c b s w) = Some (qs = [] \<and> cs = [])"
  by (erule client_lists_headers) (simp add: no_subscriptions_def)

context callback_contract
begin

text \<open>
  Every round takes at least a header off the stream: after any number of rounds the client is in
  order, and as long as the loop goes on there were 8 bytes for each of them.
\<close>

lemma process_rounds_done:
  assumes "callback_ready a c b s w qs cs None" and "null_ok \<or> qs = [] \<or> notify_free s"
    and "room (length (incoming s)) (message_counter w)"
  shows "\<exists>out c' b' s' w' qs' cs'. process_rounds cb n (Some a) (sess a c b s w) = Some (out, sess a c' b' s' w') \<and>
    callback_ready a c' b' s' w' qs' cs' None \<and> shrinks s s' \<and> (out = Some True \<longrightarrow> qs' = []) \<and>
    (out = None \<longrightarrow> sizeof_header * n + length (incoming s') \<le> length (incoming s)) \<and>
    room (length (incoming s')) (message_counter w')"
  using assms
proof (induction n arbitrary: c b s w qs cs)
  case 0
  then show ?case
    by (intro exI [of _ None] exI [of _ c] exI [of _ b] exI [of _ s] exI [of _ w] exI [of _ qs] exI [of _ cs]) simp
next
  case (Suc n)
  have idle: "no_subscriptions (Some a) (sess a c b s w) = Some (qs = [] \<and> cs = [])"
    using Suc.prems(1) by (simp add: callback_ready_def no_subscriptions_sess)
  show ?case
  proof (cases "qs = [] \<and> cs = []")
    case True
    have "process_rounds cb (Suc n) (Some a) (sess a c b s w) = Some (Some True, sess a c b s w)"
      by (simp add: idle True)
    with Suc.prems(1,3) True show ?thesis
      by (intro exI [of _ "Some True"] exI [of _ c] exI [of _ b] exI [of _ s] exI [of _ w] exI [of _ qs] exI [of _ cs]) simp
  next
    case False
    then have busy: "no_subscriptions (Some a) (sess a c b s w) = Some False" using idle by auto
    obtain r bs s1 where rd: "emq_client_read (Some a) (int sizeof_header) (sess a c b s w) = Some (r, bs, sess a c b s1 w)"
      "sock_read s bs s1" "r = -1 \<or> r = int sizeof_header \<and> int (length bs) = int sizeof_header"
      using emq_client_read_sess [of a "int sizeof_header" c b s w] by (elim exE conjE) (rule that)
    note sh = shrinks_read [OF rd(2)]
    let ?err = "sess a (c\<lparr>c_error := error_text EMQ_ERROR_READ\<rparr>) b s1 w"
    have err: "callback_ready a (c\<lparr>c_error := error_text EMQ_ERROR_READ\<rparr>) b s1 w qs cs None"
      using Suc.prems(1) by (rule callback_ready_upd)
    show ?thesis
    proof (cases "r = -1 \<or> \<not> event_expected (event_header_of bs)")
      case True
      then have "process_rounds cb (Suc n) (Some a) (sess a c b s w) = Some (Some False, ?err)"
        using busy rd(1) by auto
      moreover have "room (length (incoming s1)) (message_counter w)"
        using Suc.prems(3) shrinks_length [OF sh] by (rule room_mono)
      ultimately show ?thesis using err sh
        by (intro exI [of _ "Some False"] exI [of _ "c\<lparr>c_error := error_text EMQ_ERROR_READ\<rparr>"] exI [of _ b]
            exI [of _ s1] exI [of _ w] exI [of _ qs] exI [of _ cs]) simp
    next
      case go: False
      let ?h = "event_header_of bs"
      have len: "length bs = sizeof_header" using go rd(3) by simp
      have front: "incoming s = event_header_bytes ?h @ incoming s1"
        using sock_read_front [OF rd(2)] event_header_surj [of bs] len by simp
      have quiet: "null_ok \<or> qs = [] \<or> ev_type ?h = EMQ_PROTOCOL_EVENT_MESSAGE"
        using Suc.prems(2) front go unfolding notify_free_def by (metis append_Nil)
      have long: "length (incoming s) = sizeof_header + length (incoming s1)"
        using sock_read_front [OF rd(2)] len by simp
      have en: "room (sizeof_header + length (incoming s1)) (message_counter w)"
        using Suc.prems(3) unfolding long .
      obtain st c' b' s' w' qs' cs' where ev: "process_event cb (Some a) ?h (sess a c b s1 w) = Some (st, sess a c' b' s' w')"
        "callback_ready a c' b' s' w' qs' cs' None" "shrinks s1 s'" "qs = [] \<longrightarrow> qs' = []" "st = 1 \<longrightarrow> qs' = []"
        "room (length (incoming s')) (message_counter w')"
        using process_event_done [OF callback_ready_upd(1) [OF Suc.prems(1)] quiet en]
        unfolding event_done_def by (elim exE conjE) (rule that)
      have sh': "shrinks s s'" using sh ev(3) by (rule shrinks_trans)
      have run: "process_rounds cb (Suc n) (Some a) (sess a c b s w) =
          (if st = 0 then process_rounds cb n (Some a) (sess a c' b' s' w') else Some (Some (st = 1), sess a c' b' s' w'))"
        using busy rd(1) go ev(1) by simp
      show ?thesis
      proof (cases "st = 0")
        case False
        with run have "process_rounds cb (Suc n) (Some a) (sess a c b s w) = Some (Some (st = 1), sess a c' b' s' w')" by simp
        with ev(2,5,6) sh' show ?thesis
          by (intro exI [of _ "Some (st = 1)"] exI [of _ c'] exI [of _ b'] exI [of _ s'] exI [of _ w'] exI [of _ qs'] exI [of _ cs']) simp
      next
        case True
        have quiet': "null_ok \<or> qs' = [] \<or> notify_free s'"
          using Suc.prems(2) ev(4) notify_free_shrinks [OF _ sh'] by blast
        obtain out c2 b2 s2 w2 qs2 cs2 where rest: "process_rounds cb n (Some a) (sess a c' b' s' w') = Some (out, sess a c2 b2 s2 w2)"
          "callback_ready a c2 b2 s2 w2 qs2 cs2 None" "shrinks s' s2" "out = Some True \<longrightarrow> qs2 = []"
          "out = None \<longrightarrow> sizeof_header * n + length (incoming s2) \<le> length (incoming s')"
          "room (length (incoming s2)) (message_counter w2)"
          using Suc.IH [OF ev(2) quiet' ev(6)] by (elim exE conjE) (rule that)
        have "out = None \<longrightarrow> sizeof_header * Suc n + length (incoming s2) \<le> length (incoming s)"
          using rest(5) long shrinks_length [OF ev(3)] by auto
        with run True rest(1,2,4,6) shrinks_trans [OF sh' rest(3)] show ?thesis
          by (intro exI [of _ out] exI [of _ c2] exI [of _ b2] exI [of _ s2] exI [of _ w2] exI [of _ qs2] exI [of _ cs2]) simp
      qed
    qed
  qed
qed

text \<open>So the loop ends: its rounds are bounded by the input.\<close>

lemma process_loop_ends:
  assumes "callback_ready a c b s w qs cs None" and "null_ok \<or> qs = [] \<or> notify_free s"
    and "room (length (incoming s)) (message_counter w)"
  shows "\<exists>fin c' b' s' w' qs' cs'. process_loop cb (Some a) (sess a c b s w) = Some (fin, sess a c' b' s' w') \<and>
    callback_ready a c' b' s' w' qs' cs' None \<and> shrinks s s' \<and> (fin \<longrightarrow> qs' = []) \<and>
    room (length (incoming s')) (message_counter w')"
proof -
  let ?n = "Suc (length (incoming s))"
  obtain out c' b' s' w' qs' cs' where run: "process_rounds cb ?n (Some a) (sess a c b s w) = Some (out, sess a c' b' s' w')"
    "callback_ready a c' b' s' w' qs' cs' None" "shrinks s s'" "out = Some True \<longrightarrow> qs' = []"
    "out = None \<longrightarrow> sizeof_header * ?n + length (incoming s') \<le> length (incoming s)"
    "room (length (incoming s')) (message_counter w')"
    using process_rounds_done [OF assms, of ?n] by (elim exE conjE) (rule that)
  then obtain fin where "out = Some fin" by (cases out) (simp_all add: sizeof_header_def)
  with run rounds_are_the_loop [of cb ?n "Some a"] show ?thesis
    by (intro exI [of _ fin] exI [of _ c'] exI [of _ b'] exI [of _ s'] exI [of _ w'] exI [of _ qs'] exI [of _ cs']) simp
qed

end

lemma emq_process_cases:
  "emq_process cb (Some a) (sess a c b s w) = Option.bind (process_loop cb (Some a) (sess a (c\<lparr>c_error := []\<rparr>) b s w))
     (\<lambda>(fin, w). Option.bind (EMQ_SET_STATUS (Some a) (if fin then EMQ_STATUS_OK else EMQ_STATUS_ERR) w)
        (\<lambda>w. Some (if fin then EMQ_STATUS_OK else EMQ_STATUS_ERR, w)))"
  by (simp add: emq_process_def Let_def)

lemma callback_ready_status:
  "callback_ready a (c\<lparr>c_status := x\<rparr>) b s w qs cs msg = callback_ready a c b s w qs cs msg"
  "callback_ready a (c\<lparr>c_error := e\<rparr>) b s w qs cs msg = callback_ready a c b s w qs cs msg"
  "callback_ready a (c\<lparr>c_noack := n\<rparr>) b s w qs cs msg = callback_ready a c b s w qs cs msg"
  "callback_ready a (c\<lparr>c_pos := m\<rparr>) b s w qs cs msg = callback_ready a c b s w qs cs msg"
  by (auto simp: callback_ready_def world_wf_sess_iff client_lists_def sess_ok_def owned_msg_def split: option.splits)

context callback_contract
begin

lemma emq_process_ends:
  assumes "callback_ready a c b s w qs cs None" and "null_ok \<or> qs = [] \<or> notify_free s"
    and "room (length (incoming s)) (message_counter w)"
  shows "\<exists>r c' b' s' w' qs' cs'. emq_process cb (Some a) (sess a c b s w) = Some (r, sess a c' b' s' w') \<and>
    c_status c' = r \<and> r \<in> {EMQ_STATUS_OK, EMQ_STATUS_ERR} \<and>
    callback_ready a c' b' s' w' qs' cs' None \<and> shrinks s s' \<and> (r = EMQ_STATUS_OK \<longrightarrow> qs' = []) \<and>
    room (length (incoming s')) (message_counter w')"
proof -
  have "callback_ready a (c\<lparr>c_error := []\<rparr>) b s w qs cs None" using assms(1) by (simp add: callback_ready_status)
  from process_loop_ends [OF this assms(2,3)] obtain fin c' b' s' w' qs' cs' where
    lp: "process_loop cb (Some a) (sess a (c\<lparr>c_error := []\<rparr>) b s w) = Some (fin, sess a c' b' s' w')"
    "callback_ready a c' b' s' w' qs' cs' None" "shrinks s s'" "fin \<longrightarrow> qs' = []"
    "room (length (incoming s')) (message_counter w')" by (elim exE conjE) (rule that)
  let ?r = "if fin then EMQ_STATUS_OK else EMQ_STATUS_ERR"
  have "emq_process cb (Some a) (sess a c b s w) = Some (?r, sess a (c'\<lparr>c_status := ?r\<rparr>) b' s' w')"
    unfolding emq_process_cases using lp(1) by simp
  then show ?thesis
    using lp(2-5) by (intro exI [of _ ?r] exI [of _ "c'\<lparr>c_status := ?r\<rparr>"] exI [of _ b'] exI [of _ s'] exI [of _ w']
        exI [of _ qs'] exI [of _ cs']) (simp add: callback_ready_status)
qed

end

section \<open>The example callbacks keep the contract\<close>

lemma owned_msg_edits: "edits lp A V w w' \<Longrightarrow> owned_msg c w' msg = owned_msg c w msg"
  by (simp add: owned_msg_def msg_rep_def edits_fields split: option.split)

lemma owned_msg_client: "c_request c' = c_request c \<Longrightarrow> owned_msg c' w msg = owned_msg c w msg"
  by (cases msg) (simp_all add: owned_msg_def)

lemma release_ready:
  assumes "callback_ready a c b s w qs cs (Some p)"
  shows "\<exists>w'. emq_msg_release (Some p) (sess a c b s w) = Some (sess a c b s w') \<and>
    callback_ready a c b s w' qs cs None \<and> message_counter w' = message_counter w"
proof -
  obtain m d where m: "msg_rep w p m d" "m_zero_copy m = Some 0" "m_data m \<noteq> c_request c"
    using assms by (auto simp: callback_ready_def owned_msg_def EMQ_ZEROCOPY_OFF_def)
  obtain q rest where q: "m_data m = Some q" "bufs w q = Some (map Some d @ rest)" using m(1) by (auto simp: msg_rep_def)
  obtain r where r: "c_request c = Some r" using assms by (auto simp: callback_ready_def sess_ok_def)
  let ?w = "w\<lparr>bufs := (bufs w)(q := None), msgs := (msgs w)(p := None)\<rparr>"
  have rep: "msg_rep (sess a c b s w) p m d" using m(1,3) q r by (simp add: msg_rep_def)
  have "emq_msg_release (Some p) (sess a c b s w) = Some (sess a c b s ?w)"
    using emq_msg_release_owned [OF rep m(2)] q m(3) r by (simp add: sess_def fun_upd_twist)
  moreover have "callback_ready a c b s ?w qs cs None"
    using assms by (auto simp: callback_ready_def owned_msg_def world_wf_sess_iff world_wf_def)
  moreover have "message_counter ?w = message_counter w" by simp
  ultimately show ?thesis by blast
qed

text \<open>Unsubscribing inside a callback keeps what the callback was given.\<close>

context unsubscribe_command
begin

lemma unsubscribe_keeps:
  assumes ready: "sess_ok c b" and wf: "world_wf (sess a c b s w)" and lp: "subs c = Some lp"
    and tl: "two_lists w lp h is_sub ns lp' h' is_sub' ns'" and msg: "owned_msg c w msg"
  shows "\<exists>r c' b' s' w' ns2. emq_unsubscribe (Some a) build check sub_name subs name (sess a c b s w)
      = Some (r, sess a c' b' s' w') \<and> sess_ok c' b' \<and> world_wf (sess a c' b' s' w') \<and> same_client c c' \<and>
    two_lists w' lp h is_sub ns2 lp' h' is_sub' ns' \<and> owned_msg c' w' msg \<and> shrinks s s' \<and> set ns2 \<subseteq> set ns \<and>
    message_counter w' = message_counter w"
proof -
  let ?keep = "filter (\<lambda>(a, v). sub_title sub_name w v \<noteq> cstr name) ns"
  obtain e n b' s' w' where u: "emq_unsubscribe (Some a) build check sub_name subs name (sess a c b s w)
      = Some (result_of e, sess a (settle e (c\<lparr>c_pos := n\<rparr>)) b' s' w')" "sess_ok c b'"
    "acked_call (wire_request ok cmd (client_noack c) bodylen body) (c_noack c) check s e s'"
    "world_wf (sess a c b s w')"
    "if e = None then remove_step sub_name name lp ns w w' \<and> two_lists w' lp h is_sub ?keep lp' h' is_sub' ns'
     else w' = w"
    using unsubscribe_sess [OF ready wf lp tl, of check name] by (elim exE conjE) (rule that)
  let ?c = "settle e (c\<lparr>c_pos := n\<rparr>)" and ?ns = "if e = None then ?keep else ns"
  have "two_lists w' lp h is_sub ?ns lp' h' is_sub' ns'" using u(5) tl by (cases e) simp_all
  moreover have "owned_msg c w' msg" using u(5) msg by (cases e) (auto simp: remove_step_def Let_def owned_msg_edits)
  then have "owned_msg ?c w' msg" using owned_msg_client [of ?c c] by simp
  moreover have "message_counter w' = message_counter w"
    using u(5) by (cases e) (auto simp: remove_step_def Let_def dest: edits_counter)
  moreover have "world_wf (sess a ?c b' s' w')" using u(4) by (simp add: world_wf_sess_iff)
  ultimately show ?thesis
    using u(1,2) acked_call_shrinks [OF u(3)]
    by (intro exI [of _ "result_of e"] exI [of _ ?c] exI [of _ b'] exI [of _ s'] exI [of _ w'] exI [of _ ?ns]) auto
qed

end

text \<open>The state of a callback as the pair of lists the commands work on, from both sides.\<close>

lemma callback_ready_two:
  assumes "callback_ready a c b s w qs cs msg"
  obtains lp lp' where "c_queue_subscriptions c = Some lp" "c_channel_subscriptions c = Some lp'"
    "two_lists w lp emq_queue_subscription_list_free_handler is_queue_sub qs
       lp' emq_channel_subscription_list_free_handler is_channel_sub cs"
    "two_lists w lp' emq_channel_subscription_list_free_handler is_channel_sub cs
       lp emq_queue_subscription_list_free_handler is_queue_sub qs"
    "sess_ok c b" "world_wf (sess a c b s w)" "owned_msg c w msg"
proof -
  have "client_lists c w qs cs" "sess_ok c b" "world_wf (sess a c b s w)" "owned_msg c w msg"
    using assms by (simp_all add: callback_ready_def)
  then obtain lp lp' where l: "c_queue_subscriptions c = Some lp" "c_channel_subscriptions c = Some lp'"
    "two_lists w lp emq_queue_subscription_list_free_handler is_queue_sub qs
       lp' emq_channel_subscription_list_free_handler is_channel_sub cs"
    unfolding client_lists_two by auto
  from l(3) have "two_lists w lp' emq_channel_subscription_list_free_handler is_channel_sub cs
       lp emq_queue_subscription_list_free_handler is_queue_sub qs" by (rule iffD1 [OF two_lists_sym])
  with that l \<open>sess_ok c b\<close> \<open>world_wf (sess a c b s w)\<close> \<open>owned_msg c w msg\<close> show ?thesis by blast
qed

lemma callback_readyI:
  assumes "c_queue_subscriptions c = Some lp" and "c_channel_subscriptions c = Some lp'"
    and "sess_ok c' b'" and "world_wf (sess a c' b' s' w')" and "same_client c c'" and "owned_msg c' w' msg"
    and "two_lists w' lp emq_queue_subscription_list_free_handler is_queue_sub qs
       lp' emq_channel_subscription_list_free_handler is_channel_sub cs"
  shows "callback_ready a c' b' s' w' qs cs msg"
  using assms same_client_fields [OF assms(5)] by (simp add: callback_ready_def client_lists_two)

lemmas callback_readyI' = callback_readyI [OF _ _ _ _ _ _ iffD1 [OF two_lists_sym]]

lemma queue_unsubscribe_ready:
  assumes "callback_ready a c b s w qs cs msg"
  shows "\<exists>r c' b' s' w' qs' cs'. emq_queue_unsubscribe (Some a) name (sess a c b s w) = Some (r, sess a c' b' s' w') \<and>
    callback_ready a c' b' s' w' qs' cs' msg \<and> shrinks s s' \<and> (qs = [] \<longrightarrow> qs' = []) \<and>
    message_counter w' = message_counter w"
proof -
  obtain lp lp' where l: "c_queue_subscriptions c = Some lp" "c_channel_subscriptions c = Some lp'"
    "two_lists w lp emq_queue_subscription_list_free_handler is_queue_sub qs
       lp' emq_channel_subscription_list_free_handler is_channel_sub cs"
    "sess_ok c b" "world_wf (sess a c b s w)" "owned_msg c w msg"
    using assms by (rule callback_ready_two)
  obtain r' c' b' s' w' qs' where u: "emq_queue_unsubscribe (Some a) name (sess a c b s w) = Some (r', sess a c' b' s' w')"
    "sess_ok c' b'" "world_wf (sess a c' b' s' w')" "same_client c c'"
    "two_lists w' lp emq_queue_subscription_list_free_handler is_queue_sub qs'
       lp' emq_channel_subscription_list_free_handler is_channel_sub cs"
    "owned_msg c' w' msg" "shrinks s s'" "set qs' \<subseteq> set qs" "message_counter w' = message_counter w"
    using queue_unsubscribe_cmd.unsubscribe_keeps [OF l(4,5,1,3,6),
        of name "reply_check EMQ_PROTOCOL_CMD_QUEUE_UNSUBSCRIBE 0" name, folded emq_queue_unsubscribe_def]
    by (elim exE conjE) (rule that)
  have "qs = [] \<longrightarrow> qs' = []" using u(8) by auto
  with u(1,7,9) callback_readyI [OF l(1,2) u(2-4,6,5)] show ?thesis by blast
qed

lemma channel_unsubscribe_ready:
  assumes "callback_ready a c b s w qs cs msg"
  shows "\<exists>r c' b' s' w' cs'. emq_channel_unsubscribe (Some a) name topic (sess a c b s w) = Some (r, sess a c' b' s' w') \<and>
    callback_ready a c' b' s' w' qs cs' msg \<and> shrinks s s' \<and> message_counter w' = message_counter w"
    "\<exists>r c' b' s' w' cs'. emq_channel_punsubscribe (Some a) name topic (sess a c b s w) = Some (r, sess a c' b' s' w') \<and>
    callback_ready a c' b' s' w' qs cs' msg \<and> shrinks s s' \<and> message_counter w' = message_counter w"
proof -
  obtain lp lp' where l: "c_queue_subscriptions c = Some lp'" "c_channel_subscriptions c = Some lp"
    "two_lists w lp emq_channel_subscription_list_free_handler is_channel_sub cs
       lp' emq_queue_subscription_list_free_handler is_queue_sub qs"
    "sess_ok c b" "world_wf (sess a c b s w)" "owned_msg c w msg"
    using assms by (rule callback_ready_two)
  show "\<exists>r c' b' s' w' cs'. emq_channel_unsubscribe (Some a) name topic (sess a c b s w) = Some (r, sess a c' b' s' w') \<and>
    callback_ready a c' b' s' w' qs cs' msg \<and> shrinks s s' \<and> message_counter w' = message_counter w"
    using channel_unsubscribe_cmd.unsubscribe_keeps [OF l(4,5,2,3,6),
        of name topic "reply_check EMQ_PROTOCOL_CMD_CHANNEL_UNSUBSCRIBE 0" name, folded emq_channel_unsubscribe_def]
      callback_readyI' [OF l(1,2)] by blast
  show "\<exists>r c' b' s' w' cs'. emq_channel_punsubscribe (Some a) name topic (sess a c b s w) = Some (r, sess a c' b' s' w') \<and>
    callback_ready a c' b' s' w' qs cs' msg \<and> shrinks s s' \<and> message_counter w' = message_counter w"
    using channel_punsubscribe_cmd.unsubscribe_keeps [OF l(4,5,2,3,6),
        of name topic "reply_check EMQ_PROTOCOL_CMD_CHANNEL_UNSUBSCRIBE 0" name, folded emq_channel_punsubscribe_def]
      callback_readyI' [OF l(1,2)] by blast
qed

lemma channel_punsubscribe_ready:
  "callback_ready a c b s w qs cs msg \<Longrightarrow>
   \<exists>r c' b' s' w' qs' cs'. emq_channel_punsubscribe (Some a) name topic (sess a c b s w) = Some (r, sess a c' b' s' w') \<and>
    callback_ready a c' b' s' w' qs' cs' msg \<and> shrinks s s' \<and> (qs = [] \<longrightarrow> qs' = []) \<and>
    message_counter w' = message_counter w"
  by (drule channel_unsubscribe_ready(2)) (elim exE conjE, intro exI conjI, assumption+, blast)

text \<open>The common text of the two callbacks, for whatever they unsubscribe from.\<close>

lemma callback_ready_count [simp]:
  "callback_ready a c b s (w\<lparr>message_counter := k\<rparr>) qs cs msg = callback_ready a c b s w qs cs msg"
  "(sess a c b s w)\<lparr>message_counter := k\<rparr> = sess a c b s (w\<lparr>message_counter := k\<rparr>)"
  by (simp_all add: callback_ready_def sess_def world_wf_def client_lists_def owned_msg_def
      msg_rep_def list_rep_def is_queue_sub_def is_channel_sub_def split: option.split)

text \<open>\<open>counts n k\<close>: \<open>n\<close> bytes of events, each with a header, do not bring the counter from \<open>k\<close> over its range.\<close>

definition counts :: "nat \<Rightarrow> int \<Rightarrow> bool" where
  "counts n k \<longleftrightarrow> k + int (n div sizeof_header) \<le> INT_MAX"

lemma counts_mono: "counts n k \<Longrightarrow> m \<le> n \<Longrightarrow> counts m k"
  using div_le_mono [of m n sizeof_header] by (simp add: counts_def)

lemma counts_next: "counts (sizeof_header + n) k \<longleftrightarrow> counts n (k + 1)"
proof -
  have "(8 + n) div 8 = Suc (n div 8)" by simp
  then show ?thesis by (simp add: counts_def sizeof_header_def add.assoc)
qed

lemma counts_count:
  assumes "counts (sizeof_header + n) (message_counter w)"
  shows "count_message w = Some (w\<lparr>message_counter := message_counter w + 1\<rparr>)"
  using assms by (auto simp: counts_def count_message_def sizeof_header_def)

lemma message_callback_keeps:
  assumes un: "\<And>c b s w qs cs msg. callback_ready a c b s w qs cs msg \<Longrightarrow> \<exists>r c' b' s' w' qs' cs'.
      unsubscribe (sess a c b s w) = Some (r :: int, sess a c' b' s' w') \<and> callback_ready a c' b' s' w' qs' cs' msg \<and>
      shrinks s s' \<and> (qs = [] \<longrightarrow> qs' = []) \<and> message_counter w' = message_counter w"
    and ready: "callback_ready a c b s w qs cs (Some p)"
    and enough: "counts (sizeof_header + length (incoming s)) (message_counter w)"
  shows "\<exists>r c' b' s' w' qs' cs'. (do {
      _ \<leftarrow> emq_msg_data (Some p) (sess a c b s w);
      w \<leftarrow> count_message (sess a c b s w);
      if message_counter w \<ge> MESSAGES then do {
        w \<leftarrow> emq_noack_enable (Some a) w;
        (_, w) \<leftarrow> unsubscribe w;
        w \<leftarrow> emq_noack_disable (Some a) w;
        w \<leftarrow> emq_msg_release (Some p) w;
        Some (1, w) }
      else do {
        w \<leftarrow> emq_msg_release (Some p) w;
        Some (0, w) } }) = Some (r :: int, sess a c' b' s' w') \<and>
    callback_ready a c' b' s' w' qs' cs' None \<and> shrinks s s' \<and> (qs = [] \<longrightarrow> qs' = []) \<and>
    counts (length (incoming s')) (message_counter w')"
proof -
  have dat: "\<exists>x. emq_msg_data (Some p) (sess a c b s w) = Some x"
    using ready by (auto simp: callback_ready_def owned_msg_def msg_rep_def emq_msg_data_def)
  let ?w = "w\<lparr>message_counter := message_counter w + 1\<rparr>"
  have count: "count_message (sess a c b s w) = Some (sess a c b s ?w)"
    using counts_count [of "length (incoming s)" "sess a c b s w"] enough by simp
  have left: "counts (length (incoming s')) (message_counter ?w)" if "shrinks s s'" for s'
    using enough counts_mono [OF _ shrinks_length [OF that]] by (simp add: counts_next)
  have ready': "callback_ready a c b s ?w qs cs (Some p)" using ready by simp
  show ?thesis
  proof (cases "message_counter (sess a c b s ?w) \<ge> MESSAGES")
    case False
    obtain w2 where rel: "emq_msg_release (Some p) (sess a c b s ?w) = Some (sess a c b s w2)"
      "callback_ready a c b s w2 qs cs None" "message_counter w2 = message_counter ?w"
      using release_ready [OF ready'] by blast
    with False dat count left [OF shrinks_refl] shrinks_refl show ?thesis
      by (intro exI [of _ 0] exI [of _ c] exI [of _ b] exI [of _ s] exI [of _ w2] exI [of _ qs] exI [of _ cs]) auto
  next
    case True
    let ?c = "c\<lparr>c_noack := 1\<rparr>"
    have on: "emq_noack_enable (Some a) (sess a c b s ?w) = Some (sess a ?c b s ?w)"
      by (simp add: emq_noack_enable_def)
    have "callback_ready a ?c b s ?w qs cs (Some p)" using ready' by (simp add: callback_ready_status)
    from un [OF this] obtain r c1 b1 s1 w1 qs1 cs1 where u: "unsubscribe (sess a ?c b s ?w) = Some (r, sess a c1 b1 s1 w1)"
      "callback_ready a c1 b1 s1 w1 qs1 cs1 (Some p)" "shrinks s s1" "qs = [] \<longrightarrow> qs1 = []"
      "message_counter w1 = message_counter ?w" by (elim exE conjE) (rule that)
    let ?c1 = "c1\<lparr>c_noack := 0\<rparr>"
    have off: "emq_noack_disable (Some a) (sess a c1 b1 s1 w1) = Some (sess a ?c1 b1 s1 w1)"
      by (simp add: emq_noack_disable_def)
    have "callback_ready a ?c1 b1 s1 w1 qs1 cs1 (Some p)" using u(2) by (simp add: callback_ready_status)
    from release_ready [OF this] obtain w2 where
      "emq_msg_release (Some p) (sess a ?c1 b1 s1 w1) = Some (sess a ?c1 b1 s1 w2)"
      "callback_ready a ?c1 b1 s1 w2 qs1 cs1 None" "message_counter w2 = message_counter w1" by blast
    with True dat count on u(1,3,4,5) off left [OF u(3)] show ?thesis
      by (intro exI [of _ 1] exI [of _ ?c1] exI [of _ b1] exI [of _ s1] exI [of _ w2] exI [of _ qs1] exI [of _ cs1]) auto
  qed
qed

interpretation queue_callback: callback_contract "\<lambda>f. queue_message_callback" False counts
proof
  show "counts n k \<Longrightarrow> m \<le> n \<Longrightarrow> counts m k" for n k m by (rule counts_mono)
next
  fix a c b s w qs cs msg and f :: callback and kind name topic pattern
  assume ready: "callback_ready a c b s w qs cs msg" and "False \<or> msg \<noteq> None"
    and enough: "counts (sizeof_header + length (incoming s)) (message_counter w)"
  then obtain p where p: "msg = Some p" by auto
  show "\<exists>r c' b' s' w' qs' cs'. queue_message_callback (Some a) kind name topic pattern msg (sess a c b s w)
        = Some (r, sess a c' b' s' w') \<and> callback_ready a c' b' s' w' qs' cs' None \<and>
      shrinks s s' \<and> (qs = [] \<longrightarrow> qs' = []) \<and> counts (length (incoming s')) (message_counter w')"
    using message_callback_keeps [OF queue_unsubscribe_ready ready [unfolded p] enough]
    by (simp only: queue_message_callback_def p)
qed

interpretation channel_callback: callback_contract "\<lambda>f. channel_message_callback" False counts
proof
  show "counts n k \<Longrightarrow> m \<le> n \<Longrightarrow> counts m k" for n k m by (rule counts_mono)
next
  fix a c b s w qs cs msg and f :: callback and kind name topic pattern
  assume ready: "callback_ready a c b s w qs cs msg" and "False \<or> msg \<noteq> None"
    and enough: "counts (sizeof_header + length (incoming s)) (message_counter w)"
  then obtain p where p: "msg = Some p" by auto
  show "\<exists>r c' b' s' w' qs' cs'. channel_message_callback (Some a) kind name topic pattern msg (sess a c b s w)
        = Some (r, sess a c' b' s' w') \<and> callback_ready a c' b' s' w' qs' cs' None \<and>
      shrinks s s' \<and> (qs = [] \<longrightarrow> qs' = []) \<and> counts (length (incoming s')) (message_counter w')"
    using message_callback_keeps [OF channel_punsubscribe_ready ready [unfolded p] enough]
    by (simp only: channel_message_callback_def p)
qed

end
