(* ===== verification/Emq_Api.thy ===== *)
theory Emq_Api
  imports Emq_Calls Emq_Queries Emq_Callbacks
begin

text \<open>
  The operations of the API together. Each operation of a client (the acknowledged commands, the
  queries for one number, the statistics, subscribing and unsubscribing, the acknowledgement
  switch and the event loop) is shown to return and to keep the invariant of the client
  whatever the server sends, and so does any sequence of them. The other sections give the effect of
  the subscribe, unsubscribe, list and fetch operations on a client in order (\<open>client_ready\<close>) on a live connection.
\<close>

section \<open>Subscribing keeps the pair of lists\<close>

text \<open>A subscribe command on the pair of lists.\<close>

locale subscribe_on_lists = subscribe_command build ok cmd bodylen body create x subs +
    lists: subscription_lists sub_name is_sub sub_name' is_sub'
  for build :: "ptr \<Rightarrow> world \<Rightarrow> (int \<times> world) option" and ok cmd bodylen body
    and create :: "callback \<Rightarrow> world \<Rightarrow> (ptr \<times> world) option" and x :: "callback \<Rightarrow> emq_object"
    and subs :: "emq_client \<Rightarrow> ptr"
    and sub_name :: "emq_object \<Rightarrow> bytes option" and is_sub :: "world \<Rightarrow> addr \<Rightarrow> bool"
    and sub_name' :: "emq_object \<Rightarrow> bytes option" and is_sub' :: "world \<Rightarrow> addr \<Rightarrow> bool" +
  assumes made_sub: "ok \<Longrightarrow> objs w v = Some (x cb) \<Longrightarrow> is_sub w v"
begin

lemma subscribe_keeps:
  assumes ready: "sess_ok c b" and wf: "world_wf (sess a c b s w)" and lp: "subs c = Some lp"
    and tl: "two_lists w lp h is_sub ns lp' h' is_sub' ns'"
  shows "\<exists>r c' b' s' w' ns2. emq_subscribe (Some a) callback build check create subs (sess a c b s w)
      = Some (r, sess a c' b' s' w') \<and> sess_ok c' b' \<and> world_wf (sess a c' b' s' w') \<and> same_client c c' \<and>
    two_lists w' lp h is_sub ns2 lp' h' is_sub' ns' \<and> shrinks s s' \<and>
    (ns2 = ns \<or> (\<exists>n v cb. ns2 = (n, v) # ns \<and> callback = Some cb \<and> objs w' v = Some (x cb) \<and> r = EMQ_STATUS_OK)) \<and>
    message_counter w' = message_counter w"
proof (cases callback)
  case None
  have "world_wf (sess a (settle (Some EMQ_ERROR_DATA) c) b s w)" using wf by (simp add: world_wf_sess_iff)
  with None ready tl subscribe_null [of a check c b s w] show ?thesis
    by (intro exI [of _ EMQ_STATUS_ERR] exI [of _ "settle (Some EMQ_ERROR_DATA) c"] exI [of _ b] exI [of _ s]
        exI [of _ w] exI [of _ ns]) simp
next
  case (Some cb)
  have rep: "list_rep w lp (Some h) ns" and wf0: "world_wf w" and low: "a < brk w" "the (c_request c) < brk w"
    using tl wf by (simp_all add: two_lists_def world_wf_sess_iff)
  obtain e0 e n b' s' w' where u: "emq_subscribe (Some a) (Some cb) build check create subs (sess a c b s w)
      = Some (result_of e, sess a (settle e (c\<lparr>c_pos := n\<rparr>)) b' s' w')" "sess_ok c b'"
    "acked_call (wire_request ok cmd (client_noack c) bodylen body) (c_noack c) check s e0 s'"
    "case e0 of Some e1 \<Rightarrow> e = Some e1 \<and> w' = w
      | None \<Rightarrow> if alloc_ok w (brk w) then e = None \<and> add_step w lp h ns (x cb) w'
          else e = Some EMQ_ERROR_ALLOC \<and> w' = w\<lparr>brk := Suc (brk w)\<rparr>"
    using subscribe_sess [OF ready wf lp rep, of cb check] by (elim exE conjE) (rule that)
  let ?c = "settle e (c\<lparr>c_pos := n\<rparr>)"
  note sh = acked_call_shrinks [OF u(3)]
  have same: "same_client c ?c" "sess_ok ?c b'" using u(2) by simp_all
  consider (kept) m where "w' = w\<lparr>brk := m\<rparr>" "brk w \<le> m"
    | (added) "e0 = None" "e = None" "add_step w lp h ns (x cb) w'"
  proof (cases e0)
    case None
    then show ?thesis using u(4) that by (cases "alloc_ok w (brk w)") (auto intro: that(1))
  next
    case (Some e1)
    then show ?thesis using u(4) by (intro that(1) [of "brk w"]) simp_all
  qed
  then show ?thesis
  proof cases
    case kept
    have "two_lists w' lp h is_sub ns lp' h' is_sub' ns'"
      using tl lists.one.sub_local [of w' _ w] lists.other.sub_local [of w' _ w] kept(1)
      by (simp add: two_lists_def list_rep_def)
    moreover have "world_wf (sess a ?c b' s' w')"
      using low wf0 kept by (auto simp: world_wf_sess_iff world_wf_def)
    moreover have "message_counter w' = message_counter w" using kept(1) by simp
    ultimately show ?thesis using Some u(1) same sh by blast
  next
    case added
    have okk: ok using u(3) added(1) by (cases ok) (auto simp: wire_request_def acked_call_refused)
    note st = add_stepD [OF added(3)]
    have "two_lists w' lp h is_sub (if alloc_ok w (Suc (brk w)) then (Suc (brk w), brk w) # ns else ns) lp' h' is_sub' ns'"
      using lists.add_front [OF tl wf0 added(3)] made_sub [OF okk] by blast
    moreover have "world_wf (sess a ?c b' s' w')" using low st(2,3) by (simp add: world_wf_sess_iff)
    moreover have "objs w' (brk w) = Some (x cb)" using st(4) by simp
    moreover have "message_counter w' = message_counter w"
      using added(3) by (auto simp: add_step_def dest: grows_counter)
    ultimately show ?thesis
      using Some u(1) same sh added(2)
      by (intro exI [of _ "result_of e"] exI [of _ ?c] exI [of _ b'] exI [of _ s'] exI [of _ w']
          exI [of _ "if alloc_ok w (Suc (brk w)) then (Suc (brk w), brk w) # ns else ns"]) simp
  qed
qed

end

interpretation queue_subscribe_lists: subscribe_on_lists
  "\<lambda>client. emq_queue_subscribe_request client name flags" "strlenz name \<le> 64"
  EMQ_PROTOCOL_CMD_QUEUE_SUBSCRIBE "68" "zfield 64 name @ le_bytes 4 flags"
  "emq_queue_subscription_create name" "\<lambda>cb. QueueSubscription \<lparr>qs_name = zfield 64 name, qs_callback = cb\<rparr>"
  c_queue_subscriptions queue_sub_name is_queue_sub channel_sub_name is_channel_sub
  for name flags
  by unfold_locales (simp add: is_queue_sub_def)

interpretation channel_subscribe_lists: subscribe_on_lists
  "\<lambda>client. emq_channel_subscribe_request client name topic" "strlenz name \<le> 64 \<and> strlenz topic \<le> 32"
  EMQ_PROTOCOL_CMD_CHANNEL_SUBSCRIBE "96" "zfield 64 name @ zfield 32 topic"
  "emq_channel_subscription_create name topic"
  "\<lambda>cb. ChannelSubscription \<lparr>cs_name = zfield 64 name, cs_channel = zfield 32 topic, cs_callback = cb\<rparr>"
  c_channel_subscriptions channel_sub_name is_channel_sub queue_sub_name is_queue_sub
  for name topic
  by unfold_locales (simp add: is_channel_sub_def)

interpretation channel_psubscribe_lists: subscribe_on_lists
  "\<lambda>client. emq_channel_psubscribe_request client name pattern" "strlenz name \<le> 64 \<and> strlenz pattern \<le> 32"
  EMQ_PROTOCOL_CMD_CHANNEL_PSUBSCRIBE "96" "zfield 64 name @ zfield 32 pattern"
  "emq_channel_subscription_create name pattern"
  "\<lambda>cb. ChannelSubscription \<lparr>cs_name = zfield 64 name, cs_channel = zfield 32 pattern, cs_callback = cb\<rparr>"
  c_channel_subscriptions channel_sub_name is_channel_sub queue_sub_name is_queue_sub
  for name pattern
  by unfold_locales (simp add: is_channel_sub_def)

section \<open>Single operations\<close>

text \<open>\<open>op_done R a s res\<close>: the operation returned, the client is in order with some lists, and \<open>R\<close>
  holds of the bytes to come and the counter.\<close>

definition op_done :: "(nat \<Rightarrow> int \<Rightarrow> bool) \<Rightarrow> addr \<Rightarrow> socket \<Rightarrow> ('r \<times> world) option \<Rightarrow> bool" where
  "op_done R a s res \<longleftrightarrow> (\<exists>r c' b' s' w' qs' cs'. res = Some (r, sess a c' b' s' w') \<and>
     callback_ready a c' b' s' w' qs' cs' None \<and> shrinks s s' \<and> R (length (incoming s')) (message_counter w'))"

lemma op_doneI: "res = Some (r, sess a c' b' s' w') \<Longrightarrow> callback_ready a c' b' s' w' qs' cs' None \<Longrightarrow>
    shrinks s s' \<Longrightarrow> R (length (incoming s')) (message_counter w') \<Longrightarrow> op_done R a s res"
  unfolding op_done_def by blast

text \<open>An operation that calls no callback leaves the variable of the program as it was.\<close>

abbreviation counter_kept :: "int \<Rightarrow> nat \<Rightarrow> int \<Rightarrow> bool" where
  "counter_kept k \<equiv> (\<lambda>n k'. k' = k)"

lemma callback_ready_settle:
  "callback_ready a c b s w qs cs None \<Longrightarrow> sess_ok c b' \<Longrightarrow>
   callback_ready a (settle e (c\<lparr>c_pos := n\<rparr>)) b' s' w qs cs None"
  by (simp add: callback_ready_def owned_msg_def world_wf_sess_iff)

lemma callback_ready_lists:
  assumes "callback_ready a c b s w qs cs None"
  obtains lp lp' where "c_queue_subscriptions c = Some lp" "c_channel_subscriptions c = Some lp'"
    "two_lists w lp emq_queue_subscription_list_free_handler is_queue_sub qs
       lp' emq_channel_subscription_list_free_handler is_channel_sub cs"
    "two_lists w lp' emq_channel_subscription_list_free_handler is_channel_sub cs
       lp emq_queue_subscription_list_free_handler is_queue_sub qs"
    "sess_ok c b" "world_wf (sess a c b s w)"
  using assms by (rule callback_ready_two) (rule that)

lemma owned_none [simp]: "owned_msg c w None"
  by (simp add: owned_msg_def)

lemmas settledI = callback_readyI [OF _ _ _ _ _ owned_none] callback_readyI' [OF _ _ _ _ _ owned_none]

text \<open>Subscribing: the list is as before, or the new subscription is in front and the call succeeded.\<close>

lemma queue_subscribe_ready:
  assumes "callback_ready a c b s w qs cs None"
  shows "\<exists>r c' b' s' w' qs'. emq_queue_subscribe (Some a) name flags callback (sess a c b s w) = Some (r, sess a c' b' s' w') \<and>
      callback_ready a c' b' s' w' qs' cs None \<and> shrinks s s' \<and>
      (qs' = qs \<or> (\<exists>n v cb. qs' = (n, v) # qs \<and> callback = Some cb \<and> r = EMQ_STATUS_OK \<and>
         objs w' v = Some (QueueSubscription \<lparr>qs_name = zfield 64 name, qs_callback = cb\<rparr>))) \<and>
      message_counter w' = message_counter w"
proof -
  obtain lp lp' where l: "c_queue_subscriptions c = Some lp" "c_channel_subscriptions c = Some lp'"
    "two_lists w lp emq_queue_subscription_list_free_handler is_queue_sub qs
       lp' emq_channel_subscription_list_free_handler is_channel_sub cs"
    "sess_ok c b" "world_wf (sess a c b s w)"
    using assms by (rule callback_ready_lists)
  show ?thesis
    using queue_subscribe_lists.subscribe_keeps [OF l(4,5,1,3), of callback name flags
        "reply_check EMQ_PROTOCOL_CMD_QUEUE_SUBSCRIBE 0", folded emq_queue_subscribe_def]
      settledI(1) [OF l(1,2)] by blast
qed

lemma channel_subscribe_ready:
  assumes "callback_ready a c b s w qs cs None"
  shows "\<exists>r c' b' s' w' cs'. emq_channel_subscribe (Some a) name topic callback (sess a c b s w) = Some (r, sess a c' b' s' w') \<and>
      callback_ready a c' b' s' w' qs cs' None \<and> shrinks s s' \<and>
      (cs' = cs \<or> (\<exists>n v cb. cs' = (n, v) # cs \<and> callback = Some cb \<and> r = EMQ_STATUS_OK \<and>
         objs w' v = Some (ChannelSubscription \<lparr>cs_name = zfield 64 name, cs_channel = zfield 32 topic, cs_callback = cb\<rparr>))) \<and>
      message_counter w' = message_counter w"
    "\<exists>r c' b' s' w' cs'. emq_channel_psubscribe (Some a) name topic callback (sess a c b s w) = Some (r, sess a c' b' s' w') \<and>
      callback_ready a c' b' s' w' qs cs' None \<and> shrinks s s' \<and>
      (cs' = cs \<or> (\<exists>n v cb. cs' = (n, v) # cs \<and> callback = Some cb \<and> r = EMQ_STATUS_OK \<and>
         objs w' v = Some (ChannelSubscription \<lparr>cs_name = zfield 64 name, cs_channel = zfield 32 topic, cs_callback = cb\<rparr>))) \<and>
      message_counter w' = message_counter w"
proof -
  obtain lp lp' where l: "c_queue_subscriptions c = Some lp" "c_channel_subscriptions c = Some lp'"
    "two_lists w lp' emq_channel_subscription_list_free_handler is_channel_sub cs
       lp emq_queue_subscription_list_free_handler is_queue_sub qs"
    "sess_ok c b" "world_wf (sess a c b s w)"
    using assms by (rule callback_ready_lists)
  show "\<exists>r c' b' s' w' cs'. emq_channel_subscribe (Some a) name topic callback (sess a c b s w) = Some (r, sess a c' b' s' w') \<and>
      callback_ready a c' b' s' w' qs cs' None \<and> shrinks s s' \<and>
      (cs' = cs \<or> (\<exists>n v cb. cs' = (n, v) # cs \<and> callback = Some cb \<and> r = EMQ_STATUS_OK \<and>
         objs w' v = Some (ChannelSubscription \<lparr>cs_name = zfield 64 name, cs_channel = zfield 32 topic, cs_callback = cb\<rparr>))) \<and>
      message_counter w' = message_counter w"
    using channel_subscribe_lists.subscribe_keeps [OF l(4,5,2,3), of callback name topic
        "reply_check EMQ_PROTOCOL_CMD_CHANNEL_SUBSCRIBE 0", folded emq_channel_subscribe_def]
      settledI(2) [OF l(1,2)] by blast
  show "\<exists>r c' b' s' w' cs'. emq_channel_psubscribe (Some a) name topic callback (sess a c b s w) = Some (r, sess a c' b' s' w') \<and>
      callback_ready a c' b' s' w' qs cs' None \<and> shrinks s s' \<and>
      (cs' = cs \<or> (\<exists>n v cb. cs' = (n, v) # cs \<and> callback = Some cb \<and> r = EMQ_STATUS_OK \<and>
         objs w' v = Some (ChannelSubscription \<lparr>cs_name = zfield 64 name, cs_channel = zfield 32 topic, cs_callback = cb\<rparr>))) \<and>
      message_counter w' = message_counter w"
    using channel_psubscribe_lists.subscribe_keeps [OF l(4,5,2,3), of callback name topic
        "reply_check EMQ_PROTOCOL_CMD_CHANNEL_PSUBSCRIBE 0", folded emq_channel_psubscribe_def]
      settledI(2) [OF l(1,2)] by blast
qed

section \<open>The operations as one type\<close>

text \<open>
  The operations of the API on a connected client, but for those that hand out a message or a
  list, and those that send a message.
\<close>

datatype emq_op =
    Call emq_call
  | QueueExist bytes
  | QueueSize bytes
  | RouteExist bytes
  | ChannelExist bytes
  | Stat
  | QueueSubscribe bytes u32 "callback option"
  | QueueUnsubscribe bytes
  | ChannelSubscribe bytes bytes "callback option"
  | ChannelPsubscribe bytes bytes "callback option"
  | ChannelUnsubscribe bytes bytes
  | ChannelPunsubscribe bytes bytes
  | NoackEnable
  | NoackDisable
  | Process

fun run_op :: "(callback \<Rightarrow> user_function) \<Rightarrow> emq_op \<Rightarrow> ptr \<Rightarrow> world \<Rightarrow> (int \<times> world) option" where
  "run_op cb (Call call) client w = run_call call client w"
| "run_op cb (QueueExist name) client w = emq_queue_exist client name w"
| "run_op cb (QueueSize name) client w = emq_queue_size client name w"
| "run_op cb (RouteExist name) client w = emq_route_exist client name w"
| "run_op cb (ChannelExist name) client w = emq_channel_exist client name w"
| "run_op cb Stat client w = map_option (\<lambda>((r, status), w). (r, w)) (emq_stat client w)"
| "run_op cb (QueueSubscribe name flags callback) client w = emq_queue_subscribe client name flags callback w"
| "run_op cb (QueueUnsubscribe name) client w = emq_queue_unsubscribe client name w"
| "run_op cb (ChannelSubscribe name topic callback) client w = emq_channel_subscribe client name topic callback w"
| "run_op cb (ChannelPsubscribe name topic callback) client w = emq_channel_psubscribe client name topic callback w"
| "run_op cb (ChannelUnsubscribe name topic) client w = emq_channel_unsubscribe client name topic w"
| "run_op cb (ChannelPunsubscribe name topic) client w = emq_channel_punsubscribe client name topic w"
| "run_op cb NoackEnable client w = map_option (Pair EMQ_STATUS_OK) (emq_noack_enable client w)"
| "run_op cb NoackDisable client w = map_option (Pair EMQ_STATUS_OK) (emq_noack_disable client w)"
| "run_op cb Process client w = emq_process cb client w"

fun run_ops :: "(callback \<Rightarrow> user_function) \<Rightarrow> emq_op list \<Rightarrow> ptr \<Rightarrow> world \<Rightarrow> (int list \<times> world) option" where
  "run_ops cb [] client w = Some ([], w)"
| "run_ops cb (op # ops) client w = do {
     (r, w) \<leftarrow> run_op cb op client w;
     (rs, w) \<leftarrow> run_ops cb ops client w;
     Some (r # rs, w) }"

section \<open>Every operation keeps the client in order\<close>

lemma run_call_done:
  assumes "callback_ready a c b s w qs cs None"
  shows "op_done (counter_kept (message_counter w)) a s (run_call call (Some a) (sess a c b s w))"
proof -
  have "sess_ok c b" using assms by (simp add: callback_ready_def)
  from run_call_sess [OF this, of call a s w] obtain e n b' s' where u:
    "run_call call (Some a) (sess a c b s w) = Some (result_of e, sess a (settle e (c\<lparr>c_pos := n\<rparr>)) b' s' w)"
    "sess_ok c b'" "acked_call (call_request call (client_noack c)) (c_noack c) (call_check call) s e s'"
    by (elim exE conjE) (rule that)
  show ?thesis
    using u(1) callback_ready_settle [OF assms u(2)] acked_call_shrinks [OF u(3)] refl by (rule op_doneI)
qed

lemma stat_done:
  assumes "callback_ready a c b s w qs cs None"
  shows "op_done (counter_kept (message_counter w)) a s (run_op cb Stat (Some a) (sess a c b s w))"
proof -
  have "sess_ok c b" using assms by (simp add: callback_ready_def)
  from emq_stat_sess [OF this, of a s w] obtain e v n b' s' where u:
    "emq_stat (Some a) (sess a c b s w) = Some ((result_of e, if e = None then Some v else None),
       sess a (settle e (c\<lparr>c_pos := n\<rparr>)) b' s' w)" "sess_ok c b'" "shrinks s s'"
    by (elim exE conjE) (rule that)
  from u(1) have "run_op cb Stat (Some a) (sess a c b s w)
      = Some (result_of e, sess a (settle e (c\<lparr>c_pos := n\<rparr>)) b' s' w)" by simp
  then show ?thesis using callback_ready_settle [OF assms u(2)] u(3) refl by (rule op_doneI)
qed

context request_builder
begin

lemma query_done:
  assumes "callback_ready a c b s w qs cs None"
  shows "op_done (counter_kept (message_counter w)) a s (emq_u32_query (Some a) build qcmd failed (sess a c b s w))"
proof -
  have "sess_ok c b" using assms by (simp add: callback_ready_def)
  from query_sess [OF this, of a qcmd failed s w] obtain e v n b' s' where u:
    "emq_u32_query (Some a) build qcmd failed (sess a c b s w)
       = Some (if e = None then v else failed, sess a (settle e (c\<lparr>c_pos := n\<rparr>)) b' s' w)"
    "sess_ok c b'" "shrinks s s'" by (elim exE conjE) (rule that)
  show ?thesis using u(1) callback_ready_settle [OF assms u(2)] u(3) refl by (rule op_doneI)
qed

end

lemmas query_defs = emq_queue_exist_def emq_queue_size_def emq_route_exist_def emq_channel_exist_def

lemma queries_done:
  assumes "callback_ready a c b s w qs cs None"
  shows "op_done (counter_kept (message_counter w)) a s (emq_queue_exist (Some a) name (sess a c b s w))"
    "op_done (counter_kept (message_counter w)) a s (emq_queue_size (Some a) name (sess a c b s w))"
    "op_done (counter_kept (message_counter w)) a s (emq_route_exist (Some a) name (sess a c b s w))"
    "op_done (counter_kept (message_counter w)) a s (emq_channel_exist (Some a) name (sess a c b s w))"
  unfolding query_defs
  using queue_exist_req.query_done [OF assms] queue_size_req.query_done [OF assms]
    route_exist_req.query_done [OF assms] channel_exist_req.query_done [OF assms] by blast+

context callback_contract
begin

lemma op_done_room:
  assumes "op_done (counter_kept (message_counter w)) a s res" and "room (length (incoming s)) (message_counter w)"
  shows "op_done room a s res"
  using assms room_mono [OF assms(2) shrinks_length] unfolding op_done_def by fastforce

lemma run_op_done:
  assumes ready: "callback_ready a c b s w qs cs None" and quiet: "null_ok \<or> notify_free s"
    and enough: "room (length (incoming s)) (message_counter w)"
  shows "op_done room a s (run_op cb op (Some a) (sess a c b s w))"
proof (cases op)
  case Process
  have "null_ok \<or> qs = [] \<or> notify_free s" using quiet by blast
  from emq_process_ends [OF ready this enough] Process show ?thesis unfolding op_done_def by (simp, blast)
next
  case (Call call)
  with run_call_done [OF ready] show ?thesis by (intro op_done_room [OF _ enough]) simp
next
  case (QueueSubscribe name flags callback)
  with queue_subscribe_ready [OF ready, of name flags callback] show ?thesis
    by (intro op_done_room [OF _ enough]) (unfold op_done_def, simp, blast)
next
  case (ChannelSubscribe name topic callback)
  with channel_subscribe_ready(1) [OF ready, of name topic callback] show ?thesis
    by (intro op_done_room [OF _ enough]) (unfold op_done_def, simp, blast)
next
  case (ChannelPsubscribe name topic callback)
  with channel_subscribe_ready(2) [OF ready, of name topic callback] show ?thesis
    by (intro op_done_room [OF _ enough]) (unfold op_done_def, simp, blast)
next
  case (QueueUnsubscribe name)
  with queue_unsubscribe_ready [OF ready, of name] show ?thesis
    by (intro op_done_room [OF _ enough]) (unfold op_done_def, simp, blast)
next
  case (ChannelUnsubscribe name topic)
  with channel_unsubscribe_ready(1) [OF ready, of name topic] show ?thesis
    by (intro op_done_room [OF _ enough]) (unfold op_done_def, simp, blast)
next
  case (ChannelPunsubscribe name topic)
  with channel_unsubscribe_ready(2) [OF ready, of name topic] show ?thesis
    by (intro op_done_room [OF _ enough]) (unfold op_done_def, simp, blast)
next
  case NoackEnable
  have "callback_ready a (c\<lparr>c_noack := 1\<rparr>) b s w qs cs None" using ready by (simp add: callback_ready_status)
  with NoackEnable enough show ?thesis
    by (intro op_doneI [of _ EMQ_STATUS_OK a "c\<lparr>c_noack := 1\<rparr>" b s w]) (simp_all add: emq_noack_enable_def)
next
  case NoackDisable
  have "callback_ready a (c\<lparr>c_noack := 0\<rparr>) b s w qs cs None" using ready by (simp add: callback_ready_status)
  with NoackDisable enough show ?thesis
    by (intro op_doneI [of _ EMQ_STATUS_OK a "c\<lparr>c_noack := 0\<rparr>" b s w]) (simp_all add: emq_noack_disable_def)
next
  case Stat
  show ?thesis unfolding Stat by (rule op_done_room [OF stat_done [OF ready] enough])
qed (use queries_done [OF ready, THEN op_done_room [OF _ enough]] in simp_all)

lemma run_ops_done:
  assumes "callback_ready a c b s w qs cs None" and "null_ok \<or> notify_free s"
    and "room (length (incoming s)) (message_counter w)"
  shows "\<exists>rs c' b' s' w' qs' cs'. run_ops cb ops (Some a) (sess a c b s w) = Some (rs, sess a c' b' s' w') \<and>
    callback_ready a c' b' s' w' qs' cs' None \<and> shrinks s s'"
  using assms
proof (induction ops arbitrary: c b s w qs cs)
  case Nil
  then show ?case using shrinks_refl by fastforce
next
  case (Cons op ops)
  obtain r c1 b1 s1 w1 qs1 cs1 where one: "run_op cb op (Some a) (sess a c b s w) = Some (r, sess a c1 b1 s1 w1)"
    "callback_ready a c1 b1 s1 w1 qs1 cs1 None" "shrinks s s1" "room (length (incoming s1)) (message_counter w1)"
    using run_op_done [OF Cons.prems, of op] unfolding op_done_def by (elim exE conjE) (rule that)
  have "null_ok \<or> notify_free s1" using Cons.prems(2) notify_free_shrinks [OF _ one(3)] by blast
  from Cons.IH [OF one(2) this one(4)] obtain rs c' b' s' w' qs' cs' where rest:
    "run_ops cb ops (Some a) (sess a c1 b1 s1 w1) = Some (rs, sess a c' b' s' w')"
    "callback_ready a c' b' s' w' qs' cs' None" "shrinks s1 s'" by (elim exE conjE) (rule that)
  have "run_ops cb (op # ops) (Some a) (sess a c b s w) = Some (r # rs, sess a c' b' s' w')" using one(1) rest(1) by simp
  with rest(2) shrinks_trans [OF one(3) rest(3)] show ?case by blast
qed

end

section \<open>Subscribing and unsubscribing on a live connection\<close>

context subscribe_on_lists
begin

text \<open>With memory and a good reply the subscription is in front of its list.\<close>

lemma subscribe_registers:
  assumes ready: "sess_ok c b" and wf: "world_wf (sess a c b s w)" and lp: "subs c = Some lp"
    and tl: "two_lists w lp h is_sub ns lp' h' is_sub' ns'"
    and alive: ok "live s" "c_noack c = 0" "incoming s = response_header_bytes r @ rest"
    and good: "reply_error check r = None" and mem: "\<forall>k \<ge> brk w. alloc_ok w k"
  shows "\<exists>c' b' s' w' n v. emq_subscribe (Some a) (Some cb) build check create subs (sess a c b s w)
      = Some (EMQ_STATUS_OK, sess a c' b' s' w') \<and> sess_ok c' b' \<and> world_wf (sess a c' b' s' w') \<and> same_client c c' \<and>
    two_lists w' lp h is_sub ((n, v) # ns) lp' h' is_sub' ns' \<and> incoming s' = rest \<and> live s' \<and>
    objs w' = (objs w)(v \<mapsto> x cb)"
proof -
  have rep: "list_rep w lp (Some h) ns" and wf0: "world_wf w" and low: "a < brk w" "the (c_request c) < brk w"
    using tl wf by (simp_all add: two_lists_def world_wf_sess_iff)
  obtain e n b' s' w' where u: "emq_subscribe (Some a) (Some cb) build check create subs (sess a c b s w)
      = Some (result_of e, sess a (settle e (c\<lparr>c_pos := n\<rparr>)) b' s' w')" "sess_ok c b'" "incoming s' = rest" "live s'"
    "case reply_error check r of Some e1 \<Rightarrow> e = Some e1 \<and> w' = w
      | None \<Rightarrow> if alloc_ok w (brk w) then e = None \<and> add_step w lp h ns (x cb) w'
          else e = Some EMQ_ERROR_ALLOC \<and> w' = w\<lparr>brk := Suc (brk w)\<rparr>"
    using subscribe_live [OF ready alive wf lp rep, of cb check] by blast
  have e: "e = None" and st: "add_step w lp h ns (x cb) w'" using u(5) good mem by simp_all
  let ?c = "settle e (c\<lparr>c_pos := n\<rparr>)"
  have "two_lists w' lp h is_sub ((Suc (brk w), brk w) # ns) lp' h' is_sub' ns'"
    using lists.add_front [OF tl wf0 st] made_sub [OF alive(1)] mem by force
  moreover have "world_wf (sess a ?c b' s' w')" using low add_stepD(2,3) [OF st] by (simp add: world_wf_sess_iff)
  moreover have "objs w' = (objs w)(brk w \<mapsto> x cb)" using add_stepD(4) [OF st] by simp
  moreover have "emq_subscribe (Some a) (Some cb) build check create subs (sess a c b s w)
      = Some (EMQ_STATUS_OK, sess a ?c b' s' w')" using u(1) e by simp
  ultimately show ?thesis
    using u(2-4) by (intro exI [of _ ?c] exI [of _ b'] exI [of _ s'] exI [of _ w'] exI [of _ "Suc (brk w)"] exI [of _ "brk w"]) simp
qed

end

lemma queue_subscribe_registered:
  assumes "callback_ready a c b s w qs cs None"
    and "strlenz name \<le> 64" and "live s" and "c_noack c = 0" and "incoming s = response_header_bytes r @ rest"
    and "reply_error (reply_check EMQ_PROTOCOL_CMD_QUEUE_SUBSCRIBE 0) r = None" and "\<forall>k \<ge> brk w. alloc_ok w k"
  shows "\<exists>c' b' s' w' n v. emq_queue_subscribe (Some a) name flags (Some cb) (sess a c b s w)
      = Some (EMQ_STATUS_OK, sess a c' b' s' w') \<and> callback_ready a c' b' s' w' ((n, v) # qs) cs None \<and> incoming s' = rest \<and>
      objs w' = (objs w)(v \<mapsto> QueueSubscription \<lparr>qs_name = zfield 64 name, qs_callback = cb\<rparr>)"
proof -
  obtain lp lp' where l: "c_queue_subscriptions c = Some lp" "c_channel_subscriptions c = Some lp'"
    "two_lists w lp emq_queue_subscription_list_free_handler is_queue_sub qs
       lp' emq_channel_subscription_list_free_handler is_channel_sub cs"
    "sess_ok c b" "world_wf (sess a c b s w)"
    using assms(1) by (rule callback_ready_lists)
  show ?thesis
    using queue_subscribe_lists.subscribe_registers [OF l(4,5,1,3) assms(2-7), of cb flags, folded emq_queue_subscribe_def]
      settledI(1) [OF l(1,2)] by blast
qed

context unsubscribe_command
begin

lemma unsubscribe_decided:
  assumes ready: "sess_ok c b" and wf: "world_wf (sess a c b s w)" and lp: "subs c = Some lp"
    and tl: "two_lists w lp h is_sub ns lp' h' is_sub' ns'"
    and alive: ok "live s" "c_noack c = 0" "incoming s = response_header_bytes r @ rest"
  shows "\<exists>c' b' s' w'. emq_unsubscribe (Some a) build check sub_name subs name (sess a c b s w)
      = Some (result_of (reply_error check r), sess a c' b' s' w') \<and> sess_ok c' b' \<and> world_wf (sess a c' b' s' w') \<and>
    same_client c c' \<and> c_error c' = err_text (reply_error check r) \<and> incoming s' = rest \<and>
    (if reply_error check r = None
     then objs w' = objs w |` (- snd ` set (filter (\<lambda>(a, v). sub_title sub_name w v = cstr name) ns)) \<and>
       two_lists w' lp h is_sub (filter (\<lambda>(a, v). sub_title sub_name w v \<noteq> cstr name) ns) lp' h' is_sub' ns'
     else w' = w)"
proof -
  let ?e = "reply_error check r"
  obtain n b' s' w' where u: "emq_unsubscribe (Some a) build check sub_name subs name (sess a c b s w) =
      Some (result_of ?e, sess a (settle ?e (c\<lparr>c_pos := n\<rparr>)) b' s' w')" "sess_ok c b'" "incoming s' = rest"
    "world_wf (sess a c b s w')"
    "if ?e = None then remove_step sub_name name lp ns w w' \<and>
       two_lists w' lp h is_sub (filter (\<lambda>(a, v). sub_title sub_name w v \<noteq> cstr name) ns) lp' h' is_sub' ns'
     else w' = w"
    using unsubscribe_live [OF ready alive wf lp tl, of check name] by (elim exE conjE) (rule that)
  let ?c = "settle ?e (c\<lparr>c_pos := n\<rparr>)"
  have "world_wf (sess a ?c b' s' w')" using u(4) by (simp add: world_wf_sess_iff)
  then show ?thesis
    using u(1-3,5)
    by (intro exI [of _ ?c] exI [of _ b'] exI [of _ s'] exI [of _ w']) (cases ?e; simp add: remove_step_def Let_def)
qed

end

text \<open>What the two kinds of removal leave, and the memory they return.\<close>

lemma queue_unsubscribe_decided:
  assumes "callback_ready a c b s w qs cs None"
    and "strlenz name \<le> 64" and "live s" and "c_noack c = 0" and "incoming s = response_header_bytes r @ rest"
    and "reply_error (reply_check EMQ_PROTOCOL_CMD_QUEUE_UNSUBSCRIBE 0) r = None"
  shows "\<exists>c' b' s' w'. emq_queue_unsubscribe (Some a) name (sess a c b s w)
      = Some (EMQ_STATUS_OK, sess a c' b' s' w') \<and> incoming s' = rest \<and>
    callback_ready a c' b' s' w' (filter (\<lambda>(n, v). sub_title queue_sub_name w v \<noteq> cstr name) qs) cs None \<and>
    objs w' = objs w |` (- snd ` set (filter (\<lambda>(n, v). sub_title queue_sub_name w v = cstr name) qs))"
proof -
  obtain lp lp' where l: "c_queue_subscriptions c = Some lp" "c_channel_subscriptions c = Some lp'"
    "two_lists w lp emq_queue_subscription_list_free_handler is_queue_sub qs
       lp' emq_channel_subscription_list_free_handler is_channel_sub cs"
    "sess_ok c b" "world_wf (sess a c b s w)"
    using assms(1) by (rule callback_ready_lists)
  show ?thesis
    using queue_unsubscribe_cmd.unsubscribe_decided [OF l(4,5,1,3) assms(2-5),
        of "reply_check EMQ_PROTOCOL_CMD_QUEUE_UNSUBSCRIBE 0" name, folded emq_queue_unsubscribe_def, unfolded assms(6)]
      settledI(1) [OF l(1,2)] by (simp, blast)
qed

lemma channel_unsubscribe_decided:
  assumes "callback_ready a c b s w qs cs None"
    and "strlenz name \<le> 64 \<and> strlenz topic \<le> 32" and "live s" and "c_noack c = 0"
    and "incoming s = response_header_bytes r @ rest"
    and "reply_error (reply_check EMQ_PROTOCOL_CMD_CHANNEL_UNSUBSCRIBE 0) r = None"
  shows "\<exists>c' b' s' w'. emq_channel_unsubscribe (Some a) name topic (sess a c b s w)
      = Some (EMQ_STATUS_OK, sess a c' b' s' w') \<and> incoming s' = rest \<and>
    callback_ready a c' b' s' w' qs (filter (\<lambda>(n, v). sub_title channel_sub_name w v \<noteq> cstr name) cs) None \<and>
    objs w' = objs w |` (- snd ` set (filter (\<lambda>(n, v). sub_title channel_sub_name w v = cstr name) cs))"
proof -
  obtain lp lp' where l: "c_queue_subscriptions c = Some lp" "c_channel_subscriptions c = Some lp'"
    "two_lists w lp' emq_channel_subscription_list_free_handler is_channel_sub cs
       lp emq_queue_subscription_list_free_handler is_queue_sub qs"
    "sess_ok c b" "world_wf (sess a c b s w)"
    using assms(1) by (rule callback_ready_lists)
  show ?thesis
    using channel_unsubscribe_cmd.unsubscribe_decided [OF l(4,5,2,3) assms(2-5),
        of "reply_check EMQ_PROTOCOL_CMD_CHANNEL_UNSUBSCRIBE 0" name, folded emq_channel_unsubscribe_def, unfolded assms(6)]
      settledI(2) [OF l(1,2)] by (simp, blast)
qed

lemma channel_punsubscribe_rejected:
  assumes "callback_ready a c b s w qs cs None"
    and "strlenz name \<le> 64 \<and> strlenz topic \<le> 32" and "live s" and "c_noack c = 0"
    and "incoming s = response_header_bytes r @ rest"
    and "reply_error (reply_check EMQ_PROTOCOL_CMD_CHANNEL_UNSUBSCRIBE 0) r = Some e"
  shows "\<exists>c' b' s'. emq_channel_punsubscribe (Some a) name topic (sess a c b s w)
      = Some (EMQ_STATUS_ERR, sess a c' b' s' w) \<and> incoming s' = rest \<and> c_error c' = error_text e \<and>
    callback_ready a c' b' s' w qs cs None"
proof -
  obtain lp lp' where l: "c_queue_subscriptions c = Some lp" "c_channel_subscriptions c = Some lp'"
    "two_lists w lp' emq_channel_subscription_list_free_handler is_channel_sub cs
       lp emq_queue_subscription_list_free_handler is_queue_sub qs"
    "sess_ok c b" "world_wf (sess a c b s w)"
    using assms(1) by (rule callback_ready_lists)
  show ?thesis
    using channel_punsubscribe_cmd.unsubscribe_decided [OF l(4,5,2,3) assms(2-5),
        of "reply_check EMQ_PROTOCOL_CMD_CHANNEL_UNSUBSCRIBE 0" name, folded emq_channel_punsubscribe_def, unfolded assms(6)]
      settledI(2) [OF l(1,2) _ _ _ l(3)] by (simp, blast)
qed

section \<open>List queries and the client\<close>

text \<open>Memory that only grows from \<open>brk\<close> on leaves the lists of the client alone.\<close>

lemma client_lists_grows:
  assumes "client_lists c w qs cs" and wf: "world_wf w" and g: "grows (brk w) w w'"
  shows "client_lists c w' qs cs"
proof -
  have keep: "list_rep w' lp fr ns" if "list_rep w lp fr ns" for lp fr ns
    using list_rep_below [OF that wf] grows_fields(8,9) [OF g] by (intro list_rep_cong [OF that]) simp_all
  have obj: "objs w' v = objs w v" if "objs w v \<noteq> None" for v
    using that wf_fresh(4) [OF wf, of v] grows_fields(7) [OF g, of v] by (metis not_le)
  have sub: "is_queue_sub w v \<Longrightarrow> is_queue_sub w' v" "is_channel_sub w v \<Longrightarrow> is_channel_sub w' v" for v
    using obj [of v] by (auto simp: is_queue_sub_def is_channel_sub_def)
  obtain ql cl where l: "c_queue_subscriptions c = Some ql" "c_channel_subscriptions c = Some cl" "ql \<noteq> cl"
    "list_rep w ql (Some emq_queue_subscription_list_free_handler) qs"
    "list_rep w cl (Some emq_channel_subscription_list_free_handler) cs"
    "fst ` set qs \<inter> fst ` set cs = {}" "distinct (map snd qs @ map snd cs)"
    "\<forall>v \<in> snd ` set qs. is_queue_sub w v" "\<forall>v \<in> snd ` set cs. is_channel_sub w v"
    using assms(1) unfolding client_lists_def by (elim exE conjE) (rule that)
  have "\<forall>v \<in> snd ` set qs. is_queue_sub w' v" "\<forall>v \<in> snd ` set cs. is_channel_sub w' v" using l(8,9) sub by blast+
  with l keep [OF l(4)] keep [OF l(5)] show ?thesis
    unfolding client_lists_def by (intro exI [of _ ql] exI [of _ cl] conjI)
qed

context list_query
begin

lemma list_query_ready:
  assumes ready: "callback_ready a c b s w qs cs None" and ok and "live s"
    and mem: "\<forall>k \<ge> brk w. alloc_ok w k" and fit: "\<forall>r \<in> set rs. fits r"
    and reply: "incoming s = response_header_bytes h @ concat (map encode rs) @ rest"
    and head: "reply_error (reply_check_mini qcmd) h = None"
    and len: "unat (res_bodylen h) = width * length rs" "width * length rs < 2 ^ 31"
  shows "\<exists>lp ms c' b' s' w'. emq_list_query (Some a) build qcmd handler width init of_record (sess a c b s w)
      = Some (Some lp, sess a c' b' s' w') \<and> callback_ready a c' b' s' w' qs cs None \<and>
    list_rep w' lp (Some handler) ms \<and> holds w' ms (map object (rev rs)) \<and> distinct (map snd ms) \<and> incoming s' = rest"
proof -
  have r: "sess_ok c b" "world_wf (sess a c b s w)" "client_lists c w qs cs" using ready by (simp_all add: callback_ready_def)
  obtain lp ms n b' s' w' where q: "emq_list_query (Some a) build qcmd handler width init of_record (sess a c b s w)
      = Some (Some lp, sess a (settle None (c\<lparr>c_pos := n\<rparr>)) b' s' w')" "sess_ok c b'"
    "list_rep w' lp (Some handler) ms" "holds w' ms (map object (rev rs))" "distinct (map snd ms)"
    "grows (brk w) w w'" "world_wf w'" "incoming s' = rest"
    using list_query_live [OF r(1) assms(2,3) r(2) mem fit reply head len, of handler] by (elim exE conjE) (rule that)
  let ?c = "settle None (c\<lparr>c_pos := n\<rparr>)"
  have "client_lists c w' qs cs" using client_lists_grows [OF r(3) _ q(6)] r(2) by (simp add: world_wf_sess_iff)
  moreover have "world_wf (sess a ?c b' s' w')"
    using r(2) q(7) grows_fields(6) [OF q(6)] by (simp add: world_wf_sess_iff)
  ultimately have "callback_ready a ?c b' s' w' qs cs None" using q(2) by (simp add: callback_ready_def client_lists_def)
  with q(1,3-5,8) show ?thesis by blast
qed

end

section \<open>A message that breaks off\<close>

context request_builder
begin

text \<open>
  When the connection ends between the tag and the end of the data, \<open>emq_read_message\<close> returns the
  null pointer and \<open>emq_read_message_tag\<close> writes the tag through it.
\<close>

lemma fetch_broken_off:
  assumes ready: "sess_ok c b" and wf: "world_wf (sess a c b s w)" and fits: ok and live: "live s"
    and reply: "incoming s = response_header_bytes h @ tag @ part" "length tag = 8"
    and good: "reply_error check h = None"
    and len: "8 + length part < unat (res_bodylen h)"
  shows "emq_fetch_message (Some a) build check (sess a c b s w) = None"
proof -
  obtain n b' s1 where wr: "emq_request_write (Some a) build (sess a c b s w)
      = Some (True, sess a (c\<lparr>c_error := '''', c_pos := n\<rparr>) b' s1 w)" "sess_ok c b'"
    "wrote_out s (request_wire cmd (client_noack c) bodylen body) s1"
    using request_write_live [OF ready fits live] by blast
  let ?c = "c\<lparr>c_error := '''', c_pos := n\<rparr>"
  obtain s2 where hd: "emq_read_reply (Some a) check (sess a ?c b' s1 w) = Some (Some h, sess a ?c b' s2 w)"
    "took_in s1 (response_header_bytes h) s2"
    using emq_read_reply_front [of ?c s1 h "tag @ part" a check b' w] wr(3) reply good
    by (auto simp: wrote_out_def)
  have inc2: "live s2" "incoming s2 = tag @ part" using hd(2) wr(3) reply by (simp_all add: wrote_out_def took_in_def)
  obtain s3 where rd: "emq_client_read (Some a) 8 (sess a ?c b' s2 w) = Some (8, tag, sess a ?c b' s3 w)" "took_in s2 tag s3"
    using emq_client_read_front [OF inc2, of 8 a ?c b' w] reply(2) by auto
  have inc3: "incoming s3 = part" using rd(2) inc2(2) by (simp add: took_in_def)
  let ?sz = "ucast (res_bodylen h) - 8 :: size_t"
  have sz: "unat ?sz = unat (res_bodylen h) - 8" "unat ?sz < 2 ^ 32"
    using unat_minus_8(1) [of "ucast (res_bodylen h)"] len unat_u32_lt [of "res_bodylen h"] by (simp_all add: unat_ucast_u64)
  have wf3: "world_wf (sess a ?c b' s3 w)" using world_wf_sess_cong [OF wf, of ?c] by simp
  obtain r s4 where r: "message_read (unat ?sz) s3 r s4" "case r of
      Inl e \<Rightarrow> (\<exists>n. emq_read_message (Some a) ?sz (sess a ?c b' s3 w)
          = Some (None, sess a (?c\<lparr>c_error := error_text e\<rparr>) b' s4 (w\<lparr>brk := n\<rparr>)) \<and> brk w \<le> n)
    | Inr d \<Rightarrow> emq_read_message (Some a) ?sz (sess a ?c b' s3 w)
          = Some (Some (brk w), sess a ?c b' s4 (add_msg (read_msg ?sz (Suc (brk w))) d w))"
    using emq_read_message_sess [OF wf3 sz(2)] by blast
  have "r \<noteq> Inr d" for d
    using r(1) sz(1) len inc3 by (auto elim!: message_readE dest!: sock_read_front)
  then obtain e m where "emq_read_message (Some a) ?sz (sess a ?c b' s3 w)
      = Some (None, sess a (?c\<lparr>c_error := error_text e\<rparr>) b' s4 (w\<lparr>brk := m\<rparr>))"
    using r(2) by (cases r) auto
  then have "emq_read_message_tag (Some a) (ucast (res_bodylen h)) (sess a ?c b' s2 w) = None"
    using rd(1) by (simp add: emq_read_message_tag_def)
  with wr(1) hd(1) show ?thesis by (simp add: emq_fetch_message_def)
qed

end

section \<open>A client between two calls\<close>

text \<open>
  \<open>client_ready a c b s w qs cs\<close>: in the world \<open>w\<close> the client at \<open>a\<close> is connected and in order,
  with the subscriptions \<open>qs\<close> and \<open>cs\<close>.
\<close>

definition client_ready :: "addr \<Rightarrow> emq_client \<Rightarrow> byte option list \<Rightarrow> socket \<Rightarrow> world \<Rightarrow>
    (addr \<times> addr) list \<Rightarrow> (addr \<times> addr) list \<Rightarrow> bool" where
  "client_ready a c b s w qs cs \<longleftrightarrow> session a c b s w \<and> world_wf w \<and> client_lists c w qs cs"

lemma client_readyD:
  assumes "client_ready a c b s w qs cs"
  shows "callback_ready a c b s w qs cs None" "sess a c b s w = w" "sess_ok c b"
proof -
  have same: "sess a c b s w = w" using assms by (simp add: client_ready_def sess_same)
  then show "sess a c b s w = w" .
  show "sess_ok c b" using assms by (simp add: client_ready_def session_def)
  then show "callback_ready a c b s w qs cs None"
    using assms same by (simp add: callback_ready_def client_ready_def)
qed

lemma client_ready_sess [simp]:
  "client_ready a c b s (sess a c b s w) qs cs \<longleftrightarrow> callback_ready a c b s w qs cs None"
  by (auto simp: client_ready_def callback_ready_def)

lemma client_ready_inv: "client_ready a c b s w qs cs \<Longrightarrow> client_inv (Some a) w qs cs"
  using client_readyD [of a c b s w qs cs] client_inv_sess [of a c b s w qs cs] by (simp add: client_ready_def)

end
