(* ===== verification/Emq_Example.thy ===== *)
theory Emq_Example
  imports Emq_Queries Emq_Api
begin

text \<open>
  A concrete connection on which the properties are tried: a client at address 0 with its
  4096 byte request buffer at 1 and its two empty lists at 2 and 3, connected through the
  descriptor 5 to a server that is about to send the bytes \<open>inp\<close>.
\<close>

definition demo_socket :: "bytes \<Rightarrow> socket" where
  "demo_socket inp = \<lparr>incoming = inp, rd_script = \<lambda>i. Io 7, rd_pos = 0, outgoing = [],
     wr_script = \<lambda>i. Io 5, wr_pos = 0\<rparr>"

definition demo_client :: emq_client where
  "demo_client = \<lparr>c_status = 0, c_error = '''', c_request = Some 1, c_size = 4096, c_pos = 0,
     c_noack = 0, c_fd = 5, c_queue_subscriptions = Some 2, c_channel_subscriptions = Some 3\<rparr>"

definition demo_buffer :: "byte option list" where
  "demo_buffer = replicate 4096 None"

definition demo_list :: "free_handler \<Rightarrow> emq_list" where
  "demo_list h = \<lparr>list_head = None, list_tail = None, list_length = 0, list_free = Some h\<rparr>"

text \<open>The same with a given context and a given socket.\<close>

definition demo_with :: "emq_client \<Rightarrow> socket \<Rightarrow> world" where
  "demo_with c s = \<lparr>clients = [0 \<mapsto> c],
     list_hdrs = [2 \<mapsto> demo_list emq_queue_subscription_list_free_handler,
       3 \<mapsto> demo_list emq_channel_subscription_list_free_handler],
     nodes = Map.empty, objs = Map.empty, msgs = Map.empty, bufs = [1 \<mapsto> demo_buffer],
     brk = 4, alloc_ok = \<lambda>i. True, socks = [5 \<mapsto> s], sys_ok = \<lambda>i. True,
     sys_pos = 0, sys_errtext = \<lambda>i. '''', next_fd = 6, peer = \<lambda>fd. demo_socket [], message_counter = 0\<rparr>"

definition demo_world :: "bytes \<Rightarrow> world" where
  "demo_world inp = demo_with demo_client (demo_socket inp)"

lemma demo_socket_sel [simp]:
  "incoming (demo_socket inp) = inp" "outgoing (demo_socket inp) = []" "wr_pos (demo_socket inp) = 0"
  "rd_pos (demo_socket inp) = 0" "wr_script (demo_socket inp) i = Io 5" "rd_script (demo_socket inp) i = Io 7"
  by (simp_all add: demo_socket_def)

lemma demo_client_sel [simp]:
  "c_request demo_client = Some 1" "c_fd demo_client = 5" "c_noack demo_client = 0" "c_size demo_client = 4096"
  "c_error demo_client = ''''" "client_noack demo_client = 0"
  "c_queue_subscriptions demo_client = Some 2" "c_channel_subscriptions demo_client = Some 3"
  by (simp_all add: demo_client_def client_noack_def)

lemma demo_with_sel [simp]:
  "clients (demo_with c s) = [0 \<mapsto> c]" "nodes (demo_with c s) = Map.empty" "objs (demo_with c s) = Map.empty"
  "msgs (demo_with c s) = Map.empty" "bufs (demo_with c s) = [1 \<mapsto> demo_buffer]" "brk (demo_with c s) = 4"
  "alloc_ok (demo_with c s) = (\<lambda>i. True)" "socks (demo_with c s) = [5 \<mapsto> s]"
  "list_hdrs (demo_with c s) = [2 \<mapsto> demo_list emq_queue_subscription_list_free_handler,
     3 \<mapsto> demo_list emq_channel_subscription_list_free_handler]"
  by (simp_all add: demo_with_def)

lemma demo_live [simp]: "live (demo_socket inp)"
  by (simp add: live_def live_reads_def live_writes_def)

lemma demo_sess_ok [simp]: "sess_ok demo_client demo_buffer"
  by (simp add: sess_ok_def demo_buffer_def)

lemma demo_session: "session 0 demo_client demo_buffer s (demo_with demo_client s)"
  by (simp add: session_def)

lemma demo_wf: "world_wf (demo_with c s)"
  by (simp add: world_wf_def)

lemma demo_lists: "client_lists demo_client (demo_with c s) [] []"
  by (simp add: client_lists_def list_rep_def demo_list_def)

lemma demo_client_sock: "client_sock (Some 0) (demo_with demo_client s) s"
  by (simp add: client_sock_def)

lemma demo_world_session: "session 0 demo_client demo_buffer (demo_socket inp) (demo_world inp)"
  unfolding demo_world_def by (rule demo_session)

text \<open>
  The same client with two subscriptions: the function 0 for the queue \<open>q\<close> (node at 4, object at
  5) and the function 1 for the topic \<open>t\<close> of the channel \<open>c\<close> (node at 6, object at 7).
\<close>

definition demo_queue_sub :: emq_queue_subscription where
  "demo_queue_sub = \<lparr>qs_name = zfield 64 [113], qs_callback = 0\<rparr>"

definition demo_channel_sub :: emq_channel_subscription where
  "demo_channel_sub = \<lparr>cs_name = zfield 64 [99], cs_channel = zfield 32 [116], cs_callback = 1\<rparr>"

definition demo_list_one :: "addr \<Rightarrow> free_handler \<Rightarrow> emq_list" where
  "demo_list_one n h = \<lparr>list_head = Some n, list_tail = Some n, list_length = 1, list_free = Some h\<rparr>"

definition demo_subscribed :: "socket \<Rightarrow> world" where
  "demo_subscribed s = (demo_with demo_client s)\<lparr>
     list_hdrs := [2 \<mapsto> demo_list_one 4 emq_queue_subscription_list_free_handler,
       3 \<mapsto> demo_list_one 6 emq_channel_subscription_list_free_handler],
     nodes := [4 \<mapsto> \<lparr>node_prev = None, node_next = None, node_value = 5\<rparr>,
       6 \<mapsto> \<lparr>node_prev = None, node_next = None, node_value = 7\<rparr>],
     objs := [5 \<mapsto> QueueSubscription demo_queue_sub, 7 \<mapsto> ChannelSubscription demo_channel_sub],
     brk := 8\<rparr>"

lemma strlenz_one [simp]: "x \<noteq> 0 \<Longrightarrow> strlenz [x] = 2"
  by (simp add: strlenz_def cstr_def)

lemma cstr_one [simp]: "x \<noteq> 0 \<Longrightarrow> cstr [x] = [x]"
  by (simp add: cstr_def)

lemma demo_subscribed_sel [simp]:
  "objs (demo_subscribed s) = [5 \<mapsto> QueueSubscription demo_queue_sub, 7 \<mapsto> ChannelSubscription demo_channel_sub]"
  "brk (demo_subscribed s) = 8" "alloc_ok (demo_subscribed s) = (\<lambda>i. True)"
  "clients (demo_subscribed s) = [0 \<mapsto> demo_client]"
  by (simp_all add: demo_subscribed_def)

lemma demo_ready: "client_ready 0 demo_client demo_buffer s (demo_with demo_client s) [] []"
  by (simp add: client_ready_def demo_session demo_wf demo_lists)

lemma demo_subscribed_ready: "client_ready 0 demo_client demo_buffer s (demo_subscribed s) [(4, 5)] [(6, 7)]"
proof -
  have "session 0 demo_client demo_buffer s (demo_subscribed s)"
    by (simp add: session_def demo_subscribed_def)
  moreover have "world_wf (demo_subscribed s)"
    by (simp add: world_wf_def demo_subscribed_def)
  moreover have "client_lists demo_client (demo_subscribed s) [(4, 5)] [(6, 7)]"
    by (simp add: client_lists_def list_rep_def demo_subscribed_def demo_list_one_def is_queue_sub_def is_channel_sub_def
        demo_queue_sub_def demo_channel_sub_def)
  ultimately show ?thesis by (simp add: client_ready_def)
qed

lemma demo_titles [simp]:
  "sub_title queue_sub_name (demo_subscribed s) 5 = [113]" "sub_title channel_sub_name (demo_subscribed s) 7 = [99]"
  by (simp_all add: sub_title_def demo_queue_sub_def demo_channel_sub_def)

lemma demo_addressee [simp]:
  "addressee queue_sub_name (demo_subscribed s) raw [(4, 5)] = (if cstr raw = [113] then Some 5 else None)"
  "addressee channel_sub_name (demo_subscribed s) raw [(6, 7)] = (if cstr raw = [99] then Some 7 else None)"
  by (auto simp: addressee_def)

text \<open>The reply that grants a command.\<close>

definition granted_reply :: "protocol_command \<Rightarrow> protocol_response_header" where
  "granted_reply cmd = \<lparr>res_magic = EMQ_PROTOCOL_RES, res_cmd = cmd_code cmd,
     res_status = EMQ_PROTOCOL_STATUS_SUCCESS, res_bodylen = 0\<rparr>"

lemma granted_reply_good [simp]: "reply_error (reply_check cmd 0) (granted_reply cmd) = None"
  by (simp add: reply_error_def reply_check_def emq_check_response_header_def granted_reply_def)

text \<open>A callback that does nothing keeps the contract, also for a null message.\<close>

definition idle_callback :: user_function where
  "idle_callback client type name topic pattern msg w = Some (0, w)"

lemma idle_contract: "callback_contract (\<lambda>f. idle_callback) True (\<lambda>n k. True)"
  unfolding callback_contract_def idle_callback_def
  using callback_ready_None shrinks_refl by blast

text \<open>The events that bring a message to a queue subscription and to a channel subscription.\<close>

definition demo_event :: "protocol_command \<Rightarrow> nat \<Rightarrow> protocol_event_header" where
  "demo_event cmd n = \<lparr>ev_magic = EMQ_PROTOCOL_EVENT, ev_cmd = cmd_code cmd, ev_type = EMQ_PROTOCOL_EVENT_MESSAGE,
     ev_bodylen = word_of_nat n\<rparr>"

lemma demo_event_sel [simp]:
  "ev_cmd (demo_event cmd n) = cmd_code cmd" "ev_type (demo_event cmd n) = EMQ_PROTOCOL_EVENT_MESSAGE"
  "ev_bodylen (demo_event cmd n) = word_of_nat n"
  by (simp_all add: demo_event_def)

end
