(* ===== verification/Emq_Lifecycle.thy ===== *)
theory Emq_Lifecycle
  imports Emq_Memory
begin

text \<open>
  The life of a client: what \<open>emq_client_init\<close> makes of each allocation that fails, what the
  connect calls make of each system call that fails, and that release and disconnect return
  every block the client owns.
\<close>

section \<open>Creation\<close>

text \<open>The context and the memory of a client made at address \<open>b\<close>, the next free one.\<close>

definition new_context :: "addr \<Rightarrow> emq_client" where
  "new_context b = \<lparr>c_status = EMQ_STATUS_OK, c_error = '''', c_request = Some (Suc b),
     c_size = EMQ_DEFAULT_REQUEST_SIZE, c_pos = 0, c_noack = 0, c_fd = 0,
     c_queue_subscriptions = Some (Suc (Suc b)), c_channel_subscriptions = Some (Suc (Suc (Suc b)))\<rparr>"

definition empty_list :: "free_handler \<Rightarrow> emq_list" where
  "empty_list h = \<lparr>list_head = None, list_tail = None, list_length = 0, list_free = Some h\<rparr>"

definition new_client :: "world \<Rightarrow> world" where
  "new_client w = w\<lparr>clients := (clients w)(brk w \<mapsto> new_context (brk w)),
     list_hdrs := (list_hdrs w)(
       Suc (Suc (brk w)) \<mapsto> empty_list emq_queue_subscription_list_free_handler,
       Suc (Suc (Suc (brk w))) \<mapsto> empty_list emq_channel_subscription_list_free_handler),
     bufs := (bufs w)(Suc (brk w) \<mapsto> replicate EMQ_DEFAULT_REQUEST_SIZE None), brk := Suc (Suc (Suc (Suc (brk w))))\<rparr>"

lemma malloc_client: "malloc 312 w = (if alloc_ok w (brk w) then Some (brk w) else None, w\<lparr>brk := Suc (brk w)\<rparr>)"
  by (simp add: malloc_small)

lemma buf_alloc_request: "buf_alloc EMQ_DEFAULT_REQUEST_SIZE w = (if alloc_ok w (brk w)
    then (Some (brk w), w\<lparr>brk := Suc (brk w), bufs := (bufs w)(brk w \<mapsto> replicate EMQ_DEFAULT_REQUEST_SIZE None)\<rparr>)
    else (None, w\<lparr>brk := Suc (brk w)\<rparr>))"
  by (simp add: buf_alloc_def malloc_small EMQ_DEFAULT_REQUEST_SIZE_def)

lemma emq_list_init_cases: "emq_list_init w = (if alloc_ok w (brk w)
    then (Some (brk w), w\<lparr>brk := Suc (brk w), list_hdrs := (list_hdrs w)(brk w \<mapsto>
      \<lparr>list_head = None, list_tail = None, list_length = 0, list_free = None\<rparr>)\<rparr>)
    else (None, w\<lparr>brk := Suc (brk w)\<rparr>))"
  by (simp add: emq_list_init_def malloc_small)

lemmas init_defs = emq_client_init_def malloc_client buf_alloc_request emq_list_init_cases
  free_client_def free_buf_def emq_list_release_def free_list_def EMQ_LIST_SET_FREE_METHOD_def

lemma emq_client_init_ok:
  assumes "alloc_ok w (brk w)" and "alloc_ok w (Suc (brk w))" and "alloc_ok w (Suc (Suc (brk w)))"
    and "alloc_ok w (Suc (Suc (Suc (brk w))))"
  shows "emq_client_init w = Some (Some (brk w), new_client w)"
  using assms by (simp add: init_defs new_client_def new_context_def empty_list_def fun_upd_twist)

text \<open>No context: the null pointer. No request buffer: the null pointer, and the lists are lost.\<close>

lemma emq_client_init_no_context:
  "\<not> alloc_ok w (brk w) \<Longrightarrow> emq_client_init w = Some (None, w\<lparr>brk := Suc (brk w)\<rparr>)"
  by (simp add: emq_client_init_def malloc_client)

lemma emq_client_init_no_request:
  assumes "alloc_ok w (brk w)" and "\<not> alloc_ok w (Suc (brk w))" and "clients w (brk w) = None"
  shows "\<exists>w'. emq_client_init w = Some (None, w') \<and> clients w' = clients w \<and> bufs w' = bufs w \<and>
    nodes w' = nodes w \<and> objs w' = objs w \<and> msgs w' = msgs w \<and>
    (\<forall>a \<in> {Suc (Suc (brk w)), Suc (Suc (Suc (brk w)))}. alloc_ok w a \<longrightarrow> list_hdrs w' a \<noteq> None)"
  using assms
  by (cases "alloc_ok w (Suc (Suc (brk w)))"; cases "alloc_ok w (Suc (Suc (Suc (brk w))))")
    (simp_all add: init_defs fun_upd_idem fun_upd_twist)

text \<open>No list: the function goes on with the context it has freed.\<close>

lemma emq_client_init_no_list:
  assumes "alloc_ok w (brk w)" and "alloc_ok w (Suc (brk w))"
    and "\<not> alloc_ok w (Suc (Suc (brk w))) \<or> \<not> alloc_ok w (Suc (Suc (Suc (brk w))))"
  shows "emq_client_init w = None"
  using assms
  by (cases "alloc_ok w (Suc (Suc (brk w)))"; cases "alloc_ok w (Suc (Suc (Suc (brk w))))")
    (simp_all add: init_defs)

section \<open>A new client is in order\<close>

lemma new_client_sel [simp]:
  "clients (new_client w) = (clients w)(brk w \<mapsto> new_context (brk w))" "brk (new_client w) = Suc (Suc (Suc (Suc (brk w))))"
  "nodes (new_client w) = nodes w" "objs (new_client w) = objs w" "msgs (new_client w) = msgs w"
  "alloc_ok (new_client w) = alloc_ok w" "socks (new_client w) = socks w" "sys_pos (new_client w) = sys_pos w"
  "next_fd (new_client w) = next_fd w" "sys_ok (new_client w) = sys_ok w" "peer (new_client w) = peer w"
  "bufs (new_client w) = (bufs w)(Suc (brk w) \<mapsto> replicate EMQ_DEFAULT_REQUEST_SIZE None)"
  "list_hdrs (new_client w) = (list_hdrs w)(
       Suc (Suc (brk w)) \<mapsto> empty_list emq_queue_subscription_list_free_handler,
       Suc (Suc (Suc (brk w))) \<mapsto> empty_list emq_channel_subscription_list_free_handler)"
  by (simp_all add: new_client_def)

lemma new_client_lists:
  assumes "c_queue_subscriptions c = Some (Suc (Suc (brk w)))" and "c_channel_subscriptions c = Some (Suc (Suc (Suc (brk w))))"
    and "list_hdrs w' = list_hdrs (new_client w)"
  shows "client_lists c w' [] []"
  using assms by (simp add: client_lists_def list_rep_def empty_list_def)

lemma new_client_wf: "world_wf w \<Longrightarrow> world_wf (new_client w)"
  by (simp add: world_wf_def)

section \<open>Release\<close>

text \<open>The world without what the client at \<open>a\<close> owns.\<close>

definition without_client :: "addr \<Rightarrow> emq_client \<Rightarrow> (addr \<times> addr) list \<Rightarrow> (addr \<times> addr) list \<Rightarrow> world \<Rightarrow> world" where
  "without_client a c qs cs w = w\<lparr>clients := (clients w)(a := None),
     list_hdrs := (list_hdrs w)(the (c_queue_subscriptions c) := None, the (c_channel_subscriptions c) := None),
     nodes := nodes w |` (- fst ` set (qs @ cs)), objs := objs w |` (- snd ` set (qs @ cs)),
     bufs := (bufs w)(the (c_request c) := None)\<rparr>"

lemma emq_client_release_rep:
  assumes c: "clients w a = Some c" and lists: "client_lists c w qs cs" and buf: "client_buffer c w"
  shows "emq_client_release (Some a) w = Some (without_client a c qs cs w)"
proof -
  obtain ql cl where l: "c_queue_subscriptions c = Some ql" "c_channel_subscriptions c = Some cl" "ql \<noteq> cl"
    "list_rep w ql (Some emq_queue_subscription_list_free_handler) qs"
    "list_rep w cl (Some emq_channel_subscription_list_free_handler) cs"
    "fst ` set qs \<inter> fst ` set cs = {}" "distinct (map snd qs @ map snd cs)"
    "\<forall>v \<in> snd ` set qs. is_queue_sub w v" "\<forall>v \<in> snd ` set cs. is_channel_sub w v"
    using lists unfolding client_lists_def by (elim exE conjE) (rule that)
  obtain r b where r: "c_request c = Some r" "bufs w r = Some b" using buf by (auto simp: client_buffer_def)
  let ?w1 = "w\<lparr>objs := freed_objs (Some emq_queue_subscription_list_free_handler) (map snd qs) w,
      nodes := nodes w |` (- fst ` set qs), list_hdrs := (list_hdrs w)(ql := None)\<rparr>"
  have "snd ` set qs \<subseteq> dom (objs w)" using l(8) by (auto simp: is_queue_sub_def)
  then have one: "emq_list_release (Some ql) w = Some ?w1"
    using l(4,7) by (intro emq_list_release_rep) simp_all
  have other: "x \<notin> fst ` set qs" if "x \<in> fst ` set cs" for x using l(6) that by blast
  have rep2: "list_rep ?w1 cl (Some emq_channel_subscription_list_free_handler) cs"
    using l(3) other by (intro list_rep_cong [OF l(5)]) simp_all
  have "v \<in> dom (objs ?w1)" if "v \<in> snd ` set cs" for v
    using l(7,9) that by (auto simp: freed_objs_def is_channel_sub_def)
  then have two: "emq_list_release (Some cl) ?w1 = Some (?w1\<lparr>
      objs := freed_objs (Some emq_channel_subscription_list_free_handler) (map snd cs) ?w1,
      nodes := nodes ?w1 |` (- fst ` set cs), list_hdrs := (list_hdrs ?w1)(cl := None)\<rparr>)"
    using l(7) by (intro emq_list_release_rep [OF rep2]) auto
  show ?thesis
    using c l(1,2) r one two
    by (simp add: emq_client_release_def free_buf_def free_client_def without_client_def freed_objs_def
        image_Un Un_commute Int_commute)
qed

lemma emq_disconnect_rep:
  assumes "clients w a = Some c" and "client_lists c w qs cs" and "client_buffer c w"
  shows "emq_disconnect (Some a) w = Some (without_client a c qs cs (sys_close (c_fd c) w))"
proof -
  let ?w = "sys_close (c_fd c) w"
  have "clients ?w a = Some c" "client_lists c ?w qs cs" "client_buffer c ?w"
    using assms by (simp_all add: sys_close_def client_lists_def list_rep_def is_queue_sub_def is_channel_sub_def client_buffer_def)
  then show ?thesis
    using assms(1) emq_client_release_rep by (simp add: emq_disconnect_def emq_client_disconnect_def)
qed

section \<open>Connecting\<close>

text \<open>
  The part of the world the connect calls touch: the context of the client, the counters of
  system calls and descriptors, and the sockets.
\<close>

definition netw :: "addr \<Rightarrow> emq_client \<Rightarrow> nat \<Rightarrow> nat \<Rightarrow> (int \<rightharpoonup> socket) \<Rightarrow> world \<Rightarrow> world" where
  "netw a c n m ss w = w\<lparr>clients := (clients w)(a \<mapsto> c), sys_pos := n, next_fd := m, socks := ss\<rparr>"

lemma netw_same: "clients w a = Some c \<Longrightarrow> netw a c (sys_pos w) (next_fd w) (socks w) w = w"
  by (simp add: netw_def fun_upd_idem)

lemma netw_sel [simp]:
  "clients (netw a c n m ss w) = (clients w)(a \<mapsto> c)" "list_hdrs (netw a c n m ss w) = list_hdrs w"
  "nodes (netw a c n m ss w) = nodes w" "objs (netw a c n m ss w) = objs w" "msgs (netw a c n m ss w) = msgs w"
  "bufs (netw a c n m ss w) = bufs w" "brk (netw a c n m ss w) = brk w" "alloc_ok (netw a c n m ss w) = alloc_ok w"
  "socks (netw a c n m ss w) = ss" "next_fd (netw a c n m ss w) = m" "sys_pos (netw a c n m ss w) = n"
  "get_client (Some a) (netw a c n m ss w) = Some c"
  by (simp_all add: netw_def)

lemma peer_sel [simp]: "peer (netw a c n m ss w) = peer w" "peer (new_client w) = peer w"
  by (simp_all add: netw_def new_client_def)

lemma put_client_netw [simp]: "put_client (Some a) c' (netw a c n m ss w) = Some (netw a c' n m ss w)"
  by (simp add: put_client_def netw_def)

lemma netw_calls [simp]:
  "sys_call (netw a c n m ss w) = (sys_ok w n, sys_errtext w n, netw a c (Suc n) m ss w)"
  "sys_open (netw a c n m ss w) = (int m, netw a c n (Suc m) (ss(int m \<mapsto> peer w (int m))) w)"
  "sys_close fd (netw a c n m ss w) = netw a c n m (ss(fd := None)) w"
  "net_set_error (Some a) msg (netw a c n m ss w) = Some (netw a (c\<lparr>c_error := take 255 msg\<rparr>) n m ss w)"
  "set_fd (Some a) fd (netw a c n m ss w) = Some (netw a (c\<lparr>c_fd := fd\<rparr>) n m ss w)"
  "EMQ_CLEAR_ERROR (Some a) (netw a c n m ss w) = Some (netw a (c\<lparr>c_error := ''''\<rparr>) n m ss w)"
  "EMQ_SET_STATUS (Some a) x (netw a c n m ss w) = Some (netw a (c\<lparr>c_status := x\<rparr>) n m ss w)"
  by (simp_all add: sys_call_def sys_open_def sys_close_def net_set_error_def set_fd_def EMQ_ERROR_BUF_SIZE_def
      EMQ_CLEAR_ERROR_def EMQ_SET_STATUS_def, simp_all add: netw_def)

lemma net_results [simp]: "EMQ_NET_OK \<noteq> EMQ_NET_ERR" "int m \<noteq> EMQ_NET_ERR" "EMQ_NET_ERR \<noteq> int m"
  by (simp_all add: EMQ_NET_OK_def EMQ_NET_ERR_def)

lemma fd_error_order [simp]: "c\<lparr>c_fd := fd, c_error := e\<rparr> = c\<lparr>c_error := e, c_fd := fd\<rparr>"
  by (cases c) simp

text \<open>What a connect call may return: an error, or the next descriptor connected to its server.\<close>

inductive connects :: "addr \<Rightarrow> emq_client \<Rightarrow> nat \<Rightarrow> (int \<rightharpoonup> socket) \<Rightarrow> world \<Rightarrow> (int \<times> world) option \<Rightarrow> bool"
  for a c m ss w where
  refused: "connects a c m ss w (Some (EMQ_NET_ERR, netw a (c\<lparr>c_error := e, c_fd := fd\<rparr>) n' m' ss' w))"
| connected: "connects a c m ss w (Some (EMQ_NET_OK,
    netw a (c\<lparr>c_fd := int m\<rparr>) n' m' (ss(int m \<mapsto> peer w (int m))) w))"

inductive_cases connectsE: "connects a c m ss w r"

lemma net_create_socket_netw:
  "net_create_socket (Some a) (netw a c n m ss w) = Some (
     if \<not> sys_ok w n then (EMQ_NET_ERR, netw a (c\<lparr>c_error := take 255 (''socket: '' @ sys_errtext w n)\<rparr>) (Suc n) m ss w)
     else if \<not> sys_ok w (Suc n) then (EMQ_NET_ERR,
       netw a (c\<lparr>c_error := take 255 (''setsockopt: '' @ sys_errtext w (Suc n))\<rparr>) (Suc (Suc n)) (Suc m)
         (ss(int m \<mapsto> peer w (int m))) w)
     else (int m, netw a c (Suc (Suc n)) (Suc m) (ss(int m \<mapsto> peer w (int m))) w))"
  by (simp add: net_create_socket_def)

lemma emq_client_tcp_connect_netw:
  "connects a c m ss w (emq_client_tcp_connect (Some a) addr (netw a c n m ss w))"
  by (auto simp: emq_client_tcp_connect_def net_create_socket_netw net_tcp_nodelay_def Let_def intro: connects.intros)

lemma emq_client_unix_connect_netw:
  "connects a c m ss w (emq_client_unix_connect (Some a) (netw a c n m ss w))"
  by (auto simp: emq_client_unix_connect_def net_create_socket_netw Let_def intro: connects.intros)

text \<open>
  The two public calls share their text; \<open>connect\<close> is the call of \<^verbatim>\<open>network.c\<close> and \<open>open_client\<close>
  is what they do with it.
\<close>

definition open_client :: "(ptr \<Rightarrow> world \<Rightarrow> (int \<times> world) option) \<Rightarrow> world \<Rightarrow> (ptr \<times> world) option" where
  "open_client connect w = do {
     (client, w) \<leftarrow> emq_client_init w;
     if client = None then Some (None, w)
     else do {
       w \<leftarrow> EMQ_CLEAR_ERROR client w;
       (r, w) \<leftarrow> connect client w;
       if r = EMQ_NET_ERR then do {
         w \<leftarrow> emq_client_release client w;
         Some (None, w) }
       else do {
         w \<leftarrow> EMQ_SET_STATUS client EMQ_STATUS_OK w;
         Some (client, w) } } }"

lemma connect_open_client:
  "emq_tcp_connect addr w = open_client (\<lambda>client. emq_client_tcp_connect client addr) w"
  "emq_unix_connect w = open_client emq_client_unix_connect w"
  by (simp_all add: emq_tcp_connect_def emq_unix_connect_def open_client_def)

text \<open>Two worlds with the same memory.\<close>

definition same_memory :: "world \<Rightarrow> world \<Rightarrow> bool" where
  "same_memory w w' \<longleftrightarrow> clients w' = clients w \<and> list_hdrs w' = list_hdrs w \<and> nodes w' = nodes w \<and>
     objs w' = objs w \<and> msgs w' = msgs w \<and> bufs w' = bufs w"

text \<open>The world after a successful connect call, with \<open>n\<close> system calls and \<open>m\<close> descriptors so far.\<close>

definition connected_client :: "nat \<Rightarrow> nat \<Rightarrow> world \<Rightarrow> world" where
  "connected_client n m w = netw (brk w) ((new_context (brk w))\<lparr>c_fd := int (next_fd w)\<rparr>) n m
     ((socks w)(int (next_fd w) \<mapsto> peer w (int (next_fd w)))) (new_client w)"

lemma connected_client_order:
  "clients (connected_client n m w) (brk w) = Some ((new_context (brk w))\<lparr>c_fd := int (next_fd w)\<rparr>)"
  "client_lists ((new_context (brk w))\<lparr>c_fd := int (next_fd w)\<rparr>) (connected_client n m w) [] []"
  "client_buffer ((new_context (brk w))\<lparr>c_fd := int (next_fd w)\<rparr>) (connected_client n m w)"
proof -
  show "client_lists ((new_context (brk w))\<lparr>c_fd := int (next_fd w)\<rparr>) (connected_client n m w) [] []"
    by (rule new_client_lists [of _ w]) (simp_all add: connected_client_def new_context_def)
qed (simp_all add: connected_client_def new_context_def client_buffer_def EMQ_DEFAULT_REQUEST_SIZE_def)

lemma connected_client_wf: "world_wf w \<Longrightarrow> world_wf (connected_client n m w)"
  using new_client_wf [of w] by (simp add: world_wf_def connected_client_def)

locale connector =
  fixes connect :: "ptr \<Rightarrow> world \<Rightarrow> (int \<times> world) option"
  assumes connect_spec: "connects a c m ss w (connect (Some a) (netw a c n m ss w))"
begin

text \<open>
  With memory, a connect call gives either a new client with the next descriptor as its
  connection, or the null pointer and the memory as it was.
\<close>

lemma open_client_exact:
  assumes wf: "world_wf w" and mem: "\<forall>i \<in> {brk w ..< brk w + 4}. alloc_ok w i"
  shows "(\<exists>w'. open_client connect w = Some (None, w') \<and> same_memory w w' \<and> world_wf w' \<and> alloc_ok w' = alloc_ok w \<and>
      peer w' = peer w \<and> brk w \<le> brk w') \<or>
    (\<exists>n m. open_client connect w = Some (Some (brk w), connected_client n m w))"
proof -
  let ?a = "brk w" and ?c = "new_context (brk w)" and ?w = "new_client w"
  have start: "emq_client_init w = Some (Some ?a, netw ?a ?c (sys_pos w) (next_fd w) (socks w) ?w)"
    using emq_client_init_ok [of w] mem netw_same [of ?w ?a ?c] by simp
  have "?c\<lparr>c_error := ''''\<rparr> = ?c" by (simp add: new_context_def)
  then have clear: "EMQ_CLEAR_ERROR (Some ?a) (netw ?a ?c (sys_pos w) (next_fd w) (socks w) ?w)
      = Some (netw ?a ?c (sys_pos w) (next_fd w) (socks w) ?w)" by simp
  have "connects ?a ?c (next_fd w) (socks w) ?w (connect (Some ?a) (netw ?a ?c (sys_pos w) (next_fd w) (socks w) ?w))"
    by (rule connect_spec)
  then show ?thesis
  proof (rule connectsE)
    fix e fd n m ss
    let ?c' = "?c\<lparr>c_error := e, c_fd := fd\<rparr>" and ?W = "netw ?a (?c\<lparr>c_error := e, c_fd := fd\<rparr>) n m ss ?w"
    assume con: "connect (Some ?a) (netw ?a ?c (sys_pos w) (next_fd w) (socks w) ?w) = Some (EMQ_NET_ERR, ?W)"
    have "client_lists ?c' ?W [] []" "client_buffer ?c' ?W"
      by (rule new_client_lists [of _ w]) (simp_all add: new_context_def client_buffer_def EMQ_DEFAULT_REQUEST_SIZE_def)
    then have "emq_client_release (Some ?a) ?W = Some (without_client ?a ?c' [] [] ?W)"
      by (intro emq_client_release_rep) simp_all
    with start clear con have "open_client connect w = Some (None, without_client ?a ?c' [] [] ?W)"
      by (simp add: open_client_def)
    then show ?thesis
      using wf by (auto simp: same_memory_def without_client_def world_wf_def new_context_def fun_eq_iff)
  next
    fix n m
    assume con: "connect (Some ?a) (netw ?a ?c (sys_pos w) (next_fd w) (socks w) ?w)
      = Some (EMQ_NET_OK, netw ?a (?c\<lparr>c_fd := int (next_fd w)\<rparr>) n m
          ((socks w)(int (next_fd w) \<mapsto> peer ?w (int (next_fd w)))) ?w)"
    have "?c\<lparr>c_fd := int (next_fd w), c_status := EMQ_STATUS_OK\<rparr> = ?c\<lparr>c_fd := int (next_fd w)\<rparr>"
      by (simp add: new_context_def)
    with start clear con have "open_client connect w = Some (Some ?a, connected_client n m w)"
      by (simp add: open_client_def connected_client_def)
    then show ?thesis by blast
  qed
qed

lemma open_client_ok:
  assumes wf: "world_wf w" and mem: "\<forall>i \<in> {brk w ..< brk w + 4}. alloc_ok w i"
  shows "\<exists>p w'. open_client connect w = Some (p, w') \<and> world_wf w' \<and> (case p of
      None \<Rightarrow> same_memory w w'
    | Some a \<Rightarrow> a = brk w \<and> client_inv p w' [] [] \<and> (\<exists>c. clients w' a = Some c \<and> c_status c = EMQ_STATUS_OK \<and>
        c_error c = '''' \<and> c_noack c = 0 \<and> c_fd c = int (next_fd w) \<and>
        socks w' = (socks w)(c_fd c \<mapsto> peer w (c_fd c))))"
  using open_client_exact [OF wf mem]
proof (elim disjE exE conjE)
  fix n m assume run: "open_client connect w = Some (Some (brk w), connected_client n m w)"
  have "client_inv (Some (brk w)) (connected_client n m w) [] []"
    using connected_client_order [where n = n and m = m and w = w] by (simp add: client_inv_def)
  with run connected_client_wf [OF wf, of n m] show ?thesis
    by (intro exI [of _ "Some (brk w)"] exI [of _ "connected_client n m w"])
      (simp add: connected_client_def new_context_def)
qed auto

lemma open_client_no_list:
  assumes "alloc_ok w (brk w)" and "alloc_ok w (Suc (brk w))"
    and "\<not> alloc_ok w (Suc (Suc (brk w))) \<or> \<not> alloc_ok w (Suc (Suc (Suc (brk w))))"
  shows "open_client connect w = None"
  by (simp add: open_client_def emq_client_init_no_list [OF assms])

end

interpretation tcp: connector "\<lambda>client. emq_client_tcp_connect client addr" for addr
  by unfold_locales (rule emq_client_tcp_connect_netw)

interpretation unix: connector emq_client_unix_connect
  by unfold_locales (rule emq_client_unix_connect_netw)

text \<open>A failed \<open>setsockopt\<close> leaves the socket open: nothing closes it.\<close>

lemma setsockopt_failure_leaks:
  assumes "sys_ok w (sys_pos w)" and "\<not> sys_ok w (Suc (sys_pos w))" and mem: "\<forall>i. alloc_ok w i"
  shows "\<exists>w'. emq_tcp_connect addr w = Some (None, w') \<and>
    socks w' = (socks w)(int (next_fd w) \<mapsto> peer w (int (next_fd w)))"
proof -
  let ?a = "brk w" and ?c = "new_context (brk w)" and ?w = "new_client w"
  let ?W = "netw ?a ?c (sys_pos w) (next_fd w) (socks w) ?w"
  have start: "emq_client_init w = Some (Some ?a, ?W)"
    using emq_client_init_ok [of w] mem netw_same [of ?w ?a ?c] by simp
  let ?e = "take 255 (''setsockopt: '' @ sys_errtext w (Suc (sys_pos w)))"
  let ?c' = "?c\<lparr>c_error := ?e, c_fd := EMQ_NET_ERR\<rparr>"
  let ?V = "netw ?a ?c' (Suc (Suc (sys_pos w))) (Suc (next_fd w))
      ((socks w)(int (next_fd w) \<mapsto> peer w (int (next_fd w)))) ?w"
  have clear: "?c\<lparr>c_error := ''''\<rparr> = ?c" by (simp add: new_context_def)
  have env: "sys_errtext ?w = sys_errtext w" by (simp add: new_client_def)
  have "emq_client_tcp_connect (Some ?a) addr ?W = Some (EMQ_NET_ERR, ?V)"
    using assms(1,2) by (simp add: emq_client_tcp_connect_def net_create_socket_netw env)
  moreover have "client_lists ?c' ?V [] []" "client_buffer ?c' ?V"
    by (rule new_client_lists [of _ w]) (simp_all add: new_context_def client_buffer_def EMQ_DEFAULT_REQUEST_SIZE_def)
  then have "emq_client_release (Some ?a) ?V = Some (without_client ?a ?c' [] [] ?V)"
    by (intro emq_client_release_rep) simp_all
  ultimately show ?thesis
    using start clear by (simp add: connect_open_client open_client_def, simp add: without_client_def)
qed

end
