(* ===== verification/Emq_Flags.thy ===== *)
theory Emq_Flags
  imports Emq_State
begin

unbundle bit_operations_syntax

text \<open>
  The permission bits and the flags of \<^verbatim>\<open>src/src/emq.h\<close> that callers pass to the commands. The lemmas show that
  the permissions are single and different bits, so that any combination can be read back
  from the 64 bit word a user has.
\<close>

section \<open>Permissions\<close>

definition EMQ_QUEUE_PERM :: u64 where "EMQ_QUEUE_PERM = 1"
definition EMQ_ROUTE_PERM :: u64 where "EMQ_ROUTE_PERM = 2"
definition EMQ_ADMIN_PERM :: u64 where "EMQ_ADMIN_PERM = 32"
definition EMQ_NOT_CHANGE_PERM :: u64 where "EMQ_NOT_CHANGE_PERM = 64"
definition EMQ_QUEUE_CREATE_PERM :: u64 where "EMQ_QUEUE_CREATE_PERM = 1048576"
definition EMQ_QUEUE_DECLARE_PERM :: u64 where "EMQ_QUEUE_DECLARE_PERM = 2097152"
definition EMQ_QUEUE_EXIST_PERM :: u64 where "EMQ_QUEUE_EXIST_PERM = 4194304"
definition EMQ_QUEUE_LIST_PERM :: u64 where "EMQ_QUEUE_LIST_PERM = 8388608"
definition EMQ_QUEUE_RENAME_PERM :: u64 where "EMQ_QUEUE_RENAME_PERM = 16777216"
definition EMQ_QUEUE_SIZE_PERM :: u64 where "EMQ_QUEUE_SIZE_PERM = 33554432"
definition EMQ_QUEUE_PUSH_PERM :: u64 where "EMQ_QUEUE_PUSH_PERM = 67108864"
definition EMQ_QUEUE_GET_PERM :: u64 where "EMQ_QUEUE_GET_PERM = 134217728"
definition EMQ_QUEUE_POP_PERM :: u64 where "EMQ_QUEUE_POP_PERM = 268435456"
definition EMQ_QUEUE_CONFIRM_PERM :: u64 where "EMQ_QUEUE_CONFIRM_PERM = 536870912"
definition EMQ_QUEUE_SUBSCRIBE_PERM :: u64 where "EMQ_QUEUE_SUBSCRIBE_PERM = 1073741824"
definition EMQ_QUEUE_UNSUBSCRIBE_PERM :: u64 where "EMQ_QUEUE_UNSUBSCRIBE_PERM = 2147483648"
definition EMQ_QUEUE_PURGE_PERM :: u64 where "EMQ_QUEUE_PURGE_PERM = 4294967296"
definition EMQ_QUEUE_DELETE_PERM :: u64 where "EMQ_QUEUE_DELETE_PERM = 8589934592"
definition EMQ_ROUTE_CREATE_PERM :: u64 where "EMQ_ROUTE_CREATE_PERM = 17179869184"
definition EMQ_ROUTE_EXIST_PERM :: u64 where "EMQ_ROUTE_EXIST_PERM = 34359738368"
definition EMQ_ROUTE_LIST_PERM :: u64 where "EMQ_ROUTE_LIST_PERM = 68719476736"
definition EMQ_ROUTE_KEYS_PERM :: u64 where "EMQ_ROUTE_KEYS_PERM = 137438953472"
definition EMQ_ROUTE_RENAME_PERM :: u64 where "EMQ_ROUTE_RENAME_PERM = 274877906944"
definition EMQ_ROUTE_BIND_PERM :: u64 where "EMQ_ROUTE_BIND_PERM = 549755813888"
definition EMQ_ROUTE_UNBIND_PERM :: u64 where "EMQ_ROUTE_UNBIND_PERM = 1099511627776"
definition EMQ_ROUTE_PUSH_PERM :: u64 where "EMQ_ROUTE_PUSH_PERM = 2199023255552"
definition EMQ_ROUTE_DELETE_PERM :: u64 where "EMQ_ROUTE_DELETE_PERM = 4398046511104"
definition EMQ_CHANNEL_CREATE_PERM :: u64 where "EMQ_CHANNEL_CREATE_PERM = 8796093022208"
definition EMQ_CHANNEL_EXIST_PERM :: u64 where "EMQ_CHANNEL_EXIST_PERM = 17592186044416"
definition EMQ_CHANNEL_LIST_PERM :: u64 where "EMQ_CHANNEL_LIST_PERM = 35184372088832"
definition EMQ_CHANNEL_RENAME_PERM :: u64 where "EMQ_CHANNEL_RENAME_PERM = 70368744177664"
definition EMQ_CHANNEL_PUBLISH_PERM :: u64 where "EMQ_CHANNEL_PUBLISH_PERM = 140737488355328"
definition EMQ_CHANNEL_SUBSCRIBE_PERM :: u64 where "EMQ_CHANNEL_SUBSCRIBE_PERM = 281474976710656"
definition EMQ_CHANNEL_PSUBSCRIBE_PERM :: u64 where "EMQ_CHANNEL_PSUBSCRIBE_PERM = 562949953421312"
definition EMQ_CHANNEL_UNSUBSCRIBE_PERM :: u64 where "EMQ_CHANNEL_UNSUBSCRIBE_PERM = 1125899906842624"
definition EMQ_CHANNEL_PUNSUBSCRIBE_PERM :: u64 where "EMQ_CHANNEL_PUNSUBSCRIBE_PERM = 2251799813685248"
definition EMQ_CHANNEL_DELETE_PERM :: u64 where "EMQ_CHANNEL_DELETE_PERM = 4503599627370496"

section \<open>Flags and limits\<close>

definition EMQ_DEFAULT_PORT :: int where "EMQ_DEFAULT_PORT = 7851"
definition EMQ_FLUSH_USER :: u32 where "EMQ_FLUSH_USER = 1"
definition EMQ_FLUSH_QUEUE :: u32 where "EMQ_FLUSH_QUEUE = 2"
definition EMQ_FLUSH_ROUTE :: u32 where "EMQ_FLUSH_ROUTE = 4"
definition EMQ_FLUSH_CHANNEL :: u32 where "EMQ_FLUSH_CHANNEL = 8"
definition EMQ_FLUSH_ALL :: u32 where
  "EMQ_FLUSH_ALL = EMQ_FLUSH_USER OR EMQ_FLUSH_QUEUE OR EMQ_FLUSH_ROUTE OR EMQ_FLUSH_CHANNEL"
definition EMQ_QUEUE_NONE :: u32 where "EMQ_QUEUE_NONE = 0"
definition EMQ_QUEUE_AUTODELETE :: u32 where "EMQ_QUEUE_AUTODELETE = 1"
definition EMQ_QUEUE_FORCE_PUSH :: u32 where "EMQ_QUEUE_FORCE_PUSH = 2"
definition EMQ_QUEUE_ROUND_ROBIN :: u32 where "EMQ_QUEUE_ROUND_ROBIN = 4"
definition EMQ_QUEUE_DURABLE :: u32 where "EMQ_QUEUE_DURABLE = 8"
definition EMQ_QUEUE_SUBSCRIBE_MSG :: u32 where "EMQ_QUEUE_SUBSCRIBE_MSG = 0"
definition EMQ_QUEUE_SUBSCRIBE_NOTIFY :: u32 where "EMQ_QUEUE_SUBSCRIBE_NOTIFY = 1"
definition EMQ_ROUTE_NONE :: u32 where "EMQ_ROUTE_NONE = 0"
definition EMQ_ROUTE_AUTODELETE :: u32 where "EMQ_ROUTE_AUTODELETE = 1"
definition EMQ_ROUTE_ROUND_ROBIN :: u32 where "EMQ_ROUTE_ROUND_ROBIN = 2"
definition EMQ_ROUTE_DURABLE :: u32 where "EMQ_ROUTE_DURABLE = 4"
definition EMQ_CHANNEL_NONE :: u32 where "EMQ_CHANNEL_NONE = 0"
definition EMQ_CHANNEL_AUTODELETE :: u32 where "EMQ_CHANNEL_AUTODELETE = 1"
definition EMQ_CHANNEL_ROUND_ROBIN :: u32 where "EMQ_CHANNEL_ROUND_ROBIN = 2"
definition EMQ_CHANNEL_DURABLE :: u32 where "EMQ_CHANNEL_DURABLE = 4"
definition EMQ_MAX_MSG :: u32 where "EMQ_MAX_MSG = 4294967295"
definition EMQ_MAX_MSG_SIZE :: u32 where "EMQ_MAX_MSG_SIZE = 2147483647"

text \<open>The permissions a user is given, in the order of the header.\<close>

definition emq_permissions :: "u64 list" where
  "emq_permissions = [
     EMQ_QUEUE_PERM, EMQ_ROUTE_PERM, EMQ_ADMIN_PERM,
     EMQ_NOT_CHANGE_PERM, EMQ_QUEUE_CREATE_PERM, EMQ_QUEUE_DECLARE_PERM,
     EMQ_QUEUE_EXIST_PERM, EMQ_QUEUE_LIST_PERM, EMQ_QUEUE_RENAME_PERM,
     EMQ_QUEUE_SIZE_PERM, EMQ_QUEUE_PUSH_PERM, EMQ_QUEUE_GET_PERM,
     EMQ_QUEUE_POP_PERM, EMQ_QUEUE_CONFIRM_PERM, EMQ_QUEUE_SUBSCRIBE_PERM,
     EMQ_QUEUE_UNSUBSCRIBE_PERM, EMQ_QUEUE_PURGE_PERM, EMQ_QUEUE_DELETE_PERM,
     EMQ_ROUTE_CREATE_PERM, EMQ_ROUTE_EXIST_PERM, EMQ_ROUTE_LIST_PERM,
     EMQ_ROUTE_KEYS_PERM, EMQ_ROUTE_RENAME_PERM, EMQ_ROUTE_BIND_PERM,
     EMQ_ROUTE_UNBIND_PERM, EMQ_ROUTE_PUSH_PERM, EMQ_ROUTE_DELETE_PERM,
     EMQ_CHANNEL_CREATE_PERM, EMQ_CHANNEL_EXIST_PERM, EMQ_CHANNEL_LIST_PERM,
     EMQ_CHANNEL_RENAME_PERM, EMQ_CHANNEL_PUBLISH_PERM, EMQ_CHANNEL_SUBSCRIBE_PERM,
     EMQ_CHANNEL_PSUBSCRIBE_PERM, EMQ_CHANNEL_UNSUBSCRIBE_PERM, EMQ_CHANNEL_PUNSUBSCRIBE_PERM,
     EMQ_CHANNEL_DELETE_PERM]"

lemmas permission_defs =
  EMQ_QUEUE_PERM_def EMQ_ROUTE_PERM_def EMQ_ADMIN_PERM_def
  EMQ_NOT_CHANGE_PERM_def EMQ_QUEUE_CREATE_PERM_def EMQ_QUEUE_DECLARE_PERM_def
  EMQ_QUEUE_EXIST_PERM_def EMQ_QUEUE_LIST_PERM_def EMQ_QUEUE_RENAME_PERM_def
  EMQ_QUEUE_SIZE_PERM_def EMQ_QUEUE_PUSH_PERM_def EMQ_QUEUE_GET_PERM_def
  EMQ_QUEUE_POP_PERM_def EMQ_QUEUE_CONFIRM_PERM_def EMQ_QUEUE_SUBSCRIBE_PERM_def
  EMQ_QUEUE_UNSUBSCRIBE_PERM_def EMQ_QUEUE_PURGE_PERM_def EMQ_QUEUE_DELETE_PERM_def
  EMQ_ROUTE_CREATE_PERM_def EMQ_ROUTE_EXIST_PERM_def EMQ_ROUTE_LIST_PERM_def
  EMQ_ROUTE_KEYS_PERM_def EMQ_ROUTE_RENAME_PERM_def EMQ_ROUTE_BIND_PERM_def
  EMQ_ROUTE_UNBIND_PERM_def EMQ_ROUTE_PUSH_PERM_def EMQ_ROUTE_DELETE_PERM_def
  EMQ_CHANNEL_CREATE_PERM_def EMQ_CHANNEL_EXIST_PERM_def EMQ_CHANNEL_LIST_PERM_def
  EMQ_CHANNEL_RENAME_PERM_def EMQ_CHANNEL_PUBLISH_PERM_def EMQ_CHANNEL_SUBSCRIBE_PERM_def
  EMQ_CHANNEL_PSUBSCRIBE_PERM_def EMQ_CHANNEL_UNSUBSCRIBE_PERM_def EMQ_CHANNEL_PUNSUBSCRIBE_PERM_def
  EMQ_CHANNEL_DELETE_PERM_def

lemma emq_permissions_bits:
  "emq_permissions = map (\<lambda>k. push_bit k 1) ([0, 1, 5, 6] @ [20..<53])"
  by code_simp

end
