(* ===== verification/Emq_Send.thy ===== *)
theory Emq_Send
  imports Emq_Api Emq_Lifecycle Emq_Flags
begin

text \<open>
  Sending messages on a client in order. The commands that push or publish a message leave the
  client in order and the message as it was, whatever the environment does, as long as the
  kernel does not answer every \<open>writev\<close> with \<open>EINTR\<close>. The last section follows a client without
  subscriptions from its connect call, through the life of one message, to its end: what a program
  that only sends does, and that it gets its memory back.
\<close>

section \<open>A kernel that answers\<close>

text \<open>From no point on is every \<open>writev\<close> interrupted.\<close>

definition writev_answers :: "socket \<Rightarrow> bool" where
  "writev_answers s \<longleftrightarrow> (\<forall>j. \<exists>i \<ge> j. wr_script s i \<noteq> Io_error EINTR)"

lemma writev_answers_shrinks: "writev_answers s \<Longrightarrow> shrinks s s' \<Longrightarrow> writev_answers s'"
  by (simp add: writev_answers_def shrinks_def)

lemma writev_answers_next:
  assumes "writev_answers s"
  obtains k where "\<forall>i < k. wr_script s (wr_pos s + i) = Io_error EINTR" "wr_script s (wr_pos s + k) \<noteq> Io_error EINTR"
proof -
  let ?P = "\<lambda>k. wr_script s (wr_pos s + k) \<noteq> Io_error EINTR"
  obtain i where "wr_pos s \<le> i" "wr_script s i \<noteq> Io_error EINTR" using assms by (auto simp: writev_answers_def)
  then have "?P (i - wr_pos s)" by simp
  then have "?P (LEAST k. ?P k)" by (rule LeastI)
  moreover have "\<forall>i < (LEAST k. ?P k). \<not> ?P i" by (blast dest: not_less_Least)
  ultimately show ?thesis using that by blast
qed

section \<open>One message\<close>

text \<open>The message at \<open>q\<close> can be sent: it is complete, and its data is not the request buffer.\<close>

definition sendable :: "emq_client \<Rightarrow> world \<Rightarrow> addr \<Rightarrow> bool" where
  "sendable c w q \<longleftrightarrow> (\<exists>m d. msg_rep w q m d \<and> m_data m \<noteq> c_request c)"

lemma ack_phase_shrinks: "ack_phase noack check s e s' \<Longrightarrow> shrinks s s'"
  by (auto elim!: ack_phase.cases intro: reply_read_shrinks)

text \<open>What a command that sends a message leaves.\<close>

definition sent :: "addr \<Rightarrow> emq_client \<Rightarrow> socket \<Rightarrow> world \<Rightarrow> (addr \<times> addr) list \<Rightarrow> (addr \<times> addr) list \<Rightarrow>
    ('r \<times> world) option \<Rightarrow> bool" where
  "sent a c s w qs cs res \<longleftrightarrow> (\<exists>r e n b' s'. res = Some (r, sess a (settle e (c\<lparr>c_pos := n\<rparr>)) b' s' w) \<and>
     callback_ready a (settle e (c\<lparr>c_pos := n\<rparr>)) b' s' w qs cs None \<and> shrinks s s')"

lemma sentI:
  assumes "res = Some (r, sess a (settle e (c\<lparr>c_pos := n\<rparr>)) b' s' w)"
    and "callback_ready a c b s w qs cs None" and "sess_ok c b'" and "shrinks s s'"
  shows "sent a c s w qs cs res"
  using assms callback_ready_settle [OF assms(2,3), of e n s'] unfolding sent_def by blast

context message_builder
begin

lemma send_done:
  assumes ready: "callback_ready a c b s w qs cs None" and "sendable c w q" and "writev_answers s"
  shows "sent a c s w qs cs (emq_send_message (Some a) (Some q) we build check (sess a c b s w))"
proof -
  have ok: "sess_ok c b" using ready by (simp add: callback_ready_def)
  obtain m d where m: "msg_rep w q m d" "m_data m \<noteq> c_request c" using assms(2) by (auto simp: sendable_def)
  then have mq: "msgs w q = Some m" "unat (m_size m) = length d" by (simp_all add: msg_rep_def)
  consider "d = []" | "d \<noteq> []" "\<not> ok" | "d \<noteq> []" ok by blast
  then show ?thesis
  proof cases
    case 1
    then have "m_size m = 0" using mq(2) by (simp add: unat_eq_zero)
    from send_empty [OF mq(1) this, of a we check c b s] show ?thesis
      by (intro sentI [OF _ ready ok shrinks_refl, where e = "Some EMQ_ERROR_DATA" and n = "c_pos c"]) simp
  next
    case 2
    then have "m_size m \<noteq> 0" using mq(2) by auto
    from send_rejected [OF ok mq(1) this 2(2), of a we check s] show ?thesis
      by (intro sentI [OF _ ready ok shrinks_refl, where e = "Some EMQ_ERROR_DATA" and n = "c_pos c"]) simp
  next
    case 3
    obtain k where k: "\<forall>i < k. wr_script s (wr_pos s + i) = Io_error EINTR" "wr_script s (wr_pos s + k) \<noteq> Io_error EINTR"
      using assms(3) by (rule writev_answers_next)
    obtain n b' where b': "sess_ok c b'" and out: "case wr_script s (wr_pos s + k) of
        Io_error e \<Rightarrow> emq_send_message (Some a) (Some q) we build check (sess a c b s w)
          = Some (EMQ_STATUS_ERR, sess a (settle (Some EMQ_ERROR_WRITE) (c\<lparr>c_pos := n\<rparr>)) b'
              (s\<lparr>wr_pos := Suc (wr_pos s + k)\<rparr>) w)
      | Io j \<Rightarrow> \<exists>e s'. emq_send_message (Some a) (Some q) we build check (sess a c b s w)
          = Some (result_of e, sess a (settle e (c\<lparr>c_pos := n\<rparr>)) b' s' w) \<and>
          ack_phase (c_noack c) check (s\<lparr>wr_pos := Suc (wr_pos s + k), outgoing := outgoing s @
            take j (request_wire cmd (client_noack c) (bodylen + message_length we m) body @
              message_payload we m d)\<rparr>) e s'"
      using send_sess [OF ok 3(2) m 3(1) k, of a we check] by blast
    show ?thesis
    proof (cases "wr_script s (wr_pos s + k)")
      case (Io_error e)
      with out show ?thesis
        by (intro sentI [OF _ ready b', where e = "Some EMQ_ERROR_WRITE" and n = n and s' = "s\<lparr>wr_pos := Suc (wr_pos s + k)\<rparr>"])
          (simp_all add: shrinks_def)
    next
      case (Io j)
      with out obtain e s' where run: "emq_send_message (Some a) (Some q) we build check (sess a c b s w)
          = Some (result_of e, sess a (settle e (c\<lparr>c_pos := n\<rparr>)) b' s' w)"
        "shrinks (s\<lparr>wr_pos := Suc (wr_pos s + k), outgoing := outgoing s @
            take j (request_wire cmd (client_noack c) (bodylen + message_length we m) body @
              message_payload we m d)\<rparr>) s'"
        by (auto dest: ack_phase_shrinks)
      from run(2) have "shrinks s s'" by (simp add: shrinks_def)
      with run(1) show ?thesis by (rule sentI [OF _ ready b'])
    qed
  qed
qed

end

lemma messages_done:
  assumes "callback_ready a c b s w qs cs None" and "sendable c w q" and "writev_answers s"
  shows "sent a c s w qs cs (emq_queue_push (Some a) name (Some q) (sess a c b s w))"
    and "sent a c s w qs cs (emq_route_push (Some a) name key (Some q) (sess a c b s w))"
    and "sent a c s w qs cs (emq_channel_publish (Some a) name topic (Some q) (sess a c b s w))"
  unfolding emq_queue_push_def emq_route_push_def emq_channel_publish_def
  using queue_push_msg.send_done [OF assms] route_push_msg.send_done [OF assms]
    channel_publish_msg.send_done [OF assms] by blast+

section \<open>A message that points to a text\<close>

text \<open>A message made without a copy: its data are \<open>n\<close> bytes at \<open>lit\<close>.\<close>

definition text_msg :: "size_t \<Rightarrow> addr \<Rightarrow> emq_msg" where
  "text_msg n lit = \<lparr>m_data = Some lit, m_size = n, m_tag = 0, m_expire = 0, m_zero_copy = Some EMQ_ZEROCOPY_ON\<rparr>"

definition with_msg :: "emq_msg \<Rightarrow> world \<Rightarrow> world" where
  "with_msg m w = w\<lparr>brk := Suc (brk w), msgs := (msgs w)(brk w \<mapsto> m)\<rparr>"

lemma text_msg_created:
  "alloc_ok w (brk w) \<Longrightarrow>
   emq_msg_create (Some lit) n EMQ_ZEROCOPY_ON w = Some (Some (brk w), with_msg (text_msg n lit) w)"
  by (simp add: emq_msg_create_def new_msg_cases put_msg_def with_msg_def text_msg_def EMQ_ZEROCOPY_ON_def)

lemma text_msg_failed:
  "\<not> alloc_ok w (brk w) \<Longrightarrow> emq_msg_create (Some lit) n EMQ_ZEROCOPY_ON w = Some (None, w\<lparr>brk := Suc (brk w)\<rparr>)"
  by (simp add: emq_msg_create_def new_msg_cases)

lemma text_msg_expires:
  "emq_msg_expire (Some (brk w)) time (with_msg m w) = Some (with_msg (m\<lparr>m_expire := time\<rparr>) w)"
  by (simp add: emq_msg_expire_def put_msg_def with_msg_def)

lemma text_msg_released:
  assumes "world_wf w" and "same_memory (with_msg m w) w'" and "m_zero_copy m = Some EMQ_ZEROCOPY_ON"
  shows "\<exists>w''. emq_msg_release (Some (brk w)) w' = Some w'' \<and> same_memory w w''"
  using assms
  by (auto simp: same_memory_def with_msg_def emq_msg_release_def EMQ_ZEROCOPY_ON_def free_msg_def world_wf_def fun_upd_idem)

lemma text_msg_sendable:
  assumes "bufs w lit = Some (map Some d @ rest)" and "m_data m = Some lit" and "unat (m_size m) = length d"
    and "c_request c \<noteq> Some lit"
  shows "sendable c (with_msg m w) (brk w)"
proof -
  have "msg_rep (with_msg m w) (brk w) m d" using assms(1-3) by (simp add: msg_rep_def with_msg_def)
  with assms(2,4) show ?thesis unfolding sendable_def by force
qed

section \<open>A client without subscriptions at work\<close>

text \<open>
  \<open>working a c w W\<close>: \<open>W\<close> is the world \<open>w\<close> with a session of the client at \<open>a\<close>, which still has
  the buffer and the empty lists of \<open>c\<close>. Commands that take no memory keep it.
\<close>

definition same_blocks :: "emq_client \<Rightarrow> emq_client \<Rightarrow> bool" where
  "same_blocks c c' \<longleftrightarrow> c_request c' = c_request c \<and> c_queue_subscriptions c' = c_queue_subscriptions c \<and>
     c_channel_subscriptions c' = c_channel_subscriptions c"

lemma same_blocks_settle [simp]: "same_blocks c (settle e (c'\<lparr>c_pos := n\<rparr>)) = same_blocks c c'"
  by (cases e) (simp_all add: same_blocks_def)

definition working :: "addr \<Rightarrow> emq_client \<Rightarrow> world \<Rightarrow> world \<Rightarrow> bool" where
  "working a c w W \<longleftrightarrow> (\<exists>c' b s. W = sess a c' b s w \<and> same_blocks c c' \<and>
     callback_ready a c' b s w [] [] None \<and> writev_answers s)"

lemma workingE:
  assumes "working a c w W"
  obtains c' b s where "W = sess a c' b s w" "same_blocks c c'" "callback_ready a c' b s w [] [] None" "writev_answers s"
  using assms unfolding working_def by (elim exE conjE) (rule that)

lemma working_sent:
  assumes "same_blocks c c'" and "writev_answers s" and "sent a c' s w [] [] res"
  shows "\<exists>r W'. res = Some (r, W') \<and> working a c w W'"
proof -
  from assms(3) obtain r e n b' s' where u: "res = Some (r, sess a (settle e (c'\<lparr>c_pos := n\<rparr>)) b' s' w)"
    "callback_ready a (settle e (c'\<lparr>c_pos := n\<rparr>)) b' s' w [] [] None" "shrinks s s'"
    unfolding sent_def by (elim exE conjE) (rule that)
  have "working a c w (sess a (settle e (c'\<lparr>c_pos := n\<rparr>)) b' s' w)"
    unfolding working_def using assms(1) u(2) writev_answers_shrinks [OF assms(2) u(3)]
    by (intro exI [of _ "settle e (c'\<lparr>c_pos := n\<rparr>)"] exI [of _ b'] exI [of _ s']) simp
  with u(1) show ?thesis by blast
qed

lemma run_call_sent:
  assumes "callback_ready a c b s w qs cs None"
  shows "sent a c s w qs cs (run_call call (Some a) (sess a c b s w))"
proof -
  have "sess_ok c b" using assms by (simp add: callback_ready_def)
  from run_call_sess [OF this, of call a s w] obtain e n b' s' where u:
    "run_call call (Some a) (sess a c b s w) = Some (result_of e, sess a (settle e (c\<lparr>c_pos := n\<rparr>)) b' s' w)"
    "sess_ok c b'" "acked_call (call_request call (client_noack c)) (c_noack c) (call_check call) s e s'"
    by (elim exE conjE) (rule that)
  show ?thesis using u(1) assms u(2) acked_call_shrinks [OF u(3)] by (rule sentI)
qed

lemma working_call: "keeps (working a c w) (run_call call (Some a))"
  unfolding keeps_def using working_sent [OF _ _ run_call_sent] by (blast elim: workingE)

context request_builder
begin

lemma query_sent:
  assumes "callback_ready a c b s w qs cs None"
  shows "sent a c s w qs cs (emq_u32_query (Some a) build qcmd failed (sess a c b s w))"
proof -
  have "sess_ok c b" using assms by (simp add: callback_ready_def)
  from query_sess [OF this, of a qcmd failed s w] obtain e v n b' s' where u:
    "emq_u32_query (Some a) build qcmd failed (sess a c b s w)
       = Some (if e = None then v else failed, sess a (settle e (c\<lparr>c_pos := n\<rparr>)) b' s' w)"
    "sess_ok c b'" "shrinks s s'" by (elim exE conjE) (rule that)
  show ?thesis using u(1) assms u(2,3) by (rule sentI)
qed

lemma working_query: "keeps (working a c w) (emq_u32_query (Some a) build qcmd failed)"
  unfolding keeps_def using working_sent [OF _ _ query_sent] by (blast elim: workingE)

end

lemma working_message:
  assumes "sendable c w q"
  shows "keeps (working a c w) (emq_queue_push (Some a) name (Some q))"
    and "keeps (working a c w) (emq_route_push (Some a) name key (Some q))"
    and "keeps (working a c w) (emq_channel_publish (Some a) name topic (Some q))"
proof -
  have send: "sendable c' w q" if "same_blocks c c'" for c'
    using that assms by (simp add: same_blocks_def sendable_def)
  show "keeps (working a c w) (emq_queue_push (Some a) name (Some q))"
    unfolding keeps_def using working_sent [OF _ _ messages_done(1)] send by (blast elim: workingE)
  show "keeps (working a c w) (emq_route_push (Some a) name key (Some q))"
    unfolding keeps_def using working_sent [OF _ _ messages_done(2)] send by (blast elim: workingE)
  show "keeps (working a c w) (emq_channel_publish (Some a) name topic (Some q))"
    unfolding keeps_def using working_sent [OF _ _ messages_done(3)] send by (blast elim: workingE)
qed

lemma working_noack: "keeps_state (working a c w) (emq_noack_enable (Some a))"
  unfolding keeps_state_def
proof (intro allI impI)
  fix W assume "working a c w W"
  then obtain c' b s where W: "W = sess a c' b s w" "same_blocks c c'" "callback_ready a c' b s w [] [] None"
    "writev_answers s" by (rule workingE)
  have "working a c w (sess a (c'\<lparr>c_noack := 1\<rparr>) b s w)"
    unfolding working_def using W(2-4)
    by (intro exI [of _ "c'\<lparr>c_noack := 1\<rparr>"] exI [of _ b] exI [of _ s]) (simp add: callback_ready_status same_blocks_def)
  moreover have "emq_noack_enable (Some a) W = Some (sess a (c'\<lparr>c_noack := 1\<rparr>) b s w)"
    by (simp add: W(1) emq_noack_enable_def) (simp add: sess_def)
  ultimately show "\<exists>W'. emq_noack_enable (Some a) W = Some W' \<and> working a c w W'" by blast
qed

text \<open>From a new client on, through a message, to the end of the client.\<close>

lemma connected_working:
  assumes "world_wf w" and "writev_answers (peer w (int (next_fd w)))"
  shows "working (brk w) ((new_context (brk w))\<lparr>c_fd := int (next_fd w)\<rparr>) (connected_client n m w) (connected_client n m w)"
proof -
  let ?a = "brk w" and ?c = "(new_context (brk w))\<lparr>c_fd := int (next_fd w)\<rparr>" and ?w = "connected_client n m w"
  let ?b = "replicate EMQ_DEFAULT_REQUEST_SIZE None" and ?s = "peer w (int (next_fd w))"
  have "session ?a ?c ?b ?s ?w"
    by (simp add: session_def connected_client_def new_context_def sess_ok_def EMQ_DEFAULT_REQUEST_SIZE_def)
  then have "client_ready ?a ?c ?b ?s ?w [] []"
    using connected_client_order(2) connected_client_wf [OF assms(1)] by (simp add: client_ready_def)
  note ready = client_readyD [OF this]
  show ?thesis
    unfolding working_def using ready(1) ready(2) [symmetric] assms(2)
    by (intro exI [of _ ?c] exI [of _ ?b] exI [of _ ?s]) (simp add: same_blocks_def)
qed

lemma working_create:
  assumes "working a c w W" and "alloc_ok w (brk w)"
  shows "\<exists>W'. emq_msg_create (Some lit) n EMQ_ZEROCOPY_ON W = Some (Some (brk w), W') \<and>
    working a c (with_msg (text_msg n lit) w) W'"
proof -
  obtain c' b s where W: "W = sess a c' b s w" "same_blocks c c'" "callback_ready a c' b s w [] [] None"
    "writev_answers s" using assms(1) by (rule workingE)
  let ?w = "with_msg (text_msg n lit) w"
  have r: "sess_ok c' b" "world_wf w" "a < brk w" "the (c_request c') < brk w" "client_lists c' w [] []"
    using W(3) by (simp_all add: callback_ready_def world_wf_sess_iff)
  have made: "emq_msg_create (Some lit) n EMQ_ZEROCOPY_ON W = Some (Some (brk w), sess a c' b s ?w)"
    using text_msg_created [of W lit n] assms(2) by (simp add: W(1) sess_def with_msg_def)
  have "world_wf ?w" using r(2) by (auto simp: world_wf_def with_msg_def)
  then have "world_wf (sess a c' b s ?w)" using r(3,4) by (simp add: world_wf_sess_iff with_msg_def)
  moreover have "client_lists c' ?w [] []" using r(5) by (simp add: client_lists_def list_rep_def with_msg_def)
  ultimately have "callback_ready a c' b s ?w [] [] None" using r(1) by (simp add: callback_ready_def owned_msg_def)
  with W(2,4) have "working a c ?w (sess a c' b s ?w)" unfolding working_def by blast
  with made show ?thesis by blast
qed

lemma working_disconnect:
  assumes "working a c w W"
  shows "\<exists>W'. emq_disconnect (Some a) W = Some W' \<and> same_memory (without_client a c [] [] w) W'"
proof -
  obtain c' b s where W: "W = sess a c' b s w" "same_blocks c c'" "callback_ready a c' b s w [] [] None"
    "writev_answers s" using assms by (rule workingE)
  obtain r where r: "c_request c' = Some r" "length b = c_size c'" "168 \<le> c_size c'"
    using W(3) by (auto simp: callback_ready_def sess_ok_def)
  have "clients W a = Some c'" "client_lists c' W [] []" "client_buffer c' W"
    using W(3) r by (simp_all add: W(1) callback_ready_def client_buffer_def client_lists_def list_rep_def)
  then have "emq_disconnect (Some a) W = Some (without_client a c' [] [] (sys_close (c_fd c') W))"
    by (rule emq_disconnect_rep)
  moreover have "same_memory (without_client a c [] [] w) (without_client a c' [] [] (sys_close (c_fd c') W))"
    using W(2) by (simp add: W(1) same_memory_def without_client_def sys_close_def same_blocks_def)
  ultimately show ?thesis by blast
qed

lemma absent: "m x = None \<Longrightarrow> (m |` A) x = None" "m x = None \<Longrightarrow> (m(y := None)) x = None"
  by (simp_all add: restrict_map_def)

lemma without_client_wf:
  assumes "world_wf W"
  shows "world_wf (without_client a c qs cs (sys_close fd W))"
  unfolding world_wf_def
proof (intro allI impI)
  let ?W = "without_client a c qs cs (sys_close fd W)"
  fix x assume "brk ?W \<le> x"
  then have "brk W \<le> x" by (simp add: without_client_def sys_close_def)
  from wf_fresh [OF assms this]
  show "clients ?W x = None \<and> list_hdrs ?W x = None \<and> nodes ?W x = None \<and> objs ?W x = None \<and>
      msgs ?W x = None \<and> bufs ?W x = None"
    by (simp add: without_client_def sys_close_def absent del: fun_upd_apply)
qed

lemma disconnected_restores:
  assumes "world_wf w"
  shows "same_memory w (without_client (brk w) ((new_context (brk w))\<lparr>c_fd := fd\<rparr>) [] [] (connected_client n m w))"
  using assms
  by (auto simp: same_memory_def without_client_def connected_client_def new_context_def world_wf_def fun_eq_iff)

text \<open>
  \<open>undisturbed w w'\<close>: whatever happened between, the memory there was at \<open>w\<close> can be used in \<open>w'\<close> as
  before, and the environment is the same. Each step of a client at work is of this kind.
\<close>

definition undisturbed :: "world \<Rightarrow> world \<Rightarrow> bool" where
  "undisturbed w w' \<longleftrightarrow> world_wf w' \<and> brk w \<le> brk w' \<and> alloc_ok w' = alloc_ok w \<and> peer w' = peer w \<and>
     (\<forall>p < brk w. bufs w' p = bufs w p)"

lemma peer_sess [simp]: "peer (sess a c b s w) = peer w"
  by (simp add: sess_def)

lemma undisturbed_trans: "undisturbed w w' \<Longrightarrow> undisturbed w' w'' \<Longrightarrow> undisturbed w w''"
  by (auto simp: undisturbed_def)

lemma connected_undisturbed: "world_wf w \<Longrightarrow> undisturbed w (connected_client n m w)"
  using connected_client_wf [of w n m] by (simp add: undisturbed_def connected_client_def)

lemma with_msg_undisturbed: "undisturbed w v \<Longrightarrow> undisturbed w (with_msg m v)"
  by (auto simp: undisturbed_def with_msg_def world_wf_def)

lemma brk_undisturbed: "undisturbed w v \<Longrightarrow> undisturbed w (v\<lparr>brk := Suc (brk v)\<rparr>)"
  by (auto simp: undisturbed_def world_wf_def)

lemma working_undisturbed:
  assumes "working a c v W" and "undisturbed w v" and "brk w \<le> the (c_request c)"
  shows "undisturbed w W"
proof -
  obtain c' b s where W: "W = sess a c' b s v" "same_blocks c c'" "callback_ready a c' b s v [] [] None"
    "writev_answers s" using assms(1) by (rule workingE)
  then have "world_wf W" by (simp add: callback_ready_def)
  moreover have "the (c_request c') = the (c_request c)" using W(2) by (simp add: same_blocks_def)
  ultimately show ?thesis using assms(2,3) by (auto simp: W(1) undisturbed_def)
qed

lemma disconnect_undisturbed:
  assumes "working a c v W" and "undisturbed w v" and "brk w \<le> the (c_request c)"
    and "emq_disconnect (Some a) W = Some W'"
  shows "undisturbed w W'"
proof -
  obtain c' b s where W: "W = sess a c' b s v" "same_blocks c c'" "callback_ready a c' b s v [] [] None"
    "writev_answers s" using assms(1) by (rule workingE)
  obtain r where r: "c_request c' = Some r" "length b = c_size c'" "168 \<le> c_size c'"
    using W(3) by (auto simp: callback_ready_def sess_ok_def)
  have "clients W a = Some c'" "client_lists c' W [] []" "client_buffer c' W"
    using W(3) r by (simp_all add: W(1) callback_ready_def client_buffer_def client_lists_def list_rep_def)
  then have W': "W' = without_client a c' [] [] (sys_close (c_fd c') W)"
    using emq_disconnect_rep assms(4) by fastforce
  have u: "undisturbed w W" using assms(1-3) by (rule working_undisturbed)
  have "world_wf W'" using u without_client_wf unfolding W' undisturbed_def by blast
  moreover have "the (c_request c') = the (c_request c)" using W(2) by (simp add: same_blocks_def)
  ultimately show ?thesis
    using u assms(3) by (auto simp: W' undisturbed_def without_client_def sys_close_def)
qed

end
