(* ===== verification/Emq_Programs.thy ===== *)
theory Emq_Programs
  imports Emq_Send Emq_Lifecycle Emq_Flags
begin

unbundle bit_operations_syntax

text \<open>
  The example programs \<^verbatim>\<open>src/src/examples/queue-subscribe.c\<close> and
  \<^verbatim>\<open>src/src/examples/channel-subscribe.c\<close>: their \<open>main\<close> functions, which subscribe and process
  events, and the threads they start, which send the messages. What they print is not modelled.
  The two threads of a program share no client and no message; each is a function of its own
  world, and whether \<open>pthread_create\<close> succeeds is a parameter.
\<close>

section \<open>The sending threads\<close>

text \<open>\<open>text\<close> is the string literal \<open>TEST_MESSAGE\<close>, which the message points to.\<close>

definition TEST_MESSAGE :: bytes where
  "TEST_MESSAGE = ascii ''Hello EagleMQ''"

definition queue_worker :: "ptr \<Rightarrow> world \<Rightarrow> world option" where
  "queue_worker text w = do {
     (client, w) \<leftarrow> emq_tcp_connect ''localhost'' w;
     (msg, w) \<leftarrow> emq_msg_create text (word_of_nat (strlenz TEST_MESSAGE)) EMQ_ZEROCOPY_ON w;
     w \<leftarrow> (if client \<noteq> None then do {
         (status, w) \<leftarrow> emq_auth client (ascii ''eagle'') (ascii ''eagle'') w;
         (status, w) \<leftarrow> emq_queue_declare client (ascii ''.queue-test'') w;
         w \<leftarrow> for_times (nat MESSAGES) (\<lambda>w. do {
             (status, w) \<leftarrow> emq_queue_push client (ascii ''.queue-test'') msg w;
             Some w }) w;
         emq_disconnect client w }
       else Some w);
     emq_msg_release msg w }"

definition channel_worker :: "ptr \<Rightarrow> world \<Rightarrow> world option" where
  "channel_worker text w = do {
     (client, w) \<leftarrow> emq_tcp_connect ''localhost'' w;
     (msg, w) \<leftarrow> emq_msg_create text (word_of_nat (strlenz TEST_MESSAGE)) EMQ_ZEROCOPY_ON w;
     w \<leftarrow> (if client \<noteq> None then do {
         (status, w) \<leftarrow> emq_auth client (ascii ''eagle'') (ascii ''eagle'') w;
         w \<leftarrow> for_times (nat (MESSAGES div 2)) (\<lambda>w. do {
             (status, w) \<leftarrow> emq_channel_publish client (ascii ''.channel-test'') (ascii ''world.russia.moscow'') msg w;
             (status, w) \<leftarrow> emq_channel_publish client (ascii ''.channel-test'') (ascii ''world.belarus.minsk'') msg w;
             Some w }) w;
         emq_disconnect client w }
       else Some w);
     emq_msg_release msg w }"

section \<open>The subscribing programs\<close>

text \<open>
  \<open>main\<close>, with the exit status of the program. \<open>init_worker\<close> leaves the program with status -1
  when the thread cannot be made.
\<close>

definition init_worker :: "bool \<Rightarrow> world \<Rightarrow> int + world" where
  "init_worker created w = (if created then Inr w else Inl (-1))"

definition queue_main :: "bool \<Rightarrow> world \<Rightarrow> (int \<times> world) option" where
  "queue_main created w = do {
     (client, w) \<leftarrow> emq_tcp_connect ''localhost'' w;
     if client \<noteq> None then do {
       (status, w) \<leftarrow> emq_auth client (ascii ''eagle'') (ascii ''eagle'') w;
       (status, w) \<leftarrow> emq_queue_create client (ascii ''.queue-test'') 10 100
         (EMQ_QUEUE_FORCE_PUSH OR EMQ_QUEUE_AUTODELETE) w;
       (status, w) \<leftarrow> emq_queue_declare client (ascii ''.queue-test'') w;
       (status, w) \<leftarrow> emq_queue_subscribe client (ascii ''.queue-test'') EMQ_QUEUE_SUBSCRIBE_MSG (Some 0) w;
       (case init_worker created w of
          Inl code \<Rightarrow> Some (code, w)
        | Inr w \<Rightarrow> do {
            (status, w) \<leftarrow> emq_process (\<lambda>f. queue_message_callback) client w;
            w \<leftarrow> emq_disconnect client w;
            Some (0, w) }) }
     else Some (0, w) }"

definition channel_main :: "bool \<Rightarrow> bool \<Rightarrow> world \<Rightarrow> (int \<times> world) option" where
  "channel_main created1 created2 w = do {
     (client, w) \<leftarrow> emq_tcp_connect ''localhost'' w;
     if client \<noteq> None then do {
       (status, w) \<leftarrow> emq_auth client (ascii ''eagle'') (ascii ''eagle'') w;
       (status, w) \<leftarrow> emq_channel_create client (ascii ''.channel-test'')
         (EMQ_CHANNEL_AUTODELETE OR EMQ_CHANNEL_ROUND_ROBIN) w;
       (status, w) \<leftarrow> emq_channel_psubscribe client (ascii ''.channel-test'') (ascii ''world.belarus.*'') (Some 0) w;
       (case init_worker created1 w of
          Inl code \<Rightarrow> Some (code, w)
        | Inr w \<Rightarrow> (case init_worker created2 w of
            Inl code \<Rightarrow> Some (code, w)
          | Inr w \<Rightarrow> do {
              (status, w) \<leftarrow> emq_process (\<lambda>f. channel_message_callback) client w;
              w \<leftarrow> emq_disconnect client w;
              Some (0, w) })) }
     else Some (0, w) }"

section \<open>A thread that sends\<close>

text \<open>The text of the threads around what each sends.\<close>

definition sending_thread :: "(ptr \<Rightarrow> ptr \<Rightarrow> world \<Rightarrow> world option) \<Rightarrow> ptr \<Rightarrow> world \<Rightarrow> world option" where
  "sending_thread body lit w = do {
     (client, w) \<leftarrow> emq_tcp_connect ''localhost'' w;
     (msg, w) \<leftarrow> emq_msg_create lit (word_of_nat (strlenz TEST_MESSAGE)) EMQ_ZEROCOPY_ON w;
     w \<leftarrow> (if client \<noteq> None then do {
         w \<leftarrow> body client msg w;
         emq_disconnect client w }
       else Some w);
     emq_msg_release msg w }"

lemma test_message_size: "unat (word_of_nat (strlenz TEST_MESSAGE) :: size_t) = length (cstrz TEST_MESSAGE)"
  by (simp add: TEST_MESSAGE_def ascii_def strlenz_def cstr_def)

lemma working_calls:
  "keeps (working a c w) (emq_auth (Some a) name password)"
  "keeps (working a c w) (emq_queue_declare (Some a) name)"
  using working_call [of a c w "Auth name password"] working_call [of a c w "QueueDeclare name"]
  by (simp_all add: keeps_def)

locale sending_body =
  fixes body :: "ptr \<Rightarrow> ptr \<Rightarrow> world \<Rightarrow> world option"
  assumes body_keeps: "sendable c w q \<Longrightarrow> keeps_state (working a c w) (body (Some a) (Some q))"
begin

lemma thread_returns:
  assumes wf: "world_wf w" and mem: "\<forall>i. alloc_ok w i" and answers: "writev_answers (peer w (int (next_fd w)))"
    and lit: "bufs w lit = Some (map Some (cstrz TEST_MESSAGE))"
  shows "\<exists>w'. sending_thread body (Some lit) w = Some w' \<and> same_memory w w'"
  using tcp.open_client_exact [OF wf ballI [OF mem [rule_format]], of "''localhost''", folded connect_open_client]
proof (elim disjE exE conjE)
  let ?m = "text_msg (word_of_nat (strlenz TEST_MESSAGE)) lit"
  fix w1 assume w1: "emq_tcp_connect ''localhost'' w = Some (None, w1)" "same_memory w w1" "world_wf w1" "alloc_ok w1 = alloc_ok w"
  obtain w2 where "emq_msg_release (Some (brk w1)) (with_msg ?m w1) = Some w2" "same_memory w1 w2"
    using text_msg_released [OF w1(3), of ?m "with_msg ?m w1"] by (auto simp: same_memory_def text_msg_def)
  with w1 mem text_msg_created [of w1 lit "word_of_nat (strlenz TEST_MESSAGE)"] show ?thesis
    by (simp add: sending_thread_def same_memory_def)
next
  fix n m
  let ?a = "brk w" and ?c = "(new_context (brk w))\<lparr>c_fd := int (next_fd w)\<rparr>" and ?w = "connected_client n m w"
  let ?m = "text_msg (word_of_nat (strlenz TEST_MESSAGE)) lit"
  assume con: "emq_tcp_connect ''localhost'' w = Some (Some ?a, ?w)"
  obtain W0 where W0: "emq_msg_create (Some lit) (word_of_nat (strlenz TEST_MESSAGE)) EMQ_ZEROCOPY_ON ?w = Some (Some (brk ?w), W0)"
    "working ?a ?c (with_msg ?m ?w) W0"
    using working_create [OF connected_working [OF wf answers]] mem by (simp add: connected_client_def) blast
  have low: "lit < brk w" using lit wf by (metis leI option.distinct(1) world_wf_def)
  have "bufs ?w lit = Some (map Some (cstrz TEST_MESSAGE) @ [])" using lit low by (simp add: connected_client_def)
  then have "sendable ?c (with_msg ?m ?w) (brk ?w)"
    by (rule text_msg_sendable) (use low test_message_size in \<open>simp_all add: new_context_def text_msg_def\<close>)
  from keeps_stateD [OF body_keeps [OF this] W0(2)] obtain W1 where
    W1: "body (Some ?a) (Some (brk ?w)) W0 = Some W1" "working ?a ?c (with_msg ?m ?w) W1" by blast
  from working_disconnect [OF W1(2)] obtain W2 where
    W2: "emq_disconnect (Some ?a) W1 = Some W2" "same_memory (without_client ?a ?c [] [] (with_msg ?m ?w)) W2" by blast
  let ?v = "without_client ?a ?c [] [] ?w"
  have "same_memory (with_msg ?m ?v) W2" using W2(2) by (simp add: same_memory_def without_client_def with_msg_def)
  moreover have "world_wf ?v" using connected_client_wf [OF wf, of n m] by (auto simp: world_wf_def without_client_def)
  ultimately obtain W3 where "emq_msg_release (Some (brk ?v)) W2 = Some W3" "same_memory ?v W3"
    using text_msg_released [of ?v ?m W2] by (auto simp: text_msg_def)
  with con W0(1) W1(1) W2(1) disconnected_restores [OF wf] show ?thesis
    by (simp add: sending_thread_def same_memory_def without_client_def)
qed

end

interpretation queue_thread: sending_body "\<lambda>client msg w. do {
    (status, w) \<leftarrow> emq_auth client (ascii ''eagle'') (ascii ''eagle'') w;
    (status, w) \<leftarrow> emq_queue_declare client (ascii ''.queue-test'') w;
    for_times (nat MESSAGES) (\<lambda>w. do {
             (status, w) \<leftarrow> emq_queue_push client (ascii ''.queue-test'') msg w;
             Some w }) w }"
  by unfold_locales (intro keeps_rules working_calls working_message)

interpretation channel_thread: sending_body "\<lambda>client msg w. do {
    (status, w) \<leftarrow> emq_auth client (ascii ''eagle'') (ascii ''eagle'') w;
    for_times (nat (MESSAGES div 2)) (\<lambda>w. do {
      (status, w) \<leftarrow> emq_channel_publish client (ascii ''.channel-test'') (ascii ''world.russia.moscow'') msg w;
      (status, w) \<leftarrow> emq_channel_publish client (ascii ''.channel-test'') (ascii ''world.belarus.minsk'') msg w;
      Some w }) w }"
  by unfold_locales (intro keeps_rules working_calls working_message)

lemma worker_threads:
  "queue_worker lit w = sending_thread (\<lambda>client msg w. do {
    (status, w) \<leftarrow> emq_auth client (ascii ''eagle'') (ascii ''eagle'') w;
    (status, w) \<leftarrow> emq_queue_declare client (ascii ''.queue-test'') w;
    for_times (nat MESSAGES) (\<lambda>w. do {
             (status, w) \<leftarrow> emq_queue_push client (ascii ''.queue-test'') msg w;
             Some w }) w }) lit w"
  "channel_worker lit w = sending_thread (\<lambda>client msg w. do {
    (status, w) \<leftarrow> emq_auth client (ascii ''eagle'') (ascii ''eagle'') w;
    for_times (nat (MESSAGES div 2)) (\<lambda>w. do {
      (status, w) \<leftarrow> emq_channel_publish client (ascii ''.channel-test'') (ascii ''world.russia.moscow'') msg w;
      (status, w) \<leftarrow> emq_channel_publish client (ascii ''.channel-test'') (ascii ''world.belarus.minsk'') msg w;
      Some w }) w }) lit w"
  by (simp_all add: queue_worker_def channel_worker_def sending_thread_def split_def if_distrib cong: if_cong)

text \<open>Both threads return and leave the memory of their process as it was.\<close>

lemma workers_return:
  assumes "world_wf w" and "\<forall>i. alloc_ok w i" and "writev_answers (peer w (int (next_fd w)))"
    and "bufs w lit = Some (map Some (cstrz TEST_MESSAGE))"
  shows "\<exists>w'. queue_worker (Some lit) w = Some w' \<and> same_memory w w'"
    and "\<exists>w'. channel_worker (Some lit) w = Some w' \<and> same_memory w w'"
  using queue_thread.thread_returns [OF assms] channel_thread.thread_returns [OF assms]
  by (simp_all add: worker_threads)

section \<open>A program that subscribes\<close>

text \<open>
  Between two calls the client at \<open>a\<close> is in order, no event without a message is to come, and
  not more events than the counter of the program can take.
\<close>

definition in_order :: "addr \<Rightarrow> world \<Rightarrow> bool" where
  "in_order a W \<longleftrightarrow> (\<exists>c b s w qs cs. W = sess a c b s w \<and> callback_ready a c b s w qs cs None \<and> notify_free s \<and>
     counts (length (incoming s)) (message_counter w))"

lemma in_orderI:
  assumes "client_ready a c b s W qs cs" and "notify_free s" and "counts (length (incoming s)) (message_counter W)"
  shows "in_order a W"
  unfolding in_order_def using client_readyD(1,2) [OF assms(1)] assms(2,3) by metis

text \<open>Callbacks that count, as the ones of the two programs do.\<close>

locale counting_callbacks = callback_contract cb False counts
  for cb :: "callback \<Rightarrow> user_function"
begin

lemma run_op_keeps: "keeps (in_order a) (run_op cb op (Some a))"
  unfolding keeps_def
proof (intro allI impI)
  fix W assume "in_order a W"
  then obtain c b s w qs cs where S: "W = sess a c b s w" "callback_ready a c b s w qs cs None" "notify_free s"
    "counts (length (incoming s)) (message_counter w)"
    unfolding in_order_def by (elim exE conjE) (rule that)
  from run_op_done [OF S(2) disjI2 [OF S(3)] S(4), of op] obtain r c' b' s' w' qs' cs' where
    "run_op cb op (Some a) (sess a c b s w) = Some (r, sess a c' b' s' w')" "callback_ready a c' b' s' w' qs' cs' None" "shrinks s s'"
    "counts (length (incoming s')) (message_counter w')"
    unfolding op_done_def by (elim exE conjE) (rule that)
  moreover from this(3) S(3) have "notify_free s'" by (rule notify_free_shrinks [rotated])
  ultimately show "\<exists>r w'. run_op cb op (Some a) W = Some (r, w') \<and> in_order a w'" unfolding in_order_def S(1) by blast
qed

lemma calls_keep:
  "keeps (in_order a) (emq_auth (Some a) name password)"
  "keeps (in_order a) (emq_queue_create (Some a) name max_msg max_msg_size flags)"
  "keeps (in_order a) (emq_queue_declare (Some a) name)"
  "keeps (in_order a) (emq_channel_create (Some a) name flags)"
  "keeps (in_order a) (emq_queue_subscribe (Some a) name flags callback)"
  "keeps (in_order a) (emq_channel_psubscribe (Some a) name pattern callback)"
  "keeps (in_order a) (emq_process cb (Some a))"
  using run_op_keeps [of a "Call (Auth name password)"] run_op_keeps [of a "Call (QueueCreate name max_msg max_msg_size flags)"]
    run_op_keeps [of a "Call (QueueDeclare name)"] run_op_keeps [of a "Call (ChannelCreate name flags)"]
    run_op_keeps [of a "QueueSubscribe name flags callback"] run_op_keeps [of a "ChannelPsubscribe name pattern callback"]
    run_op_keeps [of a Process]
  by (simp_all add: keeps_def)

end

interpretation queue_counting: counting_callbacks "\<lambda>f. queue_message_callback"
  by unfold_locales

interpretation channel_counting: counting_callbacks "\<lambda>f. channel_message_callback"
  by unfold_locales

lemma in_order_disconnect:
  assumes "in_order a W"
  shows "\<exists>W'. emq_disconnect (Some a) W = Some W' \<and> world_wf W' \<and> clients W' a = None"
proof -
  obtain c b s w qs cs where S: "W = sess a c b s w" "callback_ready a c b s w qs cs None"
    using assms unfolding in_order_def by (elim exE conjE) (rule that)
  have "client_ready a c b s W qs cs" using S by simp
  then have r: "clients W a = Some c" "client_lists c W qs cs" "client_buffer c W" "world_wf W"
    unfolding client_ready_def session_def sess_ok_def client_buffer_def by (elim conjE; fastforce)+
  let ?W = "without_client a c qs cs (sys_close (c_fd c) W)"
  have "emq_disconnect (Some a) W = Some ?W" using r(1-3) by (rule emq_disconnect_rep)
  moreover have "world_wf ?W" using r(4) by (rule without_client_wf)
  ultimately show ?thesis by (simp add: without_client_def)
qed

lemma connected_in_order:
  assumes "world_wf w" and "notify_free (peer w (int (next_fd w)))"
    and "counts (length (incoming (peer w (int (next_fd w))))) (message_counter w)"
  shows "in_order (brk w) (connected_client n m w)"
proof (rule in_orderI [OF _ assms(2)])
  show "counts (length (incoming (peer w (int (next_fd w))))) (message_counter (connected_client n m w))"
    using assms(3) by (simp add: connected_client_def netw_def new_client_def)
next
  let ?c = "(new_context (brk w))\<lparr>c_fd := int (next_fd w)\<rparr>"
  have "session (brk w) ?c (replicate EMQ_DEFAULT_REQUEST_SIZE None) (peer w (int (next_fd w))) (connected_client n m w)"
    by (simp add: session_def connected_client_def new_context_def sess_ok_def EMQ_DEFAULT_REQUEST_SIZE_def)
  then show "client_ready (brk w) ?c (replicate EMQ_DEFAULT_REQUEST_SIZE None) (peer w (int (next_fd w)))
      (connected_client n m w) [] []"
    using connected_client_order(2) connected_client_wf [OF assms(1)] by (simp add: client_ready_def)
qed

text \<open>The common text of both programs: \<open>prepare\<close> ends with the subscription, then the threads are made.\<close>

definition subscriber :: "(ptr \<Rightarrow> world \<Rightarrow> (int \<times> world) option) \<Rightarrow> bool \<Rightarrow>
    (ptr \<Rightarrow> world \<Rightarrow> (int \<times> world) option) \<Rightarrow> world \<Rightarrow> (int \<times> world) option" where
  "subscriber prepare created process w = do {
     (client, w) \<leftarrow> emq_tcp_connect ''localhost'' w;
     if client \<noteq> None then do {
       (status, w) \<leftarrow> prepare client w;
       if \<not> created then Some (-1, w)
       else do {
         (status, w) \<leftarrow> process client w;
         w \<leftarrow> emq_disconnect client w;
         Some (0, w) } }
     else Some (0, w) }"

lemma subscriber_returns:
  assumes wf: "world_wf w" and mem: "\<forall>i \<in> {brk w ..< brk w + 4}. alloc_ok w i"
    and quiet: "notify_free (peer w (int (next_fd w)))"
    and count: "counts (length (incoming (peer w (int (next_fd w))))) (message_counter w)"
    and keep: "keeps (in_order (brk w)) (prepare (Some (brk w)))" "keeps (in_order (brk w)) (process (Some (brk w)))"
  shows "\<exists>code w'. subscriber prepare created process w = Some (code, w') \<and> world_wf w' \<and>
    (if created then code = 0 \<and> clients w' (brk w) = None else code \<in> {-1, 0})"
  using tcp.open_client_exact [OF wf mem, of "''localhost''", folded connect_open_client]
proof (elim disjE exE conjE)
  fix w1 assume "emq_tcp_connect ''localhost'' w = Some (None, w1)" "same_memory w w1" "world_wf w1"
  with wf show ?thesis by (simp add: subscriber_def same_memory_def world_wf_def)
next
  fix n m assume con: "emq_tcp_connect ''localhost'' w = Some (Some (brk w), connected_client n m w)"
  obtain r W1 where p: "prepare (Some (brk w)) (connected_client n m w) = Some (r, W1)" "in_order (brk w) W1"
    using keepsD [OF keep(1) connected_in_order [OF wf quiet count]] by blast
  obtain r2 W2 where q: "process (Some (brk w)) W1 = Some (r2, W2)" "in_order (brk w) W2"
    using keepsD [OF keep(2) p(2)] by blast
  obtain W3 where "emq_disconnect (Some (brk w)) W2 = Some W3" "world_wf W3" "clients W3 (brk w) = None"
    using in_order_disconnect [OF q(2)] by blast
  moreover have "world_wf W1" using p(2) by (auto simp: in_order_def callback_ready_def)
  ultimately show ?thesis using con p(1) q(1) by (simp add: subscriber_def)
qed

lemma mains_subscribe:
  "queue_main created w = subscriber (\<lambda>client w. do {
     (status, w) \<leftarrow> emq_auth client (ascii ''eagle'') (ascii ''eagle'') w;
     (status, w) \<leftarrow> emq_queue_create client (ascii ''.queue-test'') 10 100 (EMQ_QUEUE_FORCE_PUSH OR EMQ_QUEUE_AUTODELETE) w;
     (status, w) \<leftarrow> emq_queue_declare client (ascii ''.queue-test'') w;
     emq_queue_subscribe client (ascii ''.queue-test'') EMQ_QUEUE_SUBSCRIBE_MSG (Some 0) w })
     created (emq_process (\<lambda>f. queue_message_callback)) w"
  "channel_main created1 created2 w = subscriber (\<lambda>client w. do {
     (status, w) \<leftarrow> emq_auth client (ascii ''eagle'') (ascii ''eagle'') w;
     (status, w) \<leftarrow> emq_channel_create client (ascii ''.channel-test'') (EMQ_CHANNEL_AUTODELETE OR EMQ_CHANNEL_ROUND_ROBIN) w;
     emq_channel_psubscribe client (ascii ''.channel-test'') (ascii ''world.belarus.*'') (Some 0) w })
     (created1 \<and> created2) (emq_process (\<lambda>f. channel_message_callback)) w"
  by (cases created; simp add: queue_main_def subscriber_def init_worker_def split_def cong: if_cong)
    (cases created1; cases created2; simp add: channel_main_def subscriber_def init_worker_def split_def cong: if_cong)

lemma mains_return:
  assumes "world_wf w" and "\<forall>i \<in> {brk w ..< brk w + 4}. alloc_ok w i" and "notify_free (peer w (int (next_fd w)))"
    and "counts (length (incoming (peer w (int (next_fd w))))) (message_counter w)"
  shows "\<exists>code w'. queue_main created w = Some (code, w') \<and> world_wf w' \<and>
    (if created then code = 0 \<and> clients w' (brk w) = None else code \<in> {-1, 0})"
    and "\<exists>code w'. channel_main created1 created2 w = Some (code, w') \<and> world_wf w' \<and>
    (if created1 \<and> created2 then code = 0 \<and> clients w' (brk w) = None else code \<in> {-1, 0})"
  unfolding mains_subscribe
  by (rule subscriber_returns [OF assms]; intro keeps_rules queue_counting.calls_keep channel_counting.calls_keep)+

end
