(* ===== verification/Emq_Listing.thy ===== *)
theory Emq_Listing
  imports Emq_Send
begin

text \<open>
  The list queries in any environment, and what a caller does with the list: walk through it with
  an iterator and release it. As long as the server sends no list body that ends inside a record,
  a query returns and keeps the client in order, whichever allocation, read or write fails; the
  list it hands out is complete memory of its own, which the walk reads from end to end and the
  release returns.
\<close>

section \<open>Results of a query\<close>

text \<open>
  \<open>tidy w w'\<close>: the lists, their nodes and, if memory never runs out, their objects are the same.
  (The list queries do not look at the result of \<open>emq_list_add_value\<close>: an object that gets no node
  stays allocated, and nothing points to it.)
\<close>

definition tidy :: "world \<Rightarrow> world \<Rightarrow> bool" where
  "tidy w w' \<longleftrightarrow> nodes w' = nodes w \<and> list_hdrs w' = list_hdrs w \<and> ((\<forall>k. alloc_ok w k) \<longrightarrow> objs w' = objs w)"

lemma tidy_refl [simp]: "tidy w w"
  by (simp add: tidy_def)

text \<open>
  \<open>list_result h m P p w\<close>: \<open>p\<close> is null or a list of objects with \<open>P\<close>, all of it at \<open>m\<close> or above,
  and it is all of the list memory there.
\<close>

definition list_result :: "free_handler \<Rightarrow> addr \<Rightarrow> (emq_object \<Rightarrow> bool) \<Rightarrow> ptr \<Rightarrow> world \<Rightarrow> bool" where
  "list_result handler m P p w \<longleftrightarrow> (case p of None \<Rightarrow> (\<forall>x \<ge> m. nodes w x = None \<and> list_hdrs w x = None \<and>
         ((\<forall>k. alloc_ok w k) \<longrightarrow> objs w x = None))
     | Some lp \<Rightarrow> \<exists>ms xs. m \<le> lp \<and> only_list m lp ms w \<and> list_rep w lp (Some handler) ms \<and> holds w ms xs \<and> (\<forall>x \<in> set xs. P x) \<and>
         distinct (map snd ms) \<and> (\<forall>x \<in> fst ` set ms. m \<le> x) \<and> (\<forall>v \<in> snd ` set ms. m \<le> v))"

lemma tidy_no_list:
  assumes "tidy w w'" and "world_wf w" and "brk w \<le> m" and "alloc_ok w' = alloc_ok w"
  shows "list_result handler m P None w'"
  using assms wf_fresh(2-4) [OF assms(2)] by (auto simp: tidy_def list_result_def)

lemma no_list_tidy:
  assumes "list_result handler (brk w) P None w'" and g: "grows (brk w) w w'" and wf: "world_wf w"
  shows "tidy w w'"
proof -
  have "nodes w' x = nodes w x \<and> list_hdrs w' x = list_hdrs w x \<and> ((\<forall>k. alloc_ok w k) \<longrightarrow> objs w' x = objs w x)" for x
    using assms(1) grows_fields(5,7-9) [OF g] wf_fresh(2-4) [OF wf, of x]
    by (cases "x < brk w") (simp_all add: list_result_def)
  then show ?thesis by (auto simp: tidy_def)
qed

definition listed :: "addr \<Rightarrow> emq_client \<Rightarrow> socket \<Rightarrow> world \<Rightarrow> (addr \<times> addr) list \<Rightarrow> (addr \<times> addr) list \<Rightarrow>
    free_handler \<Rightarrow> (emq_object \<Rightarrow> bool) \<Rightarrow> (ptr \<times> world) option \<Rightarrow> bool" where
  "listed a c s w qs cs handler P res \<longleftrightarrow> (\<exists>p e n b' s' w'. res = Some (p, sess a (settle e (c\<lparr>c_pos := n\<rparr>)) b' s' w') \<and>
     callback_ready a (settle e (c\<lparr>c_pos := n\<rparr>)) b' s' w' qs cs None \<and>
     callback_ready a (settle e (c\<lparr>c_pos := n\<rparr>)) b' s' w qs cs None \<and> shrinks s s' \<and>
     grows (brk w) w w' \<and> list_result handler (brk w) P p w')"

text \<open>The same without the list, which is released: what every command of a program leaves.\<close>

definition stepped :: "addr \<Rightarrow> emq_client \<Rightarrow> socket \<Rightarrow> world \<Rightarrow> (addr \<times> addr) list \<Rightarrow> (addr \<times> addr) list \<Rightarrow>
    ('r \<times> world) option \<Rightarrow> bool" where
  "stepped a c s w qs cs res \<longleftrightarrow> (\<exists>r e n b' s' w'. res = Some (r, sess a (settle e (c\<lparr>c_pos := n\<rparr>)) b' s' w') \<and>
     callback_ready a (settle e (c\<lparr>c_pos := n\<rparr>)) b' s' w' qs cs None \<and> shrinks s s' \<and> grows (brk w) w w' \<and> tidy w w')"

lemma steppedI:
  assumes "res = Some (r, sess a (settle e (c\<lparr>c_pos := n\<rparr>)) b' s' w)"
    and "callback_ready a c b s w qs cs None" and "sess_ok c b'" and "shrinks s s'"
  shows "stepped a c s w qs cs res"
  using assms callback_ready_settle [OF assms(2,3), of e n s'] grows_refl tidy_refl unfolding stepped_def by blast

lemma sent_stepped: "sent a c s w qs cs res \<Longrightarrow> stepped a c s w qs cs res"
  unfolding sent_def stepped_def using grows_refl tidy_refl by blast

text \<open>No list body of the command that ends inside a record is to come.\<close>

definition whole_bodies :: "nat \<Rightarrow> protocol_command \<Rightarrow> socket \<Rightarrow> bool" where
  "whole_bodies width cmd s \<longleftrightarrow> (\<forall>xs h ys. incoming s = xs @ response_header_bytes h @ ys \<longrightarrow>
     reply_error (reply_check_mini cmd) h = None \<longrightarrow>
     unat (res_bodylen h) < 2 ^ 31 \<and> unat (res_bodylen h) mod width = 0)"

lemma whole_bodies_shrinks: "whole_bodies width cmd s \<Longrightarrow> shrinks s s' \<Longrightarrow> whole_bodies width cmd s'"
  unfolding whole_bodies_def shrinks_def by (metis append_assoc)

lemma listedI:
  assumes res: "res = Some (p, sess a (settle e (c\<lparr>c_pos := n\<rparr>)) b' s' w')"
    and ready: "callback_ready a c b s w qs cs None" and ok: "sess_ok c b'" and wf: "world_wf w'"
    and g: "grows (brk w) w w'" and sh: "shrinks s s'" and list: "list_result handler (brk w) P p w'"
  shows "listed a c s w qs cs handler P res"
proof -
  let ?c = "settle e (c\<lparr>c_pos := n\<rparr>)"
  have r: "sess_ok c b" "world_wf (sess a c b s w)" "client_lists c w qs cs" using ready by (simp_all add: callback_ready_def)
  have "client_lists c w' qs cs" using client_lists_grows [OF r(3) _ g] r(2) by (simp add: world_wf_sess_iff)
  then have "client_lists ?c w' qs cs" by (cases e) (simp_all add: client_lists_def)
  moreover have "world_wf (sess a ?c b' s' w')"
    using r(2) wf grows_fields(6) [OF g] by (cases e) (simp_all add: world_wf_sess_iff)
  moreover have "sess_ok ?c b'" using ok by (cases e) simp_all
  moreover have "client_lists ?c w qs cs" using r(3) by (cases e) (simp_all add: client_lists_def)
  moreover have "world_wf (sess a ?c b' s' w)" using r(2) by (cases e) (simp_all add: world_wf_sess_iff)
  ultimately have "callback_ready a ?c b' s' w' qs cs None" "callback_ready a ?c b' s' w qs cs None"
    by (simp_all add: callback_ready_def owned_msg_def)
  with res sh g list show ?thesis unfolding listed_def by blast
qed

lemma grows_brk: "brk w \<le> n \<Longrightarrow> grows m w (w\<lparr>brk := n\<rparr>)"
  by (rule growsI [where n = n and os = "objs w" and ns = "nodes w" and ls = "list_hdrs w"]) simp_all

lemma list_result_bufs [simp]: "list_result handler m P p (w\<lparr>bufs := bs\<rparr>) = list_result handler m P p w"
  by (cases p) (simp_all add: list_result_def only_list_def list_rep_def holds_def)

lemma list_result_mono:
  assumes "list_result handler m' P p w" and m: "m \<le> m'"
    and gap: "\<And>x. m \<le> x \<Longrightarrow> x < m' \<Longrightarrow> nodes w x = None \<and> list_hdrs w x = None \<and> objs w x = None"
  shows "list_result handler m P p w"
proof (cases p)
  case None
  then have "nodes w x = None \<and> list_hdrs w x = None \<and> ((\<forall>k. alloc_ok w k) \<longrightarrow> objs w x = None)" if "m \<le> x" for x
    using assms(1) gap [of x] that by (cases "x < m'") (simp_all add: list_result_def)
  with None show ?thesis by (simp add: list_result_def)
next
  case (Some lp)
  then obtain ms xs where l: "m' \<le> lp" "only_list m' lp ms w" "list_rep w lp (Some handler) ms" "holds w ms xs"
    "\<forall>x \<in> set xs. P x" "distinct (map snd ms)" "\<forall>x \<in> fst ` set ms. m' \<le> x" "\<forall>v \<in> snd ` set ms. m' \<le> v"
    using assms(1) by (auto simp: list_result_def)
  have "only_list m lp ms w"
    unfolding only_list_def
  proof (intro allI impI)
    fix x assume x: "m \<le> x"
    show "(nodes w x \<noteq> None \<longrightarrow> x \<in> fst ` set ms) \<and> (list_hdrs w x \<noteq> None \<longrightarrow> x = lp) \<and>
        ((\<forall>k. alloc_ok w k) \<and> objs w x \<noteq> None \<longrightarrow> x \<in> snd ` set ms)"
    proof (cases "x < m'")
      case True
      with gap [OF x] show ?thesis by simp
    next
      case False
      then have "m' \<le> x" by simp
      with l(2) show ?thesis unfolding only_list_def by blast
    qed
  qed
  moreover have "\<forall>x \<in> fst ` set ms. m \<le> x" "\<forall>v \<in> snd ` set ms. m \<le> v" using l(7,8) m le_trans by blast+
  ultimately have "\<exists>ms xs. m \<le> lp \<and> only_list m lp ms w \<and> list_rep w lp (Some handler) ms \<and> holds w ms xs \<and>
      (\<forall>x \<in> set xs. P x) \<and> distinct (map snd ms) \<and> (\<forall>x \<in> fst ` set ms. m \<le> x) \<and> (\<forall>v \<in> snd ` set ms. m \<le> v)"
    using l(1,3-6) m by (intro exI [of _ ms] exI [of _ xs]) simp
  with Some show ?thesis by (simp add: list_result_def)
qed

text \<open>Releasing a list that lies above the rest of the memory.\<close>

lemma release_list_result:
  assumes "list_result handler m P (Some lp) w'" and g: "grows m w w'" and wf: "world_wf w'" and m: "brk w \<le> m"
  shows "\<exists>w''. emq_list_release (Some lp) (sess a c b s w') = Some (sess a c b s w'') \<and> grows m w w'' \<and> world_wf w'' \<and>
    list_result handler m P None w''"
proof -
  obtain ms xs where l: "m \<le> lp" "only_list m lp ms w'" "list_rep w' lp (Some handler) ms" "holds w' ms xs" "distinct (map snd ms)"
    "\<forall>x \<in> fst ` set ms. m \<le> x" "\<forall>v \<in> snd ` set ms. m \<le> v"
    using assms(1) by (auto simp: list_result_def)
  let ?os = "freed_objs (Some handler) (map snd ms) w'" and ?ns = "nodes w' |` (- fst ` set ms)"
    and ?ls = "(list_hdrs w')(lp := None)"
  let ?w = "w'\<lparr>objs := ?os, nodes := ?ns, list_hdrs := ?ls\<rparr>"
  have dom: "objs w' v \<noteq> None" if "(x, v) \<in> set ms" for x v
  proof -
    from l(4) have "Some ` set xs = (\<lambda>(x, v). objs w' v) ` set ms"
      unfolding holds_def by (metis list.set_map)
    with that show ?thesis by force
  qed
  have "emq_list_release (Some lp) (sess a c b s w') = Some ((sess a c b s w')\<lparr>objs := ?os, nodes := ?ns, list_hdrs := ?ls\<rparr>)"
    using emq_list_release_rep [of "sess a c b s w'" lp "Some handler" ms] l(3,5) dom by (force simp: freed_objs_def)
  then have "emq_list_release (Some lp) (sess a c b s w') = Some (sess a c b s ?w)" by (simp add: sess_def)
  moreover have "grows m w ?w"
  proof -
    from g obtain n os ns ls where w': "w' = w\<lparr>brk := n, objs := os, nodes := ns, list_hdrs := ls\<rparr>" "brk w \<le> n"
      "\<forall>x < brk w. os x = objs w x" "\<forall>x < m. ns x = nodes w x \<and> ls x = list_hdrs w x" unfolding grows_def by blast
    have above: "x \<notin> snd ` set ms" if "x < brk w" for x using l(7) m that by fastforce
    have above': "x \<notin> fst ` set ms" "x \<noteq> lp" if "x < m" for x using l(1,6) that by fastforce+
    show ?thesis
      using w' above above' by (intro growsI [where n = n and os = "?os" and ns = "?ns" and ls = "?ls"])
        (simp_all add: freed_objs_def)
  qed
  moreover have "world_wf ?w" using wf by (simp add: world_wf_def freed_objs_def restrict_map_def)
  moreover have "list_result handler m P None ?w"
    using l(2) by (auto simp: only_list_def list_result_def freed_objs_def restrict_map_def)
  ultimately show ?thesis by blast
qed

section \<open>The query in any environment\<close>

context list_query
begin

text \<open>Bytes of whole records are the image of some records.\<close>

lemma records_onto: "length bs = width * k \<Longrightarrow> \<exists>rs. length rs = k \<and> (\<forall>r \<in> set rs. fits r) \<and> concat (map encode rs) = bs"
proof (induction k arbitrary: bs)
  case (Suc k)
  then have "length (drop width bs) = width * k" by simp
  from Suc.IH [OF this] obtain rs where
    rs: "length rs = k" "\<forall>r \<in> set rs. fits r" "concat (map encode rs) = drop width bs" by blast
  obtain r where "fits r" "encode r = take width bs" using encode_onto [of "take width bs"] Suc.prems by auto
  with rs show ?case by (intro exI [of _ "r # rs"]) simp
qed simp

text \<open>
  From the body in its block \<open>q\<close> to the end: the new list, the loop, and the release of what the
  loop leaves when an object cannot be allocated.
\<close>

lemma list_loop_done:
  assumes wf: "world_wf (sess a c b s w)" and q: "q < brk w" "q \<noteq> the (c_request c)"
    and body: "bufs w q = Some (map Some bs)" "length bs = unat n" "unat n mod width = 0"
    and noerr: "c_error c = ''''"
  shows "\<exists>p e w'. (case emq_list_init (sess a c b s w) of
        (None, w) \<Rightarrow> do {
          w \<leftarrow> emq_client_set_error (Some a) EMQ_ERROR_ALLOC w;
          w \<leftarrow> free_buf (Some q) w;
          emq_exit (Some a) False None w }
      | (Some lp, w) \<Rightarrow> do {
          w \<leftarrow> EMQ_LIST_SET_FREE_METHOD (Some lp) handler w;
          (all_done, w) \<leftarrow> parse_records width init of_record (Some lp) (Some q) 0 n w;
          emq_list_finish (Some a) (Some lp) (Some q) all_done w }) = Some (p, sess a (settle e c) b s w') \<and>
    grows (brk w) (w\<lparr>bufs := (bufs w)(q := None)\<rparr>) w' \<and> world_wf w' \<and>
    list_result handler (brk w) (\<lambda>x. x \<in> range object) p w'"
proof -
  let ?W = "sess a c b s w"
  have wf0: "world_wf w" using wf by (simp add: world_wf_sess_iff)
  have free: "free_buf (Some q) (sess a c' b s u) = Some (sess a c' b s (u\<lparr>bufs := (bufs w)(q := None)\<rparr>))"
    if "bufs u = bufs w" "c_request c' = c_request c" for c' u
    using body(1) q(2) that by (subst free_buf_sess) (simp_all add: free_buf_def)
  have gone: "grows (brk w) (w\<lparr>bufs := (bufs w)(q := None)\<rparr>) (u\<lparr>bufs := (bufs w)(q := None)\<rparr>) \<and>
      world_wf (u\<lparr>bufs := (bufs w)(q := None)\<rparr>)" if g: "grows (brk w) w u" and u: "world_wf u" for u
  proof
    from g obtain n' os ns ls where "u = w\<lparr>brk := n', objs := os, nodes := ns, list_hdrs := ls\<rparr>" "brk w \<le> n'"
      "\<forall>x < brk w. os x = objs w x" "\<forall>x < brk w. ns x = nodes w x \<and> ls x = list_hdrs w x" unfolding grows_def by blast
    then show "grows (brk w) (w\<lparr>bufs := (bufs w)(q := None)\<rparr>) (u\<lparr>bufs := (bufs w)(q := None)\<rparr>)"
      by (intro growsI [where n = n' and os = os and ns = ns and ls = ls]) simp_all
    show "world_wf (u\<lparr>bufs := (bufs w)(q := None)\<rparr>)"
      using u grows_fields(2) [OF g] by (simp add: world_wf_def)
  qed
  show ?thesis
  proof (cases "alloc_ok w (brk w)")
    case False
    let ?u = "w\<lparr>brk := Suc (brk w)\<rparr>"
    have "emq_list_init ?W = (None, sess a c b s ?u)"
      using False by (simp add: emq_list_init_def malloc_small)
    moreover have "grows (brk w) w ?u" by (rule grows_brk) simp
    moreover have "world_wf ?u" using wf0 by (simp add: world_wf_def)
    ultimately show ?thesis
      using gone [of ?u] free [of ?u "c\<lparr>c_error := error_text EMQ_ERROR_ALLOC\<rparr>"]
      by (intro exI [of _ None] exI [of _ "Some EMQ_ERROR_ALLOC"] exI [of _ "?u\<lparr>bufs := (bufs w)(q := None)\<rparr>"])
        (simp add: wf_fresh(2-4) [OF wf0] list_result_def)
  next
    case True
    obtain V1 V where nl: "emq_list_init ?W = (Some (brk w), V1)"
      "EMQ_LIST_SET_FREE_METHOD (Some (brk w)) handler V1 = Some V"
      "list_rep V (brk w) (Some handler) []" "grows (brk w) ?W V" "world_wf V" "brk V = Suc (brk w)"
      "only_list (brk w) (brk w) [] V"
      using new_list [OF wf, of handler] True by auto
    obtain rs where rs: "\<forall>r \<in> set rs. fits r" "concat (map encode rs) = bs" "width * length rs = unat n"
      using records_onto [of bs "unat n div width"] body(2,3) by (metis mult_div_mod_eq add_0_right)
    have bufV: "bufs V q = Some (map Some ([] @ concat (map encode rs)))"
      using grows_fields(2) [OF nl(4)] body(1) q rs(2) by simp
    have pre: "brk w \<le> brk V" "\<forall>x \<in> fst ` set ([] :: (addr \<times> addr) list). brk w \<le> x"
      "distinct (map snd ([] :: (addr \<times> addr) list))" "\<forall>v \<in> snd ` set ([] :: (addr \<times> addr) list). v < brk V"
      "unat (0 :: u32) = length ([] :: bytes)" "unat n = length ([] :: bytes) + width * length rs"
      using nl(6) rs(3) by simp_all
    obtain fin V3 ms xs where pr:
      "parse_records width init of_record (Some (brk w)) (Some q) 0 n V = Some (fin, V3)"
      "grows (brk w) V V3" "world_wf V3" "list_rep V3 (brk w) (Some handler) (ms @ [])"
      "holds V3 ms (map object (rev xs))" "distinct (map snd (ms @ []))"
      "\<forall>v \<in> snd ` set ms. brk V \<le> v" "\<forall>x \<in> fst ` set ms. brk V \<le> x"
      "only_list (brk w) (brk w) [] V \<longrightarrow> only_list (brk w) (brk w) (ms @ []) V3"
      using parse_records_rep [OF nl(5,3) order_refl pre(1-4) bufV pre(5,6) rs(1)] by (elim exE conjE) (rule that)
    obtain u where u: "V3 = sess a c b s u" "grows (brk w) w u"
      using grows_sess [OF grows_trans [OF nl(4) pr(2)]] by blast
    have wfu: "world_wf u" using pr(3) u(1) by (simp add: world_wf_sess_iff)
    have res: "list_result handler (brk w) (\<lambda>x. x \<in> range object) (Some (brk w)) u"
      using pr(4-9) nl(6,7) u(1)
      by (auto simp: list_result_def intro!: exI [of _ ms] exI [of _ "map object (rev xs)"] dest: Suc_leD)
    show ?thesis
    proof (cases fin)
      case True
      let ?u = "u\<lparr>bufs := (bufs w)(q := None)\<rparr>"
      have "settle None c = c\<lparr>c_status := EMQ_STATUS_OK\<rparr>" using noerr by (cases c) simp
      moreover have "list_result handler (brk w) (\<lambda>x. x \<in> range object) (Some (brk w)) ?u"
        using res by simp
      ultimately show ?thesis
        using True nl(1,2) pr(1) u(1) gone [OF u(2) wfu] free [OF grows_fields(2) [OF u(2)] refl]
        by (intro exI [of _ "Some (brk w)"] exI [of _ None] exI [of _ ?u]) (simp add: emq_list_finish_def)
    next
      case False
      obtain u2 where u2: "emq_list_release (Some (brk w)) (sess a (c\<lparr>c_error := error_text EMQ_ERROR_ALLOC\<rparr>) b s u)
          = Some (sess a (c\<lparr>c_error := error_text EMQ_ERROR_ALLOC\<rparr>) b s u2)" "grows (brk w) w u2" "world_wf u2"
        "list_result handler (brk w) (\<lambda>x. x \<in> range object) None u2"
        using release_list_result [OF res u(2) wfu order_refl] by blast
      let ?u = "u2\<lparr>bufs := (bufs w)(q := None)\<rparr>"
      show ?thesis
        using False nl(1,2) pr(1) u(1) u2(1,4) gone [OF u2(2,3)]
          free [OF grows_fields(2) [OF u2(2)], of "c\<lparr>c_error := error_text EMQ_ERROR_ALLOC\<rparr>"]
        by (intro exI [of _ None] exI [of _ "Some EMQ_ERROR_ALLOC"] exI [of _ ?u])
          (simp add: emq_list_finish_def)
    qed
  qed
qed

end

lemma grows_mono:
  assumes "grows m' w w'" and m: "m \<le> m'"
  shows "grows m w w'"
proof -
  from assms(1) obtain n os ns ls where "w' = w\<lparr>brk := n, objs := os, nodes := ns, list_hdrs := ls\<rparr>" "brk w \<le> n"
    "\<forall>x < brk w. os x = objs w x" "\<forall>x < m'. ns x = nodes w x \<and> ls x = list_hdrs w x" unfolding grows_def by blast
  with m show ?thesis by (intro growsI [where n = n and os = os and ns = ns and ls = ls]) simp_all
qed

context list_query
begin

lemma list_query_any:
  assumes ready: "callback_ready a c b s w qs cs None" and whole: "whole_bodies width qcmd s"
  shows "listed a c s w qs cs handler (\<lambda>x. x \<in> range object)
    (emq_list_query (Some a) build qcmd handler width init of_record (sess a c b s w))"
    (is "listed a c s w qs cs handler ?P ?run")
proof -
  let ?q = "brk w"
  have r: "sess_ok c b" "world_wf (sess a c b s w)" using ready by (simp_all add: callback_ready_def)
  have wf: "world_wf w" and noreq: "?q \<noteq> the (c_request c)" using r(2) by (auto simp: world_wf_sess_iff)
  have fresh: "bufs w ?q = None" using wf by (simp add: world_wf_def)
  have empty0: "list_result handler ?q ?P None w" using wf_fresh(2-4) [OF wf] by (simp add: list_result_def)
  then have empty: "list_result handler ?q ?P None (w\<lparr>brk := k\<rparr>)" for k by (simp add: list_result_def)
  obtain e n b' s1 where wr: "emq_request_write (Some a) build (sess a c b s w)
      = Some (e = None, sess a (c\<lparr>c_error := err_text e, c_pos := n\<rparr>) b' s1 w)" "sess_ok c b'" "shrinks s s1"
    using request_write_sess [OF r(1), of a s w] request_sent_shrinks by blast
  show ?thesis
  proof (cases e)
    case (Some e1)
    with wr have "?run = Some (None, sess a (settle (Some e1) (c\<lparr>c_pos := n\<rparr>)) b' s1 w)"
      by (simp add: emq_list_query_def)
    then show ?thesis using ready wr(2) wf grows_refl wr(3) empty0 by (rule listedI)
  next
    case None
    let ?c = "c\<lparr>c_error := '''', c_pos := n\<rparr>"
    obtain e' h s2 where hd: "emq_read_reply (Some a) (reply_check_mini qcmd) (sess a ?c b' s1 w)
        = Some (if e' = None then Some h else None, sess a (?c\<lparr>c_error := err_text e'\<rparr>) b' s2 w)"
      "reply_read (reply_check_mini qcmd) s1 e' s2"
      "e' = None \<longrightarrow> sock_read s1 (response_header_bytes h) s2 \<and> reply_check_mini qcmd h \<noteq> EMQ_STATUS_ERR \<and>
         res_status h = EMQ_PROTOCOL_STATUS_SUCCESS"
      using emq_read_reply_sess [of ?c a "reply_check_mini qcmd" b' s1 w] by auto
    have sh2: "shrinks s s2" using wr(3) reply_read_shrinks [OF hd(2)] by (rule shrinks_trans)
    show ?thesis
    proof (cases e')
      case (Some e1)
      with wr None hd have "?run = Some (None, sess a (settle (Some e1) (c\<lparr>c_pos := n\<rparr>)) b' s2 w)"
        by (simp add: emq_list_query_def)
      then show ?thesis using ready wr(2) wf grows_refl sh2 empty0 by (rule listedI)
    next
      case no: None
      have "incoming s1 = response_header_bytes h @ incoming s2" "reply_error (reply_check_mini qcmd) h = None"
        using hd(3) no sock_read_front by (auto simp: reply_error_def)
      then have len: "unat (res_bodylen h) < 2 ^ 31" "unat (res_bodylen h) mod width = 0"
        using whole_bodies_shrinks [OF whole wr(3)] unfolding whole_bodies_def by (metis append_Nil)+
      let ?m = "unat (res_bodylen h)"
      have step: "?run = (case buf_alloc ?m (sess a ?c b' s2 w) of
           (None, w) \<Rightarrow> do {
             w \<leftarrow> emq_client_set_error (Some a) EMQ_ERROR_ALLOC w;
             emq_exit (Some a) False None w }
         | (Some buffer, w) \<Rightarrow> do {
             (n, bs, w) \<leftarrow> emq_client_read (Some a) (sint (res_bodylen h)) w;
             if n = -1 then do {
               w \<leftarrow> emq_client_set_error (Some a) EMQ_ERROR_READ w;
               w \<leftarrow> free_buf (Some buffer) w;
               emq_exit (Some a) False None w }
             else do {
               w \<leftarrow> buf_store (Some buffer) 0 bs w;
               (case emq_list_init w of
                  (None, w) \<Rightarrow> do {
                    w \<leftarrow> emq_client_set_error (Some a) EMQ_ERROR_ALLOC w;
                    w \<leftarrow> free_buf (Some buffer) w;
                    emq_exit (Some a) False None w }
                | (Some lp, w) \<Rightarrow> do {
                    w \<leftarrow> EMQ_LIST_SET_FREE_METHOD (Some lp) handler w;
                    (all_done, w) \<leftarrow> parse_records width init of_record (Some lp) (Some buffer) 0 (res_bodylen h) w;
                    emq_list_finish (Some a) (Some lp) (Some buffer) all_done w }) } })"
        using wr(1) None hd(1) no by (simp add: emq_list_query_def)
      show ?thesis
      proof (cases "alloc_ok w ?q")
        case False
        let ?u = "w\<lparr>brk := Suc ?q\<rparr>"
        have "buf_alloc ?m (sess a ?c b' s2 w) = (None, sess a ?c b' s2 ?u)"
          using False noreq by (subst buf_alloc_sess) (simp_all add: buf_alloc_cases)
        with step have "?run = Some (None, sess a (settle (Some EMQ_ERROR_ALLOC) (c\<lparr>c_pos := n\<rparr>)) b' s2 ?u)" by simp
        then show ?thesis using ready wr(2) _ _ sh2 empty
          by (rule listedI) (use wf in \<open>simp_all add: world_wf_def grows_brk\<close>)
      next
        case True
        let ?w1 = "w\<lparr>brk := Suc ?q, bufs := (bufs w)(?q \<mapsto> replicate ?m None)\<rparr>"
        have alloc: "buf_alloc ?m (sess a ?c b' s2 w) = (Some ?q, sess a ?c b' s2 ?w1)"
          using True len(1) noreq by (subst buf_alloc_sess) (simp_all add: buf_alloc_cases)
        obtain k bs s3 where rd: "emq_client_read (Some a) (int ?m) (sess a ?c b' s2 ?w1) = Some (k, bs, sess a ?c b' s3 ?w1)"
          "sock_read s2 bs s3" "k = -1 \<or> k = int ?m \<and> int (length bs) = int ?m"
          using emq_client_read_sess [of a "int ?m" ?c b' s2 ?w1] by blast
        have rd1: "emq_client_read (Some a) (sint (res_bodylen h)) (sess a ?c b' s2 ?w1) = Some (k, bs, sess a ?c b' s3 ?w1)"
          using rd(1) unfolding sint_u32_small [OF len(1)] .
        have sh3: "shrinks s s3" using sh2 shrinks_read [OF rd(2)] by (rule shrinks_trans)
        show ?thesis
        proof (cases "k = -1")
          case True
          let ?u = "w\<lparr>brk := Suc ?q\<rparr>"
          let ?ce = "?c\<lparr>c_error := error_text EMQ_ERROR_READ\<rparr>"
          have "free_buf (Some ?q) (sess a ?ce b' s3 ?w1) = Some (sess a ?ce b' s3 ?u)"
            using noreq fresh by (subst free_buf_sess) (simp_all add: free_buf_def fun_upd_idem)
          with step alloc rd1 True have "?run = Some (None, sess a (settle (Some EMQ_ERROR_READ) (c\<lparr>c_pos := n\<rparr>)) b' s3 ?u)"
            by simp
          then show ?thesis using ready wr(2) _ _ sh3 empty
            by (rule listedI) (use wf in \<open>simp_all add: world_wf_def grows_brk\<close>)
        next
          case False
          then have lenb: "length bs = ?m" using rd(3) of_nat_eq_iff by blast
          let ?w2 = "w\<lparr>brk := Suc ?q, bufs := (bufs w)(?q \<mapsto> map Some bs)\<rparr>"
          have store: "buf_store (Some ?q) 0 bs (sess a ?c b' s3 ?w1) = Some (sess a ?c b' s3 ?w2)"
            using noreq lenb by (subst buf_store_sess) (simp_all add: buf_store_def)
          have "world_wf ?w2" using wf by (simp add: world_wf_def)
          then have wf2: "world_wf (sess a ?c b' s3 ?w2)" using r(2) by (simp add: world_wf_sess_iff)
          have freed: "?w2\<lparr>bufs := (bufs ?w2)(?q := None)\<rparr> = w\<lparr>brk := Suc ?q\<rparr>"
            using fresh by (simp add: fun_upd_idem)
          obtain p e2 w' where fin: "(case emq_list_init (sess a ?c b' s3 ?w2) of
              (None, w) \<Rightarrow> do {
                w \<leftarrow> emq_client_set_error (Some a) EMQ_ERROR_ALLOC w;
                w \<leftarrow> free_buf (Some ?q) w;
                emq_exit (Some a) False None w }
            | (Some lp, w) \<Rightarrow> do {
                w \<leftarrow> EMQ_LIST_SET_FREE_METHOD (Some lp) handler w;
                (all_done, w) \<leftarrow> parse_records width init of_record (Some lp) (Some ?q) 0 (res_bodylen h) w;
                emq_list_finish (Some a) (Some lp) (Some ?q) all_done w }) = Some (p, sess a (settle e2 ?c) b' s3 w')"
            "grows (Suc ?q) (w\<lparr>brk := Suc ?q\<rparr>) w'" "world_wf w'" "list_result handler (Suc ?q) ?P p w'"
            using list_loop_done [OF wf2, of ?q bs "res_bodylen h" handler] noreq lenb len(2) unfolding freed by auto
          have "settle e2 ?c = settle e2 (c\<lparr>c_pos := n\<rparr>)" by (cases e2; cases c) simp_all
          with step alloc rd1 False store fin(1)
          have "?run = Some (p, sess a (settle e2 (c\<lparr>c_pos := n\<rparr>)) b' s3 w')" by simp
          then show ?thesis using ready wr(2) fin(3) _ sh3 _
          proof (rule listedI)
            have "grows ?q w (w\<lparr>brk := Suc ?q\<rparr>)" by (rule grows_brk) simp
            then show "grows ?q w w'" using grows_mono [OF fin(2)] by (rule grows_trans) simp
            show "list_result handler ?q ?P p w'"
              using fin(4) grows_fields(7-9) [OF fin(2), of ?q] wf_fresh(2-4) [OF wf, of ?q]
              by (elim list_result_mono) (simp_all add: le_less_Suc_eq)
          qed
        qed
      qed
    qed
  qed
qed

end

section \<open>A walk through a list\<close>

text \<open>
  \<open>while ((node = emq_list_next(&iter)) != NULL)\<close> with a body that reads the value of the node;
  \<open>read_value\<close> is undefined on an object of another kind. The result is what was read, in order.
\<close>

partial_function (option) walk_list :: "(emq_object \<Rightarrow> 'r option) \<Rightarrow> emq_list_iterator \<Rightarrow> world \<Rightarrow> 'r list option" where
  "walk_list read_value iter w = do {
     (node, iter) \<leftarrow> emq_list_next iter w;
     case node of
       None \<Rightarrow> Some []
     | Some a \<Rightarrow> do {
         n \<leftarrow> nodes w a;
         x \<leftarrow> objs w (node_value n);
         r \<leftarrow> read_value x;
         rs \<leftarrow> walk_list read_value iter w;
         Some (r # rs) } }"

text \<open>The walk reads every object once, from the front of the list.\<close>

lemma walk_list_seg:
  assumes "list_rep w lp fr (pre @ ms)" and "map (\<lambda>(a, v). objs w v) ms = map Some (map object rs)"
    and "\<And>r. read_value (object r) = Some r"
  shows "walk_list read_value (first_ptr ms None) w = Some rs"
  using assms(1,2)
proof (induction ms arbitrary: pre rs)
  case Nil
  then show ?case by (subst walk_list.simps) simp
next
  case (Cons av ms)
  obtain a v where av: "av = (a, v)" by (cases av)
  obtain r rs' where rs: "rs = r # rs'" "objs w v = Some (object r)"
    "map (\<lambda>(a, v). objs w v) ms = map Some (map object rs')" using Cons.prems(2) av by (cases rs) auto
  obtain n where n: "nodes w a = Some n" "node_value n = v"
    using emq_list_next_rep(2) [of w lp fr pre a v ms] Cons.prems(1) av by auto
  have "walk_list read_value (first_ptr ms None) w = Some rs'"
    using Cons.IH [of "pre @ [(a, v)]" rs'] Cons.prems(1) av rs(3) by simp
  then show ?case
    using emq_list_next_rep(1) [of w lp fr pre a v ms] Cons.prems(1) av rs n assms(3)
    by (subst walk_list.simps) simp
qed

text \<open>Query, walk and release, as a caller does it: what was read, or null after an error.\<close>

definition read_list :: "(world \<Rightarrow> (ptr \<times> world) option) \<Rightarrow> (emq_object \<Rightarrow> 'r option) \<Rightarrow> world \<Rightarrow>
    ('r list option \<times> world) option" where
  "read_list query read_value w = do {
     (list, w) \<leftarrow> query w;
     if list \<noteq> None then do {
       iter \<leftarrow> emq_list_rewind list w;
       rs \<leftarrow> walk_list read_value iter w;
       w \<leftarrow> emq_list_release list w;
       Some (Some rs, w) }
     else Some (None, w) }"

lemma read_list_done:
  assumes "listed a c s w qs cs handler (\<lambda>x. x \<in> range object) (query W)" and wf: "world_wf w"
    and reads: "\<And>r. read_value (object r) = Some r"
  shows "stepped a c s w qs cs (read_list query read_value W)"
proof -
  from assms(1) obtain p e n b' s' w' where q: "query W = Some (p, sess a (settle e (c\<lparr>c_pos := n\<rparr>)) b' s' w')"
    "callback_ready a (settle e (c\<lparr>c_pos := n\<rparr>)) b' s' w' qs cs None"
    "callback_ready a (settle e (c\<lparr>c_pos := n\<rparr>)) b' s' w qs cs None" "shrinks s s'" "grows (brk w) w w'"
    "list_result handler (brk w) (\<lambda>x. x \<in> range object) p w'"
    unfolding listed_def by (elim exE conjE) (rule that)
  let ?c = "settle e (c\<lparr>c_pos := n\<rparr>)"
  show ?thesis
  proof (cases p)
    case None
    with q(1) have "read_list query read_value W = Some (None, sess a ?c b' s' w')" by (simp add: read_list_def)
    moreover have "tidy w w'" using q(6) q(5) wf unfolding None by (rule no_list_tidy)
    ultimately show ?thesis using q unfolding stepped_def by blast
  next
    case (Some lp)
    have wf': "world_wf w'" "world_wf (sess a ?c b' s' w')" "sess_ok ?c b'"
      using q(2) by (simp_all add: callback_ready_def world_wf_sess_iff)
    obtain w'' where rel: "emq_list_release (Some lp) (sess a ?c b' s' w') = Some (sess a ?c b' s' w'')"
      "grows (brk w) w w''" "world_wf w''" "list_result handler (brk w) (\<lambda>x. x \<in> range object) None w''"
      using release_list_result [OF q(6) [unfolded Some] q(5) wf'(1) order_refl] by blast
    obtain ms xs where l: "list_rep w' lp (Some handler) ms" "holds w' ms xs" "\<forall>x \<in> set xs. x \<in> range object"
      using q(6) Some by (auto simp: list_result_def)
    obtain rs where rs: "xs = map object rs" using l(3) by (metis ex_map_conv imageE)
    have "walk_list read_value (first_ptr ms None) (sess a ?c b' s' w') = Some rs"
      using l rs reads by (intro walk_list_seg [where pre = "[]" and object = object]) (auto simp: holds_def comp_def)
    then have run: "read_list query read_value W = Some (Some rs, sess a ?c b' s' w'')"
      using q(1) Some rel(1) emq_list_rewind_rep [of "sess a ?c b' s' w'" lp "Some handler" ms] l(1)
      by (simp add: read_list_def)
    have "world_wf (sess a ?c b' s' w'')"
      using q(3) rel(3) grows_fields(6) [OF rel(2)] by (simp add: world_wf_sess_iff callback_ready_def)
    then have "callback_ready a ?c b' s' w'' qs cs None"
      using wf'(3) q(3) client_lists_grows [OF _ wf rel(2)] by (simp add: callback_ready_def owned_msg_def)
    moreover have "tidy w w''" using rel(4,2) wf by (rule no_list_tidy)
    ultimately show ?thesis using run q(4) rel(2) unfolding stepped_def by blast
  qed
qed

section \<open>The five kinds of list\<close>

fun user_value :: "emq_object \<Rightarrow> emq_user option" where
  "user_value (User u) = Some u"
| "user_value _ = None"

fun queue_value :: "emq_object \<Rightarrow> emq_queue option" where
  "queue_value (Queue q) = Some q"
| "queue_value _ = None"

fun route_value :: "emq_object \<Rightarrow> emq_route option" where
  "route_value (Route r) = Some r"
| "route_value _ = None"

fun route_key_value :: "emq_object \<Rightarrow> emq_route_key option" where
  "route_key_value (RouteKey k) = Some k"
| "route_key_value _ = None"

fun channel_value :: "emq_object \<Rightarrow> emq_channel option" where
  "channel_value (Channel c) = Some c"
| "channel_value _ = None"

text \<open>No reply to a list query that the client will read announces a part of a record.\<close>

definition whole_lists :: "socket \<Rightarrow> bool" where
  "whole_lists s \<longleftrightarrow> whole_bodies (64 + 8) EMQ_PROTOCOL_CMD_USER_LIST s \<and>
     whole_bodies (64 + 6 * 4) EMQ_PROTOCOL_CMD_QUEUE_LIST s \<and>
     whole_bodies (64 + 2 * 4) EMQ_PROTOCOL_CMD_ROUTE_LIST s \<and>
     whole_bodies (32 + 64) EMQ_PROTOCOL_CMD_ROUTE_KEYS s \<and>
     whole_bodies (64 + 3 * 4) EMQ_PROTOCOL_CMD_CHANNEL_LIST s"

lemma whole_lists_shrinks: "whole_lists s \<Longrightarrow> shrinks s s' \<Longrightarrow> whole_lists s'"
  by (auto simp: whole_lists_def intro: whole_bodies_shrinks)

text \<open>A stream that is too short for a header brings no list.\<close>

lemma whole_lists_short: "length (incoming s) < sizeof_header \<Longrightarrow> whole_lists s"
  unfolding whole_lists_def whole_bodies_def by auto

lemma lists_listed:
  assumes ready: "callback_ready a c b s w qs cs None" and whole: "whole_lists s"
  shows "listed a c s w qs cs emq_user_list_free_handler (\<lambda>x. x \<in> range User) (emq_user_list (Some a) (sess a c b s w))"
    and "listed a c s w qs cs emq_queue_list_free_handler (\<lambda>x. x \<in> range Queue) (emq_queue_list (Some a) (sess a c b s w))"
    and "listed a c s w qs cs emq_route_list_free_handler (\<lambda>x. x \<in> range Route) (emq_route_list (Some a) (sess a c b s w))"
    and "listed a c s w qs cs emq_route_key_list_free_handler (\<lambda>x. x \<in> range RouteKey) (emq_route_keys (Some a) name (sess a c b s w))"
    and "listed a c s w qs cs emq_channel_list_free_handler (\<lambda>x. x \<in> range Channel) (emq_channel_list (Some a) (sess a c b s w))"
  using whole [unfolded whole_lists_def]
    user_list_query.list_query_any [OF ready, of EMQ_PROTOCOL_CMD_USER_LIST emq_user_list_free_handler]
    queue_list_query.list_query_any [OF ready, of EMQ_PROTOCOL_CMD_QUEUE_LIST emq_queue_list_free_handler]
    route_list_query.list_query_any [OF ready, of EMQ_PROTOCOL_CMD_ROUTE_LIST emq_route_list_free_handler]
    route_keys_query.list_query_any [OF ready, of EMQ_PROTOCOL_CMD_ROUTE_KEYS emq_route_key_list_free_handler]
    channel_list_query.list_query_any [OF ready, of EMQ_PROTOCOL_CMD_CHANNEL_LIST emq_channel_list_free_handler]
  by (simp_all add: emq_user_list_def emq_queue_list_def emq_route_list_def emq_route_keys_def emq_channel_list_def)

lemma lists_done:
  assumes ready: "callback_ready a c b s w qs cs None" and whole: "whole_lists s"
  shows "stepped a c s w qs cs (read_list (emq_user_list (Some a)) user_value (sess a c b s w))"
    and "stepped a c s w qs cs (read_list (emq_queue_list (Some a)) queue_value (sess a c b s w))"
    and "stepped a c s w qs cs (read_list (emq_route_list (Some a)) route_value (sess a c b s w))"
    and "stepped a c s w qs cs (read_list (\<lambda>w. emq_route_keys (Some a) name w) route_key_value (sess a c b s w))"
    and "stepped a c s w qs cs (read_list (emq_channel_list (Some a)) channel_value (sess a c b s w))"
proof -
  have wf: "world_wf w" using ready by (simp add: callback_ready_def world_wf_sess_iff)
  note lists = lists_listed [OF ready whole]
  show "stepped a c s w qs cs (read_list (emq_user_list (Some a)) user_value (sess a c b s w))"
    using lists(1) wf by (rule read_list_done) simp
  show "stepped a c s w qs cs (read_list (emq_queue_list (Some a)) queue_value (sess a c b s w))"
    using lists(2) wf by (rule read_list_done) simp
  show "stepped a c s w qs cs (read_list (emq_route_list (Some a)) route_value (sess a c b s w))"
    using lists(3) wf by (rule read_list_done) simp
  show "stepped a c s w qs cs (read_list (\<lambda>w. emq_route_keys (Some a) name w) route_key_value (sess a c b s w))"
    using lists(4) wf by (rule read_list_done) simp
  show "stepped a c s w qs cs (read_list (emq_channel_list (Some a)) channel_value (sess a c b s w))"
    using lists(5) wf by (rule read_list_done) simp
qed

end
