(* ===== verification/Emq_Simple.thy ===== *)
theory Emq_Simple
  imports Emq_Listing
begin

unbundle bit_operations_syntax

text \<open>
  The example program \<^verbatim>\<open>src/src/examples/simple.c\<close>, which calls most of the library once. What it
  prints is not modelled; what it reads for that is: the statistics in \<open>basic\<close>, the objects of
  the lists, the members of the messages. Each function is one definition; \<open>exit\<close> inside a function
  is its first result, the status. The string literal the messages point to is at \<open>lit\<close>.
\<close>

section \<open>The program\<close>

definition test_message :: bytes where
  "test_message = ascii ''test message''"

text \<open>\<open>stat\<close> has no value before \<open>emq_stat\<close> fills it; \<open>basic\<close> prints it in any case.\<close>

definition basic :: "ptr \<Rightarrow> world \<Rightarrow> world option" where
  "basic client w = do {
     (status, w) \<leftarrow> emq_auth client (ascii ''eagle'') (ascii ''eagle'') w;
     (status, w) \<leftarrow> emq_ping client w;
     ((status, stat), w) \<leftarrow> emq_stat client w;
     printed \<leftarrow> stat;
     Some w }"

definition user_management :: "ptr \<Rightarrow> world \<Rightarrow> world option" where
  "user_management client w = do {
     (status, w) \<leftarrow> emq_user_create client (ascii ''first.user'') (ascii ''password'') EMQ_QUEUE_PERM w;
     (status, w) \<leftarrow> emq_user_create client (ascii ''user_2'') (ascii ''password'') EMQ_QUEUE_PERM w;
     (users, w) \<leftarrow> read_list (emq_user_list client) user_value w;
     (status, w) \<leftarrow> emq_user_rename client (ascii ''user_2'') (ascii ''user'') w;
     (status, w) \<leftarrow> emq_user_set_perm client (ascii ''user'') (EMQ_QUEUE_PERM OR EMQ_ADMIN_PERM) w;
     (status, w) \<leftarrow> emq_user_delete client (ascii ''first.user'') w;
     (status, w) \<leftarrow> emq_user_delete client (ascii ''user'') w;
     Some w }"

text \<open>The bodies of the loops that get and that pop the messages of a queue.\<close>

definition get_message :: "ptr \<Rightarrow> world \<Rightarrow> world option" where
  "get_message client w = do {
     (queue_msg, w) \<leftarrow> emq_queue_get client (ascii ''.queue_test'') w;
     if queue_msg \<noteq> None then do {
       data \<leftarrow> emq_msg_data queue_msg w;
       size \<leftarrow> emq_msg_size queue_msg w;
       emq_msg_release queue_msg w }
     else Some w }"

definition pop_message :: "ptr \<Rightarrow> world \<Rightarrow> world option" where
  "pop_message client w = do {
     (queue_msg, w) \<leftarrow> emq_queue_pop client (ascii ''queue-2'') 1000 w;
     if queue_msg \<noteq> None then do {
       data \<leftarrow> emq_msg_data queue_msg w;
       size \<leftarrow> emq_msg_size queue_msg w;
       w \<leftarrow> emq_msg_release queue_msg w;
       tag \<leftarrow> emq_msg_tag queue_msg w;
       (status, w) \<leftarrow> emq_queue_confirm client (ascii ''queue-2'') tag w;
       Some w }
     else Some w }"

definition queue_management :: "ptr \<Rightarrow> ptr \<Rightarrow> world \<Rightarrow> (int option \<times> world) option" where
  "queue_management lit client w = do {
     (status, w) \<leftarrow> emq_queue_create client (ascii ''.queue_1'') EMQ_MAX_MSG EMQ_MAX_MSG_SIZE EMQ_QUEUE_NONE w;
     (status, w) \<leftarrow> emq_queue_create client (ascii ''queue-2'') (EMQ_MAX_MSG div 2) (EMQ_MAX_MSG_SIZE div 100)
       EMQ_QUEUE_NONE w;
     (status, w) \<leftarrow> emq_queue_declare client (ascii ''.queue_1'') w;
     (status, w) \<leftarrow> emq_queue_declare client (ascii ''queue-2'') w;
     (status, w) \<leftarrow> emq_queue_exist client (ascii ''.queue_1'') w;
     (status, w) \<leftarrow> emq_queue_exist client (ascii ''queue-2'') w;
     (status, w) \<leftarrow> emq_queue_exist client (ascii ''not-exist-queue'') w;
     (queues, w) \<leftarrow> read_list (emq_queue_list client) queue_value w;
     (status, w) \<leftarrow> emq_queue_rename client (ascii ''.queue_1'') (ascii ''.queue_test'') w;
     (msg, w) \<leftarrow> emq_msg_create lit (word_of_nat (strlenz test_message)) EMQ_ZEROCOPY_ON w;
     if msg = None then Some (Some 1, w)
     else do {
       w \<leftarrow> for_times 5 (\<lambda>w. do {
         (status, w) \<leftarrow> emq_queue_push client (ascii ''.queue_test'') msg w;
         (status, w) \<leftarrow> emq_queue_push client (ascii ''queue-2'') msg w;
         Some w }) w;
       (queue_size, w) \<leftarrow> emq_queue_size client (ascii ''.queue_test'') w;
       w \<leftarrow> for_times (nat queue_size) (get_message client) w;
       (queue_size, w) \<leftarrow> emq_queue_size client (ascii ''.queue_test'') w;
       (queue_size, w) \<leftarrow> emq_queue_size client (ascii ''queue-2'') w;
       w \<leftarrow> for_times (nat queue_size) (pop_message client) w;
       (queue_size, w) \<leftarrow> emq_queue_size client (ascii ''queue-2'') w;
       (status, w) \<leftarrow> emq_queue_purge client (ascii ''.queue_test'') w;
       (queue_size, w) \<leftarrow> emq_queue_size client (ascii ''.queue_test'') w;
       (status, w) \<leftarrow> emq_queue_delete client (ascii ''.queue_test'') w;
       (status, w) \<leftarrow> emq_queue_delete client (ascii ''queue-2'') w;
       w \<leftarrow> emq_msg_release msg w;
       Some (None, w) } }"

definition route_management :: "ptr \<Rightarrow> ptr \<Rightarrow> world \<Rightarrow> (int option \<times> world) option" where
  "route_management lit client w = do {
     (status, w) \<leftarrow> emq_route_create client (ascii ''.route_1'') EMQ_ROUTE_NONE w;
     (status, w) \<leftarrow> emq_queue_create client (ascii ''.queue_1'') EMQ_MAX_MSG EMQ_MAX_MSG_SIZE EMQ_QUEUE_NONE w;
     (status, w) \<leftarrow> emq_queue_create client (ascii ''.queue_2'') EMQ_MAX_MSG EMQ_MAX_MSG_SIZE EMQ_QUEUE_NONE w;
     (status, w) \<leftarrow> emq_route_exist client (ascii ''.route_1'') w;
     (status, w) \<leftarrow> emq_route_exist client (ascii ''not-exist-route'') w;
     (routes, w) \<leftarrow> read_list (emq_route_list client) route_value w;
     (status, w) \<leftarrow> emq_route_bind client (ascii ''.route_1'') (ascii ''.queue_1'') (ascii ''key1'') w;
     (status, w) \<leftarrow> emq_route_bind client (ascii ''.route_1'') (ascii ''.queue_2'') (ascii ''key1'') w;
     (status, w) \<leftarrow> emq_route_bind client (ascii ''.route_1'') (ascii ''.queue_2'') (ascii ''key2'') w;
     (keys, w) \<leftarrow> read_list (\<lambda>w. emq_route_keys client (ascii ''.route_1'') w) route_key_value w;
     (status, w) \<leftarrow> emq_route_rename client (ascii ''.route_1'') (ascii ''.route_test'') w;
     (msg, w) \<leftarrow> emq_msg_create lit (word_of_nat (strlenz test_message)) EMQ_ZEROCOPY_ON w;
     if msg = None then Some (Some 1, w)
     else do {
       w \<leftarrow> for_times 5 (\<lambda>w. do {
         (status, w) \<leftarrow> emq_route_push client (ascii ''.route_test'') (ascii ''key1'') msg w;
         (status, w) \<leftarrow> emq_route_push client (ascii ''.route_test'') (ascii ''key2'') msg w;
         Some w }) w;
       w \<leftarrow> emq_msg_release msg w;
       (queue_size, w) \<leftarrow> emq_queue_size client (ascii ''.queue_1'') w;
       (queue_size, w) \<leftarrow> emq_queue_size client (ascii ''.queue_2'') w;
       (status, w) \<leftarrow> emq_route_unbind client (ascii ''.route_test'') (ascii ''.queue_1'') (ascii ''key1'') w;
       (status, w) \<leftarrow> emq_route_unbind client (ascii ''.route_test'') (ascii ''.queue_2'') (ascii ''key1'') w;
       (status, w) \<leftarrow> emq_route_unbind client (ascii ''.route_test'') (ascii ''.queue_2'') (ascii ''key2'') w;
       (status, w) \<leftarrow> emq_route_delete client (ascii ''.route_test'') w;
       (status, w) \<leftarrow> emq_queue_delete client (ascii ''.queue_1'') w;
       (status, w) \<leftarrow> emq_queue_delete client (ascii ''.queue_2'') w;
       Some (None, w) } }"

definition channel_management :: "ptr \<Rightarrow> world \<Rightarrow> world option" where
  "channel_management client w = do {
     (status, w) \<leftarrow> emq_channel_create client (ascii ''.channel_1'') EMQ_CHANNEL_NONE w;
     (status, w) \<leftarrow> emq_channel_create client (ascii ''.channel_2'') EMQ_CHANNEL_NONE w;
     (status, w) \<leftarrow> emq_channel_exist client (ascii ''.channel_1'') w;
     (status, w) \<leftarrow> emq_channel_exist client (ascii ''not-exist-channel'') w;
     (channels, w) \<leftarrow> read_list (emq_channel_list client) channel_value w;
     (status, w) \<leftarrow> emq_channel_delete client (ascii ''.channel_1'') w;
     (status, w) \<leftarrow> emq_channel_delete client (ascii ''.channel_2'') w;
     Some w }"

definition simple_main :: "ptr \<Rightarrow> world \<Rightarrow> (int \<times> world) option" where
  "simple_main lit w = do {
     (client, w) \<leftarrow> emq_tcp_connect ''localhost'' w;
     if client \<noteq> None then do {
       w \<leftarrow> basic client w;
       w \<leftarrow> user_management client w;
       (left, w) \<leftarrow> queue_management lit client w;
       case left of
         Some code \<Rightarrow> Some (code, w)
       | None \<Rightarrow> do {
           (left, w) \<leftarrow> route_management lit client w;
           case left of
             Some code \<Rightarrow> Some (code, w)
           | None \<Rightarrow> do {
               w \<leftarrow> channel_management client w;
               (status, w) \<leftarrow> emq_flush client
                 (EMQ_FLUSH_USER OR EMQ_FLUSH_QUEUE OR EMQ_FLUSH_ROUTE OR EMQ_FLUSH_CHANNEL) w;
               w \<leftarrow> emq_disconnect client w;
               Some (0, w) } } }
     else Some (0, w) }"

section \<open>A client that is managed\<close>

text \<open>
  \<open>memory_kept a B W\<close>: what the program has in memory in \<open>W\<close> is what it had in \<open>B\<close>, but for the
  messages and for what the commands write: status, error and position of the client at \<open>a\<close> and its
  request buffer. Objects count only if memory never runs out (\<open>tidy\<close>).
\<close>

definition memory_kept :: "addr \<Rightarrow> world \<Rightarrow> world \<Rightarrow> bool" where
  "memory_kept a B W \<longleftrightarrow> (\<exists>c0 c. clients B a = Some c0 \<and> clients W a = Some c \<and> same_client c0 c \<and>
     (\<forall>x. x \<noteq> a \<longrightarrow> clients W x = clients B x) \<and> (\<forall>x. c_request c0 \<noteq> Some x \<longrightarrow> bufs W x = bufs B x)) \<and>
     tidy B W \<and> alloc_ok W = alloc_ok B"

lemma memory_kept_cong:
  assumes "memory_kept a B W" and "clients W' = clients W" and "bufs W' = bufs W" and "nodes W' = nodes W"
    and "list_hdrs W' = list_hdrs W" and "objs W' = objs W" and "alloc_ok W' = alloc_ok W"
  shows "memory_kept a B W'"
  using assms by (simp add: memory_kept_def tidy_def)

lemma memory_kept_refl: "clients W a \<noteq> None \<Longrightarrow> memory_kept a W W"
  by (auto simp: memory_kept_def same_client_def)

text \<open>A command that changes its session and leaves the rest of the memory tidy.\<close>

lemma memory_kept_step:
  assumes "memory_kept a B (sess a c b s w)" and "grows (brk w) w w'" and "tidy w w'" and "c_request c = Some r"
  shows "memory_kept a B (sess a (settle e (c\<lparr>c_pos := n\<rparr>)) b' s' w')"
proof -
  let ?c = "settle e (c\<lparr>c_pos := n\<rparr>)"
  obtain c0 where c0: "clients B a = Some c0" "same_client c0 c" "\<forall>x. x \<noteq> a \<longrightarrow> clients w x = clients B x"
    "\<forall>x. c_request c0 \<noteq> Some x \<longrightarrow> ((bufs w)(r \<mapsto> b)) x = bufs B x" "tidy B w" "alloc_ok w = alloc_ok B"
    using assms(1,4) by (auto simp: memory_kept_def sess_def tidy_def)
  have "same_client c ?c" by (cases e; cases c) (simp_all add: same_client_def)
  with c0(2) have "same_client c0 ?c" by (cases c0; cases c; cases e) (simp_all add: same_client_def)
  moreover have "tidy B w'" using c0(5,6) assms(3) by (simp add: tidy_def)
  moreover have "c_request c0 = Some r" "c_request ?c = Some r" using same_clientD(1) [OF c0(2)] assms(4) by (cases e; simp)+
  moreover have "((bufs w)(r \<mapsto> b')) x = bufs B x" if "x \<noteq> r" for x
    using c0(4) \<open>c_request c0 = Some r\<close> that by simp
  ultimately show ?thesis
    using c0(1,3,6) grows_fields(1,2,5) [OF assms(2)] by (auto simp: memory_kept_def sess_def tidy_def)
qed

text \<open>
  \<open>managing a lit q B W\<close>: the client at \<open>a\<close> is in order in \<open>W\<close>, the literal is in place and is
  not its request buffer. The server sends no list that ends inside a record, and the kernel does not
  interrupt \<open>writev\<close> forever. Since \<open>B\<close> nothing was left in memory but \<open>q\<close>, which is null or a message
  that points to the literal.
\<close>

abbreviation text_size :: size_t where
  "text_size \<equiv> word_of_nat (strlenz test_message)"

definition managing :: "addr \<Rightarrow> addr \<Rightarrow> ptr \<Rightarrow> world \<Rightarrow> world \<Rightarrow> bool" where
  "managing a lit q B W \<longleftrightarrow> (\<exists>c b s w qs cs. W = sess a c b s w \<and> callback_ready a c b s w qs cs None \<and>
     whole_lists s \<and> writev_answers s \<and> bufs w lit = Some (map Some (cstrz test_message)) \<and>
     c_request c \<noteq> Some lit) \<and> memory_kept a B W \<and>
     (case q of None \<Rightarrow> msgs W = msgs B | Some x \<Rightarrow> msgs B x = None \<and> msgs W = (msgs B)(x \<mapsto> text_msg text_size lit))"

lemma managingE:
  assumes "managing a lit q B W"
  obtains c b s w qs cs where "W = sess a c b s w" "callback_ready a c b s w qs cs None" "whole_lists s"
    "writev_answers s" "bufs w lit = Some (map Some (cstrz test_message))" "c_request c \<noteq> Some lit"
    "memory_kept a B W" "q = None \<Longrightarrow> msgs w = msgs B"
    "\<And>x. q = Some x \<Longrightarrow> msgs B x = None \<and> msgs w = (msgs B)(x \<mapsto> text_msg text_size lit)"
proof -
  have msg: "q = None \<Longrightarrow> msgs W = msgs B"
    "\<And>x. q = Some x \<Longrightarrow> msgs B x = None \<and> msgs W = (msgs B)(x \<mapsto> text_msg text_size lit)"
    using assms by (auto simp: managing_def split: option.splits)
  from assms obtain c b s w qs cs where "W = sess a c b s w" "callback_ready a c b s w qs cs None" "whole_lists s"
    "writev_answers s" "bufs w lit = Some (map Some (cstrz test_message))" "c_request c \<noteq> Some lit" "memory_kept a B W"
    unfolding managing_def by blast
  then show thesis by (rule that) (use msg \<open>W = sess a c b s w\<close> in simp_all)
qed

lemma managingI:
  assumes "callback_ready a c b s w qs cs None" and "whole_lists s" and "writev_answers s"
    and "bufs w lit = Some (map Some (cstrz test_message))" and "c_request c \<noteq> Some lit"
    and "memory_kept a B (sess a c b s w)" and "q = None \<Longrightarrow> msgs w = msgs B"
    and "\<And>x. q = Some x \<Longrightarrow> msgs B x = None \<and> msgs w = (msgs B)(x \<mapsto> text_msg text_size lit)"
  shows "managing a lit q B (sess a c b s w)"
proof -
  have msg: "case q of None \<Rightarrow> msgs w = msgs B | Some x \<Rightarrow> msgs B x = None \<and> msgs w = (msgs B)(x \<mapsto> text_msg text_size lit)"
    using assms(7,8) by (cases q) simp_all
  show ?thesis
    unfolding managing_def
  proof (intro conjI exI)
    show "sess a c b s w = sess a c b s w" ..
    show "case q of None \<Rightarrow> msgs (sess a c b s w) = msgs B
      | Some x \<Rightarrow> msgs B x = None \<and> msgs (sess a c b s w) = (msgs B)(x \<mapsto> text_msg text_size lit)"
      using msg by (cases q) simp_all
  qed (rule assms)+
qed

lemma text_size: "unat text_size = length (cstrz test_message)"
  by (simp add: test_message_def ascii_def strlenz_def cstr_def)

text \<open>A command that changes nothing but its session and new memory keeps the client managed.\<close>

lemma managing_step:
  assumes step: "\<And>c b s w qs cs. callback_ready a c b s w qs cs None \<Longrightarrow> whole_lists s \<Longrightarrow> writev_answers s \<Longrightarrow>
    (\<And>x. q = Some x \<Longrightarrow> sendable c w x) \<Longrightarrow> stepped a c s w qs cs (f (sess a c b s w))"
  shows "keeps (managing a lit q B) f"
  unfolding keeps_def
proof (intro allI impI)
  fix W assume "managing a lit q B W"
  then obtain c b s w qs cs where W: "W = sess a c b s w" "callback_ready a c b s w qs cs None" "whole_lists s"
    "writev_answers s" "bufs w lit = Some (map Some (cstrz test_message))" "c_request c \<noteq> Some lit"
    "memory_kept a B W" "q = None \<Longrightarrow> msgs w = msgs B"
    "\<And>x. q = Some x \<Longrightarrow> msgs B x = None \<and> msgs w = (msgs B)(x \<mapsto> text_msg text_size lit)"
    by (rule managingE) blast
  obtain r where req: "c_request c = Some r" using W(2) by (auto simp: callback_ready_def sess_ok_def)
  have send: "sendable c w x" if "q = Some x" for x
  proof -
    have "msg_rep w x (text_msg text_size lit) (cstrz test_message)"
      using W(5) W(9) [OF that] text_size by (simp add: msg_rep_def text_msg_def)
    then show ?thesis using W(6) unfolding sendable_def by (force simp: text_msg_def)
  qed
  have "stepped a c s w qs cs (f (sess a c b s w))" using W(2-4) send by (rule step)
  then obtain r e n b' s' w' where
    u: "f (sess a c b s w) = Some (r, sess a (settle e (c\<lparr>c_pos := n\<rparr>)) b' s' w')"
    "callback_ready a (settle e (c\<lparr>c_pos := n\<rparr>)) b' s' w' qs cs None" "shrinks s s'" "grows (brk w) w w'"
    "tidy w w'"
    unfolding stepped_def by (elim exE conjE) (rule that)
  have "managing a lit q B (sess a (settle e (c\<lparr>c_pos := n\<rparr>)) b' s' w')"
    using u(2) whole_lists_shrinks [OF W(3) u(3)] writev_answers_shrinks [OF W(4) u(3)]
    by (rule managingI)
      (use W(5,6,8,9) grows_fields [OF u(4)] memory_kept_step [OF W(7) [unfolded W(1)] u(4,5) req] in simp_all)
  with u(1) [folded W(1)] show "\<exists>r W'. f W = Some (r, W') \<and> managing a lit q B W'" by blast
qed

lemma managing_call: "keeps (managing a lit q B) (run_call call (Some a))"
  by (rule managing_step) (rule sent_stepped, erule run_call_sent)

context request_builder
begin

lemma managing_query: "keeps (managing a lit q B) (emq_u32_query (Some a) build qcmd failed)"
  by (rule managing_step) (rule sent_stepped, erule query_sent)

end

section \<open>The commands of the program\<close>

lemma managing_calls:
  "keeps (managing a lit q B) (emq_auth (Some a) name password)"
  "keeps (managing a lit q B) (emq_ping (Some a))"
  "keeps (managing a lit q B) (emq_flush (Some a) flags)"
  "keeps (managing a lit q B) (emq_user_create (Some a) name password perm)"
  "keeps (managing a lit q B) (emq_user_rename (Some a) from_name to_name)"
  "keeps (managing a lit q B) (emq_user_set_perm (Some a) name perm)"
  "keeps (managing a lit q B) (emq_user_delete (Some a) name)"
  "keeps (managing a lit q B) (emq_queue_create (Some a) name max_msg max_msg_size flags)"
  "keeps (managing a lit q B) (emq_queue_delete (Some a) name)"
  "keeps (managing a lit q B) (emq_route_create (Some a) name flags)"
  "keeps (managing a lit q B) (emq_route_rename (Some a) from_name to_name)"
  "keeps (managing a lit q B) (emq_route_bind (Some a) name queue key)"
  "keeps (managing a lit q B) (emq_route_unbind (Some a) name queue key)"
  "keeps (managing a lit q B) (emq_route_delete (Some a) name)"
  "keeps (managing a lit q B) (emq_channel_create (Some a) name flags)"
  "keeps (managing a lit q B) (emq_channel_delete (Some a) name)"
  using managing_call [of a lit q B "Auth name password"]
    managing_call [of a lit q B "Ping"]
    managing_call [of a lit q B "Flush flags"]
    managing_call [of a lit q B "UserCreate name password perm"]
    managing_call [of a lit q B "UserRename from_name to_name"]
    managing_call [of a lit q B "UserSetPerm name perm"]
    managing_call [of a lit q B "UserDelete name"]
    managing_call [of a lit q B "QueueCreate name max_msg max_msg_size flags"]
    managing_call [of a lit q B "QueueDelete name"]
    managing_call [of a lit q B "RouteCreate name flags"]
    managing_call [of a lit q B "RouteRename from_name to_name"]
    managing_call [of a lit q B "RouteBind name queue key"]
    managing_call [of a lit q B "RouteUnbind name queue key"]
    managing_call [of a lit q B "RouteDelete name"]
    managing_call [of a lit q B "ChannelCreate name flags"]
    managing_call [of a lit q B "ChannelDelete name"]
  by (simp_all add: keeps_def)

lemma managing_queries:
  "keeps (managing a lit q B) (emq_queue_size (Some a) name)"
  "keeps (managing a lit q B) (emq_queue_exist (Some a) name)"
  "keeps (managing a lit q B) (emq_route_exist (Some a) name)"
  "keeps (managing a lit q B) (emq_channel_exist (Some a) name)"
  using queue_size_req.managing_query [of a lit q B name] queue_exist_req.managing_query [of a lit q B name]
    route_exist_req.managing_query [of a lit q B name] channel_exist_req.managing_query [of a lit q B name]
  by (simp_all add: keeps_def query_defs)

lemma managing_lists:
  "keeps (managing a lit q B) (read_list (emq_user_list (Some a)) user_value)"
  "keeps (managing a lit q B) (read_list (emq_queue_list (Some a)) queue_value)"
  "keeps (managing a lit q B) (read_list (emq_route_list (Some a)) route_value)"
  "keeps (managing a lit q B) (read_list (\<lambda>w. emq_route_keys (Some a) name w) route_key_value)"
  "keeps (managing a lit q B) (read_list (emq_channel_list (Some a)) channel_value)"
  by (rule managing_step, erule (1) lists_done)+

lemma managing_messages:
  "keeps (managing a lit (Some q) B) (emq_queue_push (Some a) name (Some q))"
  "keeps (managing a lit (Some q) B) (emq_route_push (Some a) name key (Some q))"
  by (rule managing_step, rule sent_stepped, rule messages_done; simp)+

lemma managing_create:
  assumes "managing a lit None B W"
  shows "\<exists>q W'. emq_msg_create (Some lit) text_size EMQ_ZEROCOPY_ON W = Some (q, W') \<and> managing a lit q B W'"
proof -
  from assms obtain c b s w qs cs where W: "W = sess a c b s w" "callback_ready a c b s w qs cs None" "whole_lists s"
    "writev_answers s" "bufs w lit = Some (map Some (cstrz test_message))" "c_request c \<noteq> Some lit"
    "memory_kept a B (sess a c b s w)" "msgs w = msgs B"
    by (rule managingE) blast
  have r: "sess_ok c b" "world_wf (sess a c b s w)" "client_lists c w qs cs" using W(2) by (simp_all add: callback_ready_def)
  have wf: "world_wf w" "a < brk w" "the (c_request c) < brk w" using r(2) by (simp_all add: world_wf_sess_iff)
  let ?w = "if alloc_ok w (brk w) then with_msg (text_msg text_size lit) w else w\<lparr>brk := Suc (brk w)\<rparr>"
  have made: "emq_msg_create (Some lit) text_size EMQ_ZEROCOPY_ON W
      = Some (if alloc_ok w (brk w) then Some (brk w) else None, sess a c b s ?w)"
    using text_msg_created [of W lit text_size] text_msg_failed [of W lit text_size]
    by (simp add: W(1) sess_def with_msg_def)
  have "world_wf ?w" using wf(1) by (auto simp: world_wf_def with_msg_def)
  then have "world_wf (sess a c b s ?w)" using wf(2,3) by (auto simp: world_wf_sess_iff with_msg_def)
  moreover have "client_lists c ?w qs cs"
    using r(3) by (simp add: client_lists_def list_rep_def with_msg_def is_queue_sub_def is_channel_sub_def)
  ultimately have "callback_ready a c b s ?w qs cs None" using r(1) by (simp add: callback_ready_def owned_msg_def)
  then have "managing a lit (if alloc_ok w (brk w) then Some (brk w) else None) B (sess a c b s ?w)"
    using W(3,4)
  proof (rule managingI)
    show "memory_kept a B (sess a c b s ?w)" using W(7) by (rule memory_kept_cong) (simp_all add: sess_def with_msg_def)
    have "msgs w (brk w) = None" using wf(1) by (simp add: world_wf_def)
    then show "msgs B x = None \<and> msgs ?w = (msgs B)(x \<mapsto> text_msg text_size lit)"
      if "(if alloc_ok w (brk w) then Some (brk w) else None) = Some x" for x
      using that W(8) by (auto simp: with_msg_def split: if_splits)
  qed (use W(5,6,8) in \<open>auto simp: with_msg_def split: if_splits\<close>)
  with made show ?thesis by blast
qed

lemma managing_release:
  assumes "managing a lit (Some q) B W"
  shows "\<exists>W'. emq_msg_release (Some q) W = Some W' \<and> managing a lit None B W'"
proof -
  from assms obtain c b s w qs cs where W: "W = sess a c b s w" "callback_ready a c b s w qs cs None" "whole_lists s"
    "writev_answers s" "bufs w lit = Some (map Some (cstrz test_message))" "c_request c \<noteq> Some lit"
    "memory_kept a B (sess a c b s w)" "msgs B q = None" "msgs w = (msgs B)(q \<mapsto> text_msg text_size lit)"
    by (rule managingE) blast
  have r: "sess_ok c b" "world_wf (sess a c b s w)" "client_lists c w qs cs" using W(2) by (simp_all add: callback_ready_def)
  let ?w = "w\<lparr>msgs := (msgs w)(q := None)\<rparr>"
  have freed: "emq_msg_release (Some q) W = Some (sess a c b s ?w)"
    using W(9) by (simp add: W(1) emq_msg_release_def text_msg_def EMQ_ZEROCOPY_ON_def free_msg_def)
  have "world_wf (sess a c b s ?w)" using r(2) by (auto simp: world_wf_sess_iff world_wf_def)
  moreover have "client_lists c ?w qs cs"
    using r(3) by (simp add: client_lists_def list_rep_def is_queue_sub_def is_channel_sub_def)
  ultimately have "callback_ready a c b s ?w qs cs None" using r(1) by (simp add: callback_ready_def owned_msg_def)
  then have "managing a lit None B (sess a c b s ?w)" using W(3,4)
  proof (rule managingI)
    show "memory_kept a B (sess a c b s ?w)" using W(7) by (rule memory_kept_cong) (simp_all add: sess_def)
    show "msgs ?w = msgs B" using W(8,9) by (simp add: fun_upd_idem)
  qed (use W(5,6) in simp_all)
  with freed show ?thesis by blast
qed

text \<open>The life of the message: from its creation to its release.\<close>

lemma managing_scope:
  assumes body: "\<And>q. keeps_state (managing a lit (Some q) B) (body (Some q))" and rest: "keeps (managing a lit None B) rest"
  shows "keeps (managing a lit None B) (\<lambda>w. Option.bind (emq_msg_create (Some lit) text_size EMQ_ZEROCOPY_ON w)
    (\<lambda>(msg, w). if msg = None then Some (Some 1, w)
       else Option.bind (body msg w) (\<lambda>w. Option.bind (emq_msg_release msg w) rest)))"
  unfolding keeps_def
proof (intro allI impI)
  fix W assume "managing a lit None B W"
  from managing_create [OF this] obtain q W1 where
    W1: "emq_msg_create (Some lit) text_size EMQ_ZEROCOPY_ON W = Some (q, W1)" "managing a lit q B W1" by blast
  show "\<exists>r W'. Option.bind (emq_msg_create (Some lit) text_size EMQ_ZEROCOPY_ON W)
    (\<lambda>(msg, w). if msg = None then Some (Some 1, w)
       else Option.bind (body msg w) (\<lambda>w. Option.bind (emq_msg_release msg w) rest)) = Some (r, W') \<and> managing a lit None B W'"
  proof (cases q)
    case None
    with W1 show ?thesis by simp
  next
    case (Some x)
    obtain W2 where W2: "body q W1 = Some W2" "managing a lit (Some x) B W2"
      using keeps_stateD [OF body] W1(2) Some by blast
    obtain W3 where W3: "emq_msg_release q W2 = Some W3" "managing a lit None B W3"
      using managing_release [OF W2(2)] Some by blast
    with W1(1) W2(1) Some keepsD [OF rest W3(2)] show ?thesis by simp
  qed
qed

section \<open>The parts of the program\<close>

lemmas managing_rules = managing_calls managing_queries managing_lists managing_messages

lemma managements_keep:
  "keeps_state (managing a lit None B) (user_management (Some a))"
  "keeps_state (managing a lit None B) (channel_management (Some a))"
  "keeps (managing a lit None B) (route_management (Some lit) (Some a))"
proof -
  show "keeps_state (managing a lit None B) (user_management (Some a))"
    unfolding user_management_def by (intro keeps_rules managing_rules)
  show "keeps_state (managing a lit None B) (channel_management (Some a))"
    unfolding channel_management_def by (intro keeps_rules managing_rules)
  show "keeps (managing a lit None B) (route_management (Some lit) (Some a))"
    unfolding route_management_def
    by (rule managing_scope keeps_bind managing_rules)+ (intro keeps_rules managing_rules)+
qed

text \<open>
  The loop over \<open>queue-2\<close> goes on only while no message comes: the tag is read from a message that
  has been released.
\<close>

lemma pop_message_iff: "pop_message client w = Some w' \<longleftrightarrow> emq_queue_pop client (ascii ''queue-2'') 1000 w = Some (None, w')"
proof -
  have gone: "emq_msg_tag (Some q) u' = None" if "emq_msg_release (Some q) u = Some u'" for q u u'
    using that by (auto simp: emq_msg_release_def emq_msg_tag_def mem_defs split: bind_splits if_splits)
  show ?thesis
  proof (cases "emq_queue_pop client (ascii ''queue-2'') 1000 w")
    case (Some r)
    obtain q u where "r = (q, u)" by (cases r)
    with Some show ?thesis
      by (cases q) (auto simp: pop_message_def gone split: bind_splits)
  qed (simp add: pop_message_def)
qed

text \<open>
  \<open>basic\<close> prints the statistics although it may have none: whatever happens before, it ends when
  \<open>emq_stat\<close> has filled them, and is undefined when the call has failed.
\<close>

lemma managing_stat:
  assumes "managing a lit q B W"
  shows "\<exists>status stat W'. emq_stat (Some a) W = Some ((status, stat), W') \<and> managing a lit q B W' \<and>
    (stat = None \<longleftrightarrow> status \<noteq> EMQ_STATUS_OK)"
proof -
  have "keeps (managing a lit q B) (emq_stat (Some a))"
  proof (rule managing_step)
    fix c b s w qs cs assume ready: "callback_ready a c b s w qs cs None"
    then have "sess_ok c b" by (simp add: callback_ready_def)
    from emq_stat_sess [OF this, of a s w] obtain e v n b' s' where u:
      "emq_stat (Some a) (sess a c b s w) = Some ((result_of e, if e = None then Some v else None),
         sess a (settle e (c\<lparr>c_pos := n\<rparr>)) b' s' w)" "sess_ok c b'" "shrinks s s'"
      by (elim exE conjE) (rule that)
    show "stepped a c s w qs cs (emq_stat (Some a) (sess a c b s w))"
      using u(1) ready u(2,3) by (rule steppedI)
  qed
  from keepsD [OF this assms] obtain r W' where
    run: "emq_stat (Some a) W = Some (r, W')" "managing a lit q B W'" by blast
  from assms obtain c b s w qs cs where W: "W = sess a c b s w" "callback_ready a c b s w qs cs None"
    by (rule managingE) blast
  then have "sess_ok c b" by (simp add: callback_ready_def)
  from emq_stat_sess [OF this, of a s w] run(1) have "\<exists>e v. r = (result_of e, if e = None then Some v else None)"
    by (auto simp: W(1))
  then obtain e v where r: "r = (result_of e, if e = None then Some v else None)" by blast
  show ?thesis by (cases e) (use run r in simp_all)
qed

lemma basic_cases:
  assumes "managing a lit q B W"
  shows "\<exists>r1 W1 r2 W2 status stat W3. emq_auth (Some a) (ascii ''eagle'') (ascii ''eagle'') W = Some (r1, W1) \<and>
    emq_ping (Some a) W1 = Some (r2, W2) \<and> emq_stat (Some a) W2 = Some ((status, stat), W3) \<and> managing a lit q B W3 \<and>
    basic (Some a) W = (if status = EMQ_STATUS_OK then Some W3 else None)"
proof -
  obtain r1 W1 where 1: "emq_auth (Some a) (ascii ''eagle'') (ascii ''eagle'') W = Some (r1, W1)" "managing a lit q B W1"
    using keepsD [OF managing_calls(1) assms] by blast
  obtain r2 W2 where 2: "emq_ping (Some a) W1 = Some (r2, W2)" "managing a lit q B W2"
    using keepsD [OF managing_calls(2) 1(2)] by blast
  obtain status stat W3 where 3: "emq_stat (Some a) W2 = Some ((status, stat), W3)" "managing a lit q B W3"
    "stat = None \<longleftrightarrow> status \<noteq> EMQ_STATUS_OK" using managing_stat [OF 2(2)] by blast
  have "basic (Some a) W = (if status = EMQ_STATUS_OK then Some W3 else None)"
    using 1(1) 2(1) 3(1,3) by (cases stat) (auto simp: basic_def)
  with 1(1) 2(1) 3(1,2) show ?thesis by blast
qed

end
