(* ===== verification/Emq_Benchmark.thy ===== *)
theory Emq_Benchmark
  imports Emq_Send "HOL-Library.Signed_Division"
begin

text \<open>
  The program \<^verbatim>\<open>src/src/benchmark.c\<close>: its configuration and command line, the message it makes,
  the thread that pushes messages, what is done on the server before and after, and \<open>main\<close>. The clock
  and the printing are not modelled. The lemmas give the command line as a set of options, every
  outcome of making the message, what each part leaves of the memory, and that the program ends.
\<close>

section \<open>The configuration\<close>

record config =
  cfg_host :: string
  cfg_port :: int
  cfg_unix_socket :: "string option"
  cfg_user_name :: string
  cfg_user_password :: string
  cfg_clients :: int
  cfg_messages :: int
  cfg_msg_size :: int
  cfg_expiration :: int
  cfg_noack :: int

definition init_config :: config where
  "init_config = \<lparr>cfg_host = ''localhost'', cfg_port = 7851, cfg_unix_socket = None, cfg_user_name = ''eagle'',
     cfg_user_password = ''eagle'', cfg_clients = 50, cfg_messages = 100000, cfg_msg_size = 1000,
     cfg_expiration = 0, cfg_noack = 0\<rparr>"

text \<open>The values of a C \<open>int\<close>.\<close>

definition is_int :: "int \<Rightarrow> bool" where
  "is_int n \<longleftrightarrow> - (2 ^ 31) \<le> n \<and> n < 2 ^ 31"

text \<open>
  \<open>atoi\<close>: white space, a sign, digits; what follows is not looked at. The result is undefined when
  it is not an \<open>int\<close>.
\<close>

definition isspace :: "char \<Rightarrow> bool" where
  "isspace c \<longleftrightarrow> (let n = (of_char c :: nat) in n = 32 \<or> 9 \<le> n \<and> n \<le> 13)"

definition isdigit :: "char \<Rightarrow> bool" where
  "isdigit c \<longleftrightarrow> (let n = (of_char c :: nat) in 48 \<le> n \<and> n \<le> 57)"

definition digits :: "string \<Rightarrow> int" where
  "digits s = foldl (\<lambda>n c. 10 * n + (of_char c - 48)) 0 (takeWhile isdigit s)"

definition atoi :: "string \<Rightarrow> int option" where
  "atoi s = (
     let s = dropWhile isspace s;
         n = (case s of
             [] \<Rightarrow> 0
           | c # cs \<Rightarrow> if c = CHR ''-'' then - digits cs else if c = CHR ''+'' then digits cs else digits s)
     in if is_int n then Some n else None)"

text \<open>
  The loop of \<open>parse_args\<close> from the argument at \<open>i\<close> on; no argument follows the last one. The
  argument after an option is its value, and is then looked at as an option itself. \<open>Inl\<close> is the
  status of \<open>exit\<close>.
\<close>

fun parse_args :: "string list \<Rightarrow> config \<Rightarrow> (int + config) option" where
  "parse_args [] cfg = Some (Inr cfg)"
| "parse_args (arg # rest) cfg = (
     let last_arg = (rest = []) in
     if arg = ''-h'' \<and> \<not> last_arg then parse_args rest (cfg\<lparr>cfg_host := hd rest\<rparr>)
     else if arg = ''-p'' \<and> \<not> last_arg then do {
       n \<leftarrow> atoi (hd rest);
       parse_args rest (cfg\<lparr>cfg_port := n\<rparr>) }
     else if arg = ''-u'' \<and> \<not> last_arg then parse_args rest (cfg\<lparr>cfg_unix_socket := Some (hd rest)\<rparr>)
     else if arg = ''--name'' \<and> \<not> last_arg then parse_args rest (cfg\<lparr>cfg_user_name := hd rest\<rparr>)
     else if arg = ''--password'' \<and> \<not> last_arg then parse_args rest (cfg\<lparr>cfg_user_password := hd rest\<rparr>)
     else if arg = ''-c'' \<and> \<not> last_arg then do {
       n \<leftarrow> atoi (hd rest);
       parse_args rest (cfg\<lparr>cfg_clients := n\<rparr>) }
     else if arg = ''-m'' \<and> \<not> last_arg then do {
       n \<leftarrow> atoi (hd rest);
       parse_args rest (cfg\<lparr>cfg_messages := n\<rparr>) }
     else if arg = ''-s'' \<and> \<not> last_arg then do {
       n \<leftarrow> atoi (hd rest);
       parse_args rest (cfg\<lparr>cfg_msg_size := n\<rparr>) }
     else if arg = ''-e'' \<and> \<not> last_arg then do {
       n \<leftarrow> atoi (hd rest);
       parse_args rest (cfg\<lparr>cfg_expiration := n\<rparr>) }
     else if arg = ''--noack'' then parse_args rest (cfg\<lparr>cfg_noack := 1\<rparr>)
     else if arg = ''-h'' \<or> arg = ''--help'' then Some (Inl 0)
     else parse_args rest cfg)"

text \<open>\<open>total_bytes\<close> of \<open>print_statistics\<close>: a product of two \<open>int\<close>s.\<close>

definition total_bytes :: "config \<Rightarrow> int option" where
  "total_bytes cfg = (let n = cfg_messages cfg * cfg_msg_size cfg in if is_int n then Some n else None)"

section \<open>The message\<close>

text \<open>The outcomes of \<open>rand\<close> are a sequence chosen by the environment.\<close>

definition random_char :: "nat \<Rightarrow> byte" where
  "random_char r = (
     let rand_char = r mod (26 + 26 + 10) in
     if rand_char < 26 then word_of_nat (97 + rand_char)
     else if rand_char < 26 + 26 then word_of_nat (65 + rand_char - 26)
     else word_of_nat (48 + rand_char - 26 - 26))"

fun random_chars :: "(nat \<Rightarrow> nat) \<Rightarrow> ptr \<Rightarrow> nat \<Rightarrow> nat \<Rightarrow> world \<Rightarrow> world option" where
  "random_chars rand str i 0 w = Some w"
| "random_chars rand str i (Suc n) w = do {
     w \<leftarrow> buf_store str i [random_char (rand i)] w;
     random_chars rand str (Suc i) n w }"

definition generate_string :: "(nat \<Rightarrow> nat) \<Rightarrow> ptr \<Rightarrow> int \<Rightarrow> world \<Rightarrow> world option" where
  "generate_string rand str len w = do {
     w \<leftarrow> random_chars rand str 0 (nat len) w;
     if len < 0 then None else buf_store str (nat len) [0] w }"

text \<open>\<open>init_message\<close> returns the pointer it stores in \<open>message_data\<close>.\<close>

definition init_message :: "(nat \<Rightarrow> nat) \<Rightarrow> config \<Rightarrow> world \<Rightarrow> ((int + addr) \<times> world) option" where
  "init_message rand cfg w = (
     if \<not> is_int (cfg_msg_size cfg + 1) then None
     else case buf_alloc (unat (word_of_int (cfg_msg_size cfg + 1) :: size_t)) w of
       (None, w) \<Rightarrow> Some (Inl (-1), w)
     | (Some p, w) \<Rightarrow> do {
         w \<leftarrow> generate_string rand (Some p) (cfg_msg_size cfg) w;
         Some (Inr p, w) })"

section \<open>The client side\<close>

definition QUEUE_NAME :: bytes where
  "QUEUE_NAME = ascii ''.queue-benchmark''"

definition benchmark_connect :: "config \<Rightarrow> world \<Rightarrow> (ptr \<times> world) option" where
  "benchmark_connect cfg w = (
     if cfg_unix_socket cfg = None then emq_tcp_connect (cfg_host cfg) w else emq_unix_connect w)"

text \<open>The loop of \<open>worker\<close>: whether every push succeeded; the first that fails ends the thread.\<close>

fun push_messages :: "nat \<Rightarrow> ptr \<Rightarrow> ptr \<Rightarrow> world \<Rightarrow> (bool \<times> world) option" where
  "push_messages 0 client message w = Some (True, w)"
| "push_messages (Suc n) client message w = do {
     (status, w) \<leftarrow> emq_queue_push client QUEUE_NAME message w;
     if status \<noteq> EMQ_STATUS_OK then Some (False, w)
     else push_messages n client message w }"

text \<open>\<open>config.messages / config.clients\<close>, a division of \<open>int\<close>s.\<close>

definition messages_per_client :: "config \<Rightarrow> int option" where
  "messages_per_client cfg = (
     if cfg_clients cfg = 0 then None
     else let n = cfg_messages cfg sdiv cfg_clients cfg in if is_int n then Some n else None)"

definition worker :: "config \<Rightarrow> ptr \<Rightarrow> world \<Rightarrow> world option" where
  "worker cfg message_data w = do {
     msg \<leftarrow> messages_per_client cfg;
     (client, w) \<leftarrow> benchmark_connect cfg w;
     if client \<noteq> None then do {
       w \<leftarrow> (if cfg_noack cfg \<noteq> 0 then emq_noack_enable client w else Some w);
       (status, w) \<leftarrow> emq_auth client (ascii (cfg_user_name cfg)) (ascii (cfg_user_password cfg)) w;
       (status, w) \<leftarrow> emq_queue_declare client QUEUE_NAME w;
       (message, w) \<leftarrow> emq_msg_create message_data (word_of_int (cfg_msg_size cfg)) EMQ_ZEROCOPY_ON w;
       w \<leftarrow> emq_msg_expire message (word_of_int (cfg_expiration cfg)) w;
       (all_sent, w) \<leftarrow> push_messages (nat msg) client message w;
       if \<not> all_sent then Some w
       else do {
         w \<leftarrow> emq_msg_release message w;
         emq_disconnect client w } }
     else Some w }"

text \<open>The result of both is the status of \<open>exit\<close>, if they end the program.\<close>

definition setup_server :: "config \<Rightarrow> world \<Rightarrow> (int option \<times> world) option" where
  "setup_server cfg w = do {
     (client, w) \<leftarrow> benchmark_connect cfg w;
     if client \<noteq> None then do {
       (status, w) \<leftarrow> emq_auth client (ascii (cfg_user_name cfg)) (ascii (cfg_user_password cfg)) w;
       if status \<noteq> EMQ_STATUS_OK then do {
         w \<leftarrow> emq_disconnect client w;
         Some (Some (-1), w) }
       else do {
         (status, w) \<leftarrow> emq_queue_exist client QUEUE_NAME w;
         (status, w) \<leftarrow> (if status \<noteq> 0 then emq_queue_delete client QUEUE_NAME w else Some (status, w));
         (status, w) \<leftarrow> emq_queue_create client QUEUE_NAME EMQ_MAX_MSG EMQ_MAX_MSG_SIZE 0 w;
         if status \<noteq> EMQ_STATUS_OK then do {
           w \<leftarrow> emq_disconnect client w;
           Some (Some (-1), w) }
         else do {
           w \<leftarrow> emq_disconnect client w;
           Some (None, w) } } }
     else Some (Some (-1), w) }"

definition cleanup_server :: "config \<Rightarrow> world \<Rightarrow> (int option \<times> world) option" where
  "cleanup_server cfg w = do {
     (client, w) \<leftarrow> benchmark_connect cfg w;
     if client \<noteq> None then do {
       (status, w) \<leftarrow> emq_auth client (ascii (cfg_user_name cfg)) (ascii (cfg_user_password cfg)) w;
       (status, w) \<leftarrow> emq_queue_exist client QUEUE_NAME w;
       (status, w) \<leftarrow> (if status \<noteq> 0 then do {
           (size, w) \<leftarrow> emq_queue_size client QUEUE_NAME w;
           emq_queue_delete client QUEUE_NAME w }
         else Some (status, w));
       w \<leftarrow> emq_disconnect client w;
       Some (None, w) }
     else Some (Some (-1), w) }"

section \<open>The threads and the program\<close>

text \<open>
  \<open>create i\<close> is what \<open>pthread_create\<close> makes of the \<open>i\<close>-th thread: the eight bytes of its handle, or
  an error. The handles lie in the block \<open>threads\<close>; joining reads them.
\<close>

fun create_threads :: "(nat \<Rightarrow> bytes option) \<Rightarrow> addr \<Rightarrow> nat \<Rightarrow> nat \<Rightarrow> world \<Rightarrow> (bool \<times> world) option" where
  "create_threads create threads i 0 w = Some (True, w)"
| "create_threads create threads i (Suc n) w = (case create i of
     None \<Rightarrow> Some (False, w)
   | Some handle \<Rightarrow> do {
       w \<leftarrow> buf_store (Some threads) (8 * i) handle w;
       create_threads create threads (Suc i) n w })"

definition init_threads :: "(nat \<Rightarrow> bytes option) \<Rightarrow> config \<Rightarrow> world \<Rightarrow> ((int + addr) \<times> world) option" where
  "init_threads create cfg w = (case buf_alloc (unat (8 * word_of_int (cfg_clients cfg) :: size_t)) w of
     (None, w) \<Rightarrow> Some (Inl (-1), w)
   | (Some threads, w) \<Rightarrow> do {
       (all_created, w) \<leftarrow> create_threads create threads 0 (nat (cfg_clients cfg)) w;
       Some (if all_created then Inr threads else Inl (-1), w) })"

fun join_threads :: "addr \<Rightarrow> nat \<Rightarrow> nat \<Rightarrow> world \<Rightarrow> world option" where
  "join_threads threads i 0 w = Some w"
| "join_threads threads i (Suc n) w = do {
     handle \<leftarrow> buf_load (Some threads) (8 * i) 8 w;
     join_threads threads (Suc i) n w }"

definition process_threads :: "config \<Rightarrow> addr \<Rightarrow> world \<Rightarrow> world option" where
  "process_threads cfg threads w = join_threads threads 0 (nat (cfg_clients cfg)) w"

text \<open>
  \<open>main\<close>, with its exit status. What the threads do until the last of them is joined is the
  parameter \<open>run\<close>, a function of the configuration, the message and the world; it stands for the
  schedule, and \<open>workers_in_turn\<close> is the one in which each thread runs to its end before the next.
\<close>

definition workers_in_turn :: "config \<Rightarrow> ptr \<Rightarrow> world \<Rightarrow> world option" where
  "workers_in_turn cfg message_data w = for_times (nat (cfg_clients cfg)) (worker cfg message_data) w"

definition benchmark_main :: "(nat \<Rightarrow> nat) \<Rightarrow> (nat \<Rightarrow> bytes option) \<Rightarrow> (config \<Rightarrow> ptr \<Rightarrow> world \<Rightarrow> world option) \<Rightarrow>
    string list \<Rightarrow> world \<Rightarrow> (int \<times> world) option" where
  "benchmark_main rand create run args w = do {
     parsed \<leftarrow> parse_args args init_config;
     case parsed of
       Inl code \<Rightarrow> Some (code, w)
     | Inr cfg \<Rightarrow> do {
         (left, w) \<leftarrow> setup_server cfg w;
         case left of
           Some code \<Rightarrow> Some (code, w)
         | None \<Rightarrow> do {
             (message, w) \<leftarrow> init_message rand cfg w;
             case message of
               Inl code \<Rightarrow> Some (code, w)
             | Inr message_data \<Rightarrow> do {
                 (handles, w) \<leftarrow> init_threads create cfg w;
                 case handles of
                   Inl code \<Rightarrow> Some (code, w)
                 | Inr threads \<Rightarrow> do {
                     w \<leftarrow> run cfg (Some message_data) w;
                     w \<leftarrow> process_threads cfg threads w;
                     bytes \<leftarrow> total_bytes cfg;
                     w \<leftarrow> free_buf (Some message_data) w;
                     w \<leftarrow> free_buf (Some threads) w;
                     (left, w) \<leftarrow> cleanup_server cfg w;
                     Some (case left of Some code \<Rightarrow> code | None \<Rightarrow> 0, w) } } } } }"

section \<open>The command line as a whole\<close>

text \<open>The argument after the last occurrence of an option that is not the last argument.\<close>

primrec option_value :: "string \<Rightarrow> string list \<Rightarrow> string option" where
  "option_value name [] = None"
| "option_value name (arg # rest) = (case option_value name rest of
     Some v \<Rightarrow> Some v
   | None \<Rightarrow> if arg = name \<and> rest \<noteq> [] then Some (hd rest) else None)"

definition number_value :: "string \<Rightarrow> string list \<Rightarrow> int \<Rightarrow> int" where
  "number_value name args n = (case Option.bind (option_value name args) atoi of Some k \<Rightarrow> k | None \<Rightarrow> n)"

definition configured :: "string list \<Rightarrow> config \<Rightarrow> config" where
  "configured args cfg = cfg\<lparr>
     cfg_host := (case option_value ''-h'' args of Some v \<Rightarrow> v | None \<Rightarrow> cfg_host cfg),
     cfg_port := number_value ''-p'' args (cfg_port cfg),
     cfg_unix_socket := (case option_value ''-u'' args of Some v \<Rightarrow> Some v | None \<Rightarrow> cfg_unix_socket cfg),
     cfg_user_name := (case option_value ''--name'' args of Some v \<Rightarrow> v | None \<Rightarrow> cfg_user_name cfg),
     cfg_user_password := (case option_value ''--password'' args of Some v \<Rightarrow> v | None \<Rightarrow> cfg_user_password cfg),
     cfg_clients := number_value ''-c'' args (cfg_clients cfg),
     cfg_messages := number_value ''-m'' args (cfg_messages cfg),
     cfg_msg_size := number_value ''-s'' args (cfg_msg_size cfg),
     cfg_expiration := number_value ''-e'' args (cfg_expiration cfg),
     cfg_noack := (if ''--noack'' \<in> set args then 1 else cfg_noack cfg)\<rparr>"

definition numeric_options :: "string list" where
  "numeric_options = [''-p'', ''-c'', ''-m'', ''-s'', ''-e'']"

text \<open>The argument after each numeric option is a number that fits.\<close>

fun numbers_fit :: "string list \<Rightarrow> bool" where
  "numbers_fit (arg # v # rest) \<longleftrightarrow> (arg \<in> set numeric_options \<longrightarrow> atoi v \<noteq> None) \<and> numbers_fit (v # rest)"
| "numbers_fit _ \<longleftrightarrow> True"

definition asks_usage :: "string list \<Rightarrow> bool" where
  "asks_usage args \<longleftrightarrow> ''--help'' \<in> set args \<or> args \<noteq> [] \<and> last args = ''-h''"

lemma option_value_atoi:
  "numbers_fit args \<Longrightarrow> name \<in> set numeric_options \<Longrightarrow> option_value name args = Some v \<Longrightarrow> atoi v \<noteq> None"
  by (induction args rule: numbers_fit.induct) (auto split: option.splits if_splits)

lemma option_value_step:
  "(case option_value name (arg # v # rest) of Some u \<Rightarrow> f u | None \<Rightarrow> d)
     = (case option_value name (v # rest) of Some u \<Rightarrow> f u | None \<Rightarrow> if arg = name then f v else d)"
  by (simp split: option.splits)

lemma number_value_step:
  assumes "numbers_fit (arg # v # rest)" and "name \<in> set numeric_options"
  shows "number_value name (arg # v # rest) n = number_value name (v # rest) (if arg = name then the (atoi v) else n)"
  using assms option_value_atoi [of "v # rest" name]
  by (auto simp: number_value_def split: option.splits)

text \<open>What one option with its value changes.\<close>

definition take_option :: "string \<Rightarrow> string \<Rightarrow> config \<Rightarrow> config" where
  "take_option arg v cfg = cfg\<lparr>
     cfg_host := (if arg = ''-h'' then v else cfg_host cfg),
     cfg_port := (if arg = ''-p'' then the (atoi v) else cfg_port cfg),
     cfg_unix_socket := (if arg = ''-u'' then Some v else cfg_unix_socket cfg),
     cfg_user_name := (if arg = ''--name'' then v else cfg_user_name cfg),
     cfg_user_password := (if arg = ''--password'' then v else cfg_user_password cfg),
     cfg_clients := (if arg = ''-c'' then the (atoi v) else cfg_clients cfg),
     cfg_messages := (if arg = ''-m'' then the (atoi v) else cfg_messages cfg),
     cfg_msg_size := (if arg = ''-s'' then the (atoi v) else cfg_msg_size cfg),
     cfg_expiration := (if arg = ''-e'' then the (atoi v) else cfg_expiration cfg),
     cfg_noack := (if arg = ''--noack'' then 1 else cfg_noack cfg)\<rparr>"

lemma take_option_sel:
  "cfg_host (take_option arg v cfg) = (if arg = ''-h'' then v else cfg_host cfg)"
  "cfg_port (take_option arg v cfg) = (if arg = ''-p'' then the (atoi v) else cfg_port cfg)"
  "cfg_unix_socket (take_option arg v cfg) = (if arg = ''-u'' then Some v else cfg_unix_socket cfg)"
  "cfg_user_name (take_option arg v cfg) = (if arg = ''--name'' then v else cfg_user_name cfg)"
  "cfg_user_password (take_option arg v cfg) = (if arg = ''--password'' then v else cfg_user_password cfg)"
  "cfg_clients (take_option arg v cfg) = (if arg = ''-c'' then the (atoi v) else cfg_clients cfg)"
  "cfg_messages (take_option arg v cfg) = (if arg = ''-m'' then the (atoi v) else cfg_messages cfg)"
  "cfg_msg_size (take_option arg v cfg) = (if arg = ''-s'' then the (atoi v) else cfg_msg_size cfg)"
  "cfg_expiration (take_option arg v cfg) = (if arg = ''-e'' then the (atoi v) else cfg_expiration cfg)"
  "cfg_noack (take_option arg v cfg) = (if arg = ''--noack'' then 1 else cfg_noack cfg)"
  by (simp_all add: take_option_def)

lemma configured_step:
  assumes "numbers_fit (arg # v # rest)"
  shows "configured (arg # v # rest) cfg = configured (v # rest) (take_option arg v cfg)"
proof (rule config.equality)
  show "cfg_noack (configured (arg # v # rest) cfg) = cfg_noack (configured (v # rest) (take_option arg v cfg))"
    by (auto simp: configured_def take_option_sel)
qed (simp_all add: option_value_step number_value_step [OF assms] configured_def take_option_sel numeric_options_def
    take_option_def [THEN arg_cong [where f = config.more]] del: option_value.simps split: option.split)

declare parse_args.simps(2) [simp del]

lemma asks_usage_step: "asks_usage (arg # v # rest) \<longleftrightarrow> arg = ''--help'' \<or> asks_usage (v # rest)"
  by (auto simp: asks_usage_def)

lemma parse_args_option:
  assumes "arg \<in> set numeric_options \<Longrightarrow> atoi v \<noteq> None" and "arg \<noteq> ''--help''"
  shows "parse_args (arg # v # rest) cfg = parse_args (v # rest) (take_option arg v cfg)"
proof -
  consider (number) n where "arg \<in> set numeric_options" "atoi v = Some n"
    | (word) "arg \<in> {''-h'', ''-u'', ''--name'', ''--password'', ''--noack''}"
    | (other) "arg \<notin> set numeric_options" "arg \<notin> {''-h'', ''-u'', ''--name'', ''--password'', ''--noack''}"
    using assms(1) by blast
  then show ?thesis
  proof cases
    case number
    then have "arg \<in> {''-p'', ''-c'', ''-m'', ''-s'', ''-e''}" by (simp add: numeric_options_def)
    with number(2) show ?thesis
      by (elim insertE emptyE; cases cfg; simp add: parse_args.simps(2) [where rest = "v # rest"] take_option_def)
  next
    case word
    then show ?thesis
      by (elim insertE emptyE; cases cfg; simp add: parse_args.simps(2) [where rest = "v # rest"] take_option_def)
  next
    case other
    then show ?thesis
      using assms(2)
      by (cases cfg) (simp add: parse_args.simps(2) [where rest = "v # rest"] take_option_def numeric_options_def)
  qed
qed

text \<open>The loop and the values of the options are the same.\<close>

lemma parse_args_configured:
  "numbers_fit args \<Longrightarrow> parse_args args cfg = Some (if asks_usage args then Inl 0 else Inr (configured args cfg))"
proof (induction args arbitrary: cfg rule: numbers_fit.induct)
  case (1 arg v rest)
  show ?case
  proof (cases "arg = ''--help''")
    case True
    then show ?thesis by (simp add: asks_usage_step, subst parse_args.simps(2), simp)
  next
    case False
    with 1 show ?thesis by (simp add: parse_args_option configured_step asks_usage_step)
  qed
next
  case "2_1"
  then show ?case by (cases cfg) (simp add: asks_usage_def configured_def number_value_def)
next
  case "2_2"
  then show ?case by (cases cfg) (simp add: parse_args.simps(2) asks_usage_def configured_def number_value_def)
qed

lemma parse_args_numbers: "parse_args args cfg = Some (Inr cfg') \<Longrightarrow> numbers_fit args"
proof (induction args arbitrary: cfg rule: numbers_fit.induct)
  case (1 arg v rest)
  have "arg \<noteq> ''--help''" using 1(2) by (auto simp: parse_args.simps(2) [where rest = "v # rest"])
  moreover have "atoi v \<noteq> None" if "arg \<in> set numeric_options"
    using 1(2) that by (auto simp: parse_args.simps(2) [where rest = "v # rest"] numeric_options_def bind_eq_Some_conv)
  ultimately show ?case using 1 parse_args_option [of arg v rest cfg] by auto
qed simp_all

lemma parse_args_iff:
  "parse_args args cfg = Some (Inr cfg') \<longleftrightarrow> numbers_fit args \<and> \<not> asks_usage args \<and> cfg' = configured args cfg"
  using parse_args_configured [of args cfg] parse_args_numbers [of args cfg cfg'] by (auto split: if_splits)

definition config_ints :: "config \<Rightarrow> bool" where
  "config_ints cfg \<longleftrightarrow> (\<forall>n \<in> {cfg_port cfg, cfg_clients cfg, cfg_messages cfg, cfg_msg_size cfg, cfg_expiration cfg,
     cfg_noack cfg}. is_int n)"

lemma atoi_int: "atoi s = Some n \<Longrightarrow> is_int n"
  by (simp add: atoi_def Let_def split: if_splits)

lemma number_value_int: "is_int n \<Longrightarrow> is_int (number_value name args n)"
  by (auto simp: number_value_def intro: atoi_int split: option.split bind_splits)

lemma configured_ints: "config_ints cfg \<Longrightarrow> config_ints (configured args cfg)"
  by (simp add: config_ints_def configured_def number_value_int) (simp add: is_int_def)

section \<open>The text of the message\<close>

definition alphanumeric :: "byte \<Rightarrow> bool" where
  "alphanumeric b \<longleftrightarrow> (let n = unat b in 48 \<le> n \<and> n \<le> 57 \<or> 65 \<le> n \<and> n \<le> 90 \<or> 97 \<le> n \<and> n \<le> 122)"

lemma random_char_alphanumeric: "alphanumeric (random_char r)"
proof -
  have small: "unat (word_of_nat n :: byte) = n" if "n < 256" for n
    using that by (simp add: unsigned_of_nat take_bit_nat_eq_self)
  have "r mod 62 < 62" by simp
  moreover have "unat (random_char r) = (let k = r mod 62 in if k < 26 then 97 + k else if k < 52 then 39 + k else k - 4)"
    by (simp add: random_char_def Let_def small del: of_nat_add of_nat_diff)
  ultimately show ?thesis by (simp add: alphanumeric_def Let_def) linarith
qed

lemma random_chars_fill:
  "bufs w p = Some b \<Longrightarrow> i + n \<le> length b \<Longrightarrow>
   random_chars rand (Some p) i n w = Some (w\<lparr>bufs := (bufs w)(p \<mapsto>
     take i b @ map (\<lambda>j. Some (random_char (rand j))) [i ..< i + n] @ drop (i + n) b)\<rparr>)"
proof (induction n arbitrary: i w b)
  case 0
  then show ?case by (simp add: fun_upd_idem)
next
  case (Suc n)
  let ?b = "take i b @ [Some (random_char (rand i))] @ drop (Suc i) b"
  have "random_chars rand (Some p) (Suc i) n (w\<lparr>bufs := (bufs w)(p \<mapsto> ?b)\<rparr>)
      = Some (w\<lparr>bufs := (bufs w)(p \<mapsto> take (Suc i) ?b @
          map (\<lambda>j. Some (random_char (rand j))) [Suc i ..< Suc i + n] @ drop (Suc i + n) ?b)\<rparr>)"
    using Suc.prems by (subst Suc.IH [where b = ?b]) simp_all
  moreover have "take (Suc i) ?b = take i b @ [Some (random_char (rand i))]" using Suc.prems(2) by simp
  moreover have "drop (Suc i + n) ?b = drop (i + Suc n) b" using Suc.prems(2) by (simp add: add.commute)
  moreover have "[i ..< Suc (i + n)] = i # [Suc i ..< Suc (i + n)]" by (rule upt_conv_Cons) simp
  ultimately show ?case using Suc.prems by (simp add: buf_store_def add.commute fun_upd_def del: upt_Suc)
qed

definition random_text :: "(nat \<Rightarrow> nat) \<Rightarrow> nat \<Rightarrow> bytes" where
  "random_text rand n = map (\<lambda>j. random_char (rand j)) [0 ..< n]"

lemma random_text_alphanumeric: "length (random_text rand n) = n \<and> (\<forall>b \<in> set (random_text rand n). alphanumeric b)"
  by (auto simp: random_text_def random_char_alphanumeric)

lemma generate_string_done:
  assumes "bufs w p = Some b" and "length b = Suc n"
  shows "generate_string rand (Some p) (int n) w = Some (w\<lparr>bufs := (bufs w)(p \<mapsto> map Some (random_text rand n @ [0]))\<rparr>)"
  using assms by (simp add: generate_string_def random_chars_fill buf_store_def random_text_def comp_def)

text \<open>Every outcome of \<open>init_message\<close>.\<close>

lemma init_message_cases:
  assumes "is_int (cfg_msg_size cfg)"
  shows "init_message rand cfg w = (
    if cfg_msg_size cfg = 2 ^ 31 - 1 then None
    else if cfg_msg_size cfg < -1 \<or> \<not> alloc_ok w (brk w) then Some (Inl (-1), w\<lparr>brk := Suc (brk w)\<rparr>)
    else if cfg_msg_size cfg = -1 then None
    else Some (Inr (brk w), w\<lparr>brk := Suc (brk w), bufs := (bufs w)(brk w \<mapsto>
      map Some (random_text rand (nat (cfg_msg_size cfg)) @ [0]))\<rparr>))"
proof -
  let ?n = "cfg_msg_size cfg"
  let ?k = "unat (word_of_int (?n + 1) :: size_t)"
  have "uint (word_of_int m :: size_t) = m mod 2 ^ 64" for m by (simp add: unsigned_of_int take_bit_eq_mod)
  then have k: "?k = nat ((?n + 1) mod 2 ^ 64)" by (simp only: unat_eq_nat_uint)
  consider "?n = 2 ^ 31 - 1" | "?n < -1" | "?n = -1" | "0 \<le> ?n" "?n < 2 ^ 31 - 1"
    using assms by (fastforce simp: is_int_def)
  then show ?thesis
  proof cases
    case 1
    then show ?thesis by (simp add: init_message_def is_int_def)
  next
    case 2
    have "(?n + 1) mod 2 ^ 64 = (?n + 1 + 2 ^ 64) mod 2 ^ 64" by (rule mod_add_self2 [symmetric])
    also have "\<dots> = ?n + 1 + 2 ^ 64"
      using 2 assms by (intro mod_pos_pos_trivial) (simp_all add: is_int_def)
    finally have "?k = nat (?n + 1 + 2 ^ 64)" unfolding k by (rule arg_cong)
    moreover have "\<not> nat (m + 1 + 2 ^ 64) < 2 ^ 63" if "- (2 ^ 31) \<le> m" for m :: int
      using that by (simp add: nat_less_iff)
    ultimately have "\<not> ?k < 2 ^ 63" using assms by (simp only: is_int_def not_False_eq_True)
    with 2 assms show ?thesis by (simp add: init_message_def buf_alloc_cases is_int_def)
  next
    case 3
    then show ?thesis by (simp add: init_message_def buf_alloc_cases is_int_def generate_string_def)
  next
    case 4
    define n where "n = nat ?n"
    have n: "?n = int n" "n < 2 ^ 31 - 1" using 4 by (simp_all add: n_def nat_less_iff)
    then have "(?n + 1) mod 2 ^ 64 = int (Suc n)" by simp
    then have "?k = Suc n" by (simp only: k nat_int)
    moreover have "n < 2 ^ 63 - 1" "is_int (?n + 1)" using n by (simp_all add: is_int_def)
    moreover have "generate_string rand (Some (brk w)) ?n
        (w\<lparr>brk := Suc (brk w), bufs := (bufs w)(brk w \<mapsto> replicate (Suc n) None)\<rparr>)
      = Some (w\<lparr>brk := Suc (brk w), bufs := (bufs w)(brk w \<mapsto> map Some (random_text rand n @ [0]))\<rparr>)"
      unfolding n(1) by (subst generate_string_done [where b = "replicate (Suc n) None"]) simp_all
    moreover have "nat ?n = n" "\<not> ?n < -1" "?n \<noteq> -1" "?n \<noteq> 2 ^ 31 - 1" using n by simp_all
    ultimately show ?thesis by (simp add: init_message_def buf_alloc_cases del: replicate_Suc)
  qed
qed

section \<open>The connections of the program\<close>

lemma benchmark_connect_cases:
  assumes "world_wf w" and "\<forall>i. alloc_ok w i"
  shows "(\<exists>w'. benchmark_connect cfg w = Some (None, w') \<and> same_memory w w' \<and> undisturbed w w') \<or>
    (\<exists>n m. benchmark_connect cfg w = Some (Some (brk w), connected_client n m w))"
proof -
  have quiet: "undisturbed w w'"
    if "same_memory w w'" "world_wf w'" "alloc_ok w' = alloc_ok w" "peer w' = peer w" "brk w \<le> brk w'" for w'
    using that by (simp add: undisturbed_def same_memory_def)
  show ?thesis
  proof (cases "cfg_unix_socket cfg = None")
    case True
    with tcp.open_client_exact [OF assms(1), of "cfg_host cfg", folded connect_open_client] assms(2) quiet show ?thesis
      by (auto simp: benchmark_connect_def)
  next
    case False
    with unix.open_client_exact [OF assms(1), folded connect_open_client] assms(2) quiet show ?thesis
      by (auto simp: benchmark_connect_def)
  qed
qed

lemma new_context_above: "brk w \<le> the (c_request ((new_context (brk w))\<lparr>c_fd := fd\<rparr>))"
  by (simp add: new_context_def)

lemma working_benchmark:
  "keeps (working a c w) (emq_auth (Some a) name password)"
  "keeps (working a c w) (emq_queue_declare (Some a) name)"
  "keeps (working a c w) (emq_queue_delete (Some a) name)"
  "keeps (working a c w) (emq_queue_create (Some a) name max_msg max_msg_size flags)"
  using working_call [of a c w "Auth name password"] working_call [of a c w "QueueDeclare name"]
    working_call [of a c w "QueueDelete name"] working_call [of a c w "QueueCreate name max_msg max_msg_size flags"]
  by (simp_all add: keeps_def)

text \<open>Disconnecting the only client brings back the memory there was before it.\<close>

lemma working_end:
  assumes "working (brk w) ((new_context (brk w))\<lparr>c_fd := fd\<rparr>) (connected_client n m w) W" and "world_wf w"
  shows "\<exists>w'. emq_disconnect (Some (brk w)) W = Some w' \<and> same_memory w w'"
  using working_disconnect [OF assms(1)] disconnected_restores [OF assms(2), of fd n m]
  by (auto simp: same_memory_def)

lemma working_benchmark_queries:
  "keeps (working a c w) (emq_queue_exist (Some a) name)"
  "keeps (working a c w) (emq_queue_size (Some a) name)"
  using queue_exist_req.working_query [of a c w name] queue_size_req.working_query [of a c w name]
  by (simp_all add: keeps_def query_defs)

section \<open>Before and after\<close>

text \<open>
  The text of both functions: connect, and what is done on the connection, which ends in every case
  with the end of the client.
\<close>

definition on_server :: "config \<Rightarrow> (ptr \<Rightarrow> world \<Rightarrow> (int option \<times> world) option) \<Rightarrow> world \<Rightarrow> (int option \<times> world) option" where
  "on_server cfg body w = do {
     (client, w) \<leftarrow> benchmark_connect cfg w;
     if client \<noteq> None then body client w else Some (Some (-1), w) }"

lemma on_server_done:
  assumes wf: "world_wf w" and mem: "\<forall>i. alloc_ok w i" and answers: "writev_answers (peer w (int (next_fd w)))"
    and body: "\<And>c v. ends (working (brk w) c v) (\<lambda>w'. \<exists>W. working (brk w) c v W \<and> emq_disconnect (Some (brk w)) W = Some w')
      (body (Some (brk w)))"
  shows "\<exists>left w'. on_server cfg body w = Some (left, w') \<and> same_memory w w' \<and> undisturbed w w'"
  using benchmark_connect_cases [OF wf mem, of cfg]
proof (elim disjE exE conjE)
  fix w1 assume "benchmark_connect cfg w = Some (None, w1)" "same_memory w w1" "undisturbed w w1"
  then show ?thesis by (simp add: on_server_def)
next
  fix n m
  let ?c = "(new_context (brk w))\<lparr>c_fd := int (next_fd w)\<rparr>"
  assume con: "benchmark_connect cfg w = Some (Some (brk w), connected_client n m w)"
  obtain left w' W where fin: "body (Some (brk w)) (connected_client n m w) = Some (left, w')"
    "working (brk w) ?c (connected_client n m w) W" "emq_disconnect (Some (brk w)) W = Some w'"
    using endsD [OF body connected_working [OF wf answers]] by blast
  with working_end [OF fin(2) wf] have "same_memory w w'" by simp
  moreover have "undisturbed w w'"
    using disconnect_undisturbed [OF fin(2) connected_undisturbed [OF wf] new_context_above fin(3)] .
  ultimately show ?thesis using con fin(1) by (simp add: on_server_def)
qed

lemma working_last:
  "ends (working a c w) (\<lambda>w'. \<exists>W. working a c w W \<and> emq_disconnect (Some a) W = Some w')
    (\<lambda>W. Option.bind (emq_disconnect (Some a) W) (\<lambda>w. Some (r, w)))"
  by (rule ends_last) (use working_disconnect in blast)

lemmas on_server_rules = ends_if ends_bind working_last keeps_rules working_benchmark working_benchmark_queries

lemma servers_done:
  assumes "world_wf w" and "\<forall>i. alloc_ok w i" and "writev_answers (peer w (int (next_fd w)))"
  shows "\<exists>left w'. setup_server cfg w = Some (left, w') \<and> same_memory w w' \<and> undisturbed w w'"
    and "\<exists>left w'. cleanup_server cfg w = Some (left, w') \<and> same_memory w w' \<and> undisturbed w w'"
proof -
  show "\<exists>left w'. setup_server cfg w = Some (left, w') \<and> same_memory w w' \<and> undisturbed w w'"
    unfolding setup_server_def on_server_def [symmetric]
    by (rule on_server_done [OF assms]) (intro on_server_rules)
  show "\<exists>left w'. cleanup_server cfg w = Some (left, w') \<and> same_memory w w' \<and> undisturbed w w'"
    unfolding cleanup_server_def on_server_def [symmetric]
    by (rule on_server_done [OF assms]) (intro on_server_rules)
qed

section \<open>The thread\<close>

lemma working_expire:
  assumes "working a c (with_msg m w) W"
  shows "\<exists>W'. emq_msg_expire (Some (brk w)) time W = Some W' \<and> working a c (with_msg (m\<lparr>m_expire := time\<rparr>) w) W'"
proof -
  obtain c' b s where W: "W = sess a c' b s (with_msg m w)" "same_blocks c c'"
    "callback_ready a c' b s (with_msg m w) [] [] None" "writev_answers s" using assms by (rule workingE)
  let ?w = "with_msg (m\<lparr>m_expire := time\<rparr>) w"
  have "emq_msg_expire (Some (brk w)) time W = Some (sess a c' b s ?w)"
    by (simp add: W(1) emq_msg_expire_def put_msg_def with_msg_def sess_def)
  moreover have "callback_ready a c' b s ?w [] [] None"
    using W(3) by (auto simp: callback_ready_def world_wf_sess_iff world_wf_def with_msg_def client_lists_def list_rep_def)
  ultimately show ?thesis using W(2,4) unfolding working_def by blast
qed

text \<open>The loop of pushes: it ends, and the client and the message are still there.\<close>

lemma working_pushes:
  assumes "sendable c w q"
  shows "keeps (working a c w) (push_messages n (Some a) (Some q))"
proof (induction n)
  case 0
  show ?case by (auto simp: keeps_def)
next
  case (Suc n)
  have "push_messages (Suc n) (Some a) (Some q) = (\<lambda>w. Option.bind (emq_queue_push (Some a) QUEUE_NAME (Some q) w)
      (\<lambda>(status, w). if status \<noteq> EMQ_STATUS_OK then Some (False, w) else push_messages n (Some a) (Some q) w))"
    by (rule ext) simp
  moreover have "keeps (working a c w) \<dots>" using Suc working_message(1) [OF assms] by (intro keeps_rules)
  ultimately show ?case by simp
qed

text \<open>The end of a thread: the message is released, then the client.\<close>

lemma working_release:
  assumes "working a c (with_msg m w) W" and wf: "world_wf w" and "m_zero_copy m = Some EMQ_ZEROCOPY_ON"
  shows "\<exists>W'. emq_msg_release (Some (brk w)) W = Some W' \<and> working a c (w\<lparr>brk := Suc (brk w)\<rparr>) W'"
proof -
  obtain c' b s where W: "W = sess a c' b s (with_msg m w)" "same_blocks c c'"
    "callback_ready a c' b s (with_msg m w) [] [] None" "writev_answers s" using assms(1) by (rule workingE)
  let ?w = "w\<lparr>brk := Suc (brk w)\<rparr>"
  have "msgs w (brk w) = None" using wf by (simp add: world_wf_def)
  then have "emq_msg_release (Some (brk w)) W = Some (sess a c' b s ?w)"
    using assms(3) by (simp add: W(1) emq_msg_release_def EMQ_ZEROCOPY_ON_def free_msg_def with_msg_def sess_def fun_upd_idem)
  moreover have "callback_ready a c' b s ?w [] [] None"
    using W(3) by (auto simp: callback_ready_def world_wf_sess_iff world_wf_def with_msg_def client_lists_def list_rep_def)
  ultimately show ?thesis using W(2,4) unfolding working_def by blast
qed

text \<open>
  A thread that cannot connect, or whose pushes all succeed, leaves the memory of the program as it
  was. A thread in which one fails ends there and then: it leaves its client and its message.
\<close>

lemma worker_done:
  assumes wf: "world_wf w" and mem: "\<forall>i. alloc_ok w i" and answers: "writev_answers (peer w (int (next_fd w)))"
    and msg: "messages_per_client cfg = Some k"
    and data: "bufs w p = Some (map Some d @ rest)" "length d = nat (cfg_msg_size cfg)" "0 \<le> cfg_msg_size cfg" "is_int (cfg_msg_size cfg)"
  shows "\<exists>w'. worker cfg (Some p) w = Some w' \<and> undisturbed w w' \<and> (same_memory w w' \<or>
    (\<exists>W. push_messages (nat k) (Some (brk w)) (Some (brk w + 4)) W = Some (False, w') \<and>
       clients w' (brk w) \<noteq> None \<and> msgs w' (brk w + 4) \<noteq> None))"
  using benchmark_connect_cases [OF wf mem, of cfg]
proof (elim disjE exE conjE)
  fix w1 assume "benchmark_connect cfg w = Some (None, w1)" "same_memory w w1" "undisturbed w w1"
  with msg show ?thesis by (simp add: worker_def)
next
  fix n m
  let ?a = "brk w" and ?c = "(new_context (brk w))\<lparr>c_fd := int (next_fd w)\<rparr>" and ?w = "connected_client n m w"
  let ?m = "(text_msg (word_of_int (cfg_msg_size cfg)) p)\<lparr>m_expire := word_of_int (cfg_expiration cfg)\<rparr>"
  assume con: "benchmark_connect cfg w = Some (Some ?a, ?w)"
  have top: "brk ?w = ?a + 4" by (simp add: connected_client_def new_client_def)
  have sz: "unat (word_of_int (cfg_msg_size cfg) :: size_t) = length d"
    using data(2-4) by (simp add: unat_eq_nat_uint unsigned_of_int take_bit_int_eq_self is_int_def)
  let ?v = "with_msg ?m ?w"
  obtain W0 where W0: "(if cfg_noack cfg \<noteq> 0 then emq_noack_enable (Some ?a) ?w else Some ?w) = Some W0" "working ?a ?c ?w W0"
    using keeps_stateD [OF working_noack connected_working [OF wf answers, of n m]] connected_working [OF wf answers, of n m]
    by (cases "cfg_noack cfg = 0") (simp, simp, blast)
  obtain r1 W1 where W1: "emq_auth (Some ?a) (ascii (cfg_user_name cfg)) (ascii (cfg_user_password cfg)) W0 = Some (r1, W1)"
    "working ?a ?c ?w W1" using keepsD [OF working_benchmark(1) W0(2)] by blast
  obtain r2 W2 where W2: "emq_queue_declare (Some ?a) QUEUE_NAME W1 = Some (r2, W2)" "working ?a ?c ?w W2"
    using keepsD [OF working_benchmark(2) W1(2)] by blast
  have "alloc_ok ?w (brk ?w)" using mem by (simp add: connected_client_def)
  from working_create [OF W2(2) this] obtain W3 where
    W3: "emq_msg_create (Some p) (word_of_int (cfg_msg_size cfg)) EMQ_ZEROCOPY_ON W2 = Some (Some (brk ?w), W3)"
    "working ?a ?c (with_msg (text_msg (word_of_int (cfg_msg_size cfg)) p) ?w) W3" by blast
  from working_expire [OF W3(2)] obtain W4 where
    W4: "emq_msg_expire (Some (brk ?w)) (word_of_int (cfg_expiration cfg)) W3 = Some W4" "working ?a ?c ?v W4" by blast
  have low: "p < brk w" using data(1) wf by (metis leI option.distinct(1) world_wf_def)
  have "bufs ?w p = Some (map Some d @ rest)" using data(1) low by (simp add: connected_client_def)
  then have "sendable ?c ?v (brk ?w)"
    by (rule text_msg_sendable) (use low sz in \<open>simp_all add: new_context_def text_msg_def\<close>)
  from keepsD [OF working_pushes [OF this] W4(2)] obtain ok W5 where
    W5: "push_messages (nat k) (Some ?a) (Some (brk ?w)) W4 = Some (ok, W5)" "working ?a ?c ?v W5" by blast
  have calm: "undisturbed w ?v" using with_msg_undisturbed [OF connected_undisturbed [OF wf]] .
  note run = con msg W0(1) W1(1) W2(1) W3(1) W4(1) W5(1)
  show ?thesis
  proof (cases ok)
    case False
    obtain c' b s where "W5 = sess ?a c' b s ?v" using W5(2) by (rule workingE)
    then have "clients W5 ?a \<noteq> None" "msgs W5 (?a + 4) \<noteq> None" by (simp_all add: with_msg_def top)
    moreover have "undisturbed w W5" using W5(2) calm new_context_above by (rule working_undisturbed)
    ultimately show ?thesis using run False by (simp add: worker_def top) blast
  next
    case True
    obtain W6 where W6: "emq_msg_release (Some (brk ?w)) W5 = Some W6" "working ?a ?c (?w\<lparr>brk := Suc (brk ?w)\<rparr>) W6"
      using working_release [OF W5(2) connected_client_wf [OF wf]] by (auto simp: text_msg_def)
    obtain W7 where W7: "emq_disconnect (Some ?a) W6 = Some W7"
      "same_memory (without_client ?a ?c [] [] (?w\<lparr>brk := Suc (brk ?w)\<rparr>)) W7" using working_disconnect [OF W6(2)] by blast
    have "same_memory w W7"
      using W7(2) disconnected_restores [OF wf, of "int (next_fd w)" n m] by (simp add: same_memory_def without_client_def)
    moreover have "undisturbed w W7"
      using disconnect_undisturbed [OF W6(2) brk_undisturbed [OF connected_undisturbed [OF wf]] new_context_above W7(1)] .
    ultimately show ?thesis using run W6(1) W7(1) True by (simp add: worker_def)
  qed
qed

section \<open>The program\<close>

text \<open>Memory does not run out, and the kernel interrupts no \<open>writev\<close> forever.\<close>

definition roomy :: "world \<Rightarrow> bool" where
  "roomy w \<longleftrightarrow> world_wf w \<and> (\<forall>i. alloc_ok w i) \<and> (\<forall>fd. writev_answers (peer w fd))"

lemma roomy_undisturbed: "roomy w \<Longrightarrow> undisturbed w w' \<Longrightarrow> roomy w'"
  by (simp add: roomy_def undisturbed_def)

lemma roomy_new_block: "roomy w \<Longrightarrow> undisturbed w (w\<lparr>brk := Suc (brk w), bufs := (bufs w)(brk w \<mapsto> b)\<rparr>)"
  by (simp add: roomy_def undisturbed_def world_wf_def)

lemma roomy_freed: "roomy w \<Longrightarrow> roomy (w\<lparr>bufs := (bufs w)(p := None)\<rparr>)"
  by (simp add: roomy_def world_wf_def)

lemma undisturbed_freed:
  "undisturbed v w \<Longrightarrow> brk v \<le> p \<Longrightarrow> undisturbed v (w\<lparr>bufs := (bufs w)(p := None)\<rparr>)"
  by (simp add: undisturbed_def world_wf_def)

lemma roomy_block: "roomy w \<Longrightarrow> bufs w p = Some b \<Longrightarrow> p < brk w"
  by (metis leI option.distinct(1) roomy_def world_wf_def)

text \<open>The handles of all threads are written before any is read.\<close>

definition handles_in :: "nat \<Rightarrow> byte option list \<Rightarrow> bool" where
  "handles_in n b \<longleftrightarrow> 8 * n \<le> length b \<and> (\<forall>k < 8 * n. b ! k \<noteq> None)"

lemma create_threads_done:
  assumes handles: "\<forall>j h. create j = Some h \<longrightarrow> length h = 8"
  shows "bufs w p = Some b \<Longrightarrow> 8 * (i + n) \<le> length b \<Longrightarrow> handles_in i b \<Longrightarrow>
    \<exists>created b'. create_threads create p i n w = Some (created, w\<lparr>bufs := (bufs w)(p \<mapsto> b')\<rparr>) \<and>
      (created \<longrightarrow> handles_in (i + n) b')"
proof (induction n arbitrary: i w b)
  case 0
  then show ?case by (intro exI [of _ True] exI [of _ b]) (simp add: fun_upd_idem)
next
  case (Suc n)
  show ?case
  proof (cases "create i")
    case None
    with Suc.prems(1) show ?thesis by (intro exI [of _ False] exI [of _ b]) (simp add: fun_upd_idem)
  next
    case (Some h)
    let ?b = "take (8 * i) b @ map Some h @ drop (8 * i + 8) b"
    have h: "length h = 8" using Some handles by simp
    let ?w = "w\<lparr>bufs := (bufs w)(p \<mapsto> ?b)\<rparr>"
    have "handles_in (Suc i) ?b"
      using Suc.prems(2,3) h by (auto simp: handles_in_def nth_append)
    moreover have "8 * (Suc i + n) \<le> length ?b" using Suc.prems(2) h by simp
    moreover have "bufs ?w p = Some ?b" by simp
    ultimately obtain created b' where "create_threads create p (Suc i) n ?w = Some (created, ?w\<lparr>bufs := (bufs ?w)(p \<mapsto> b')\<rparr>)"
      "created \<longrightarrow> handles_in (Suc i + n) b'" using Suc.IH by blast
    moreover have "?w\<lparr>bufs := (bufs ?w)(p \<mapsto> b')\<rparr> = w\<lparr>bufs := (bufs w)(p \<mapsto> b')\<rparr>" by simp
    moreover have "buf_store (Some p) (8 * i) h w = Some ?w" using Suc.prems(1,2) h by (simp add: buf_store_def)
    ultimately have "create_threads create p i (Suc n) w = Some (created, w\<lparr>bufs := (bufs w)(p \<mapsto> b')\<rparr>)"
      "created \<longrightarrow> handles_in (i + Suc n) b'" using Some by simp_all
    then show ?thesis by blast
  qed
qed

lemma create_threads_all: "create_threads create p i n w = Some (True, w') \<Longrightarrow> \<forall>j < n. create (i + j) \<noteq> None"
proof (induction n arbitrary: i w)
  case (Suc n)
  then obtain h w1 where "create i = Some h" "create_threads create p (Suc i) n w1 = Some (True, w')"
    by (auto split: option.splits bind_splits)
  with Suc.IH [of "Suc i"] show ?case by (auto simp: less_Suc_eq_0_disj)
qed simp

lemma those_written: "\<forall>x \<in> set xs. x \<noteq> None \<Longrightarrow> \<exists>ys. those xs = Some ys"
  by (induction xs) auto

lemma join_threads_done: "bufs w p = Some b \<Longrightarrow> handles_in (i + n) b \<Longrightarrow> join_threads p i n w = Some w"
proof (induction n arbitrary: i)
  case (Suc n)
  have "\<forall>x \<in> set (take 8 (drop (8 * i) b)). x \<noteq> None"
    using Suc.prems(2) by (auto simp: handles_in_def in_set_conv_nth)
  then obtain ys where "those (take 8 (drop (8 * i) b)) = Some ys" using those_written by blast
  with Suc show ?case by (simp add: buf_load_def handles_in_def)
qed simp

lemma sdiv_int_range:
  assumes "is_int m" and "1 \<le> c"
  shows "is_int (m sdiv c)"
proof -
  have "\<bar>m\<bar> div c \<le> \<bar>m\<bar>" "0 \<le> \<bar>m\<bar> div c" 
    using assms(2) zdiv_mono2 [of "\<bar>m\<bar>" 1 c] by (simp_all add: pos_imp_zdiv_nonneg_iff)
  with assms show ?thesis
    by (cases "m = 0"; cases "0 < m") (auto simp: is_int_def signed_divide_int_def sgn_mult)
qed

lemma init_threads_done:
  assumes "roomy w" and "is_int (cfg_clients cfg)" and handles: "\<forall>j h. create j = Some h \<longrightarrow> length h = 8"
  shows "\<exists>r w'. init_threads create cfg w = Some (r, w') \<and> undisturbed w w' \<and>
    (case r of Inl code \<Rightarrow> code = -1
     | Inr p \<Rightarrow> (\<exists>b. p = brk w \<and> bufs w' p = Some b \<and> handles_in (nat (cfg_clients cfg)) b) \<and>
         (\<forall>i < nat (cfg_clients cfg). create i \<noteq> None))"
proof -
  let ?n = "cfg_clients cfg" and ?m = "unat (8 * word_of_int (cfg_clients cfg) :: size_t)"
  have "uint (word_of_int (8 * k) :: size_t) = (8 * k) mod 2 ^ 64" for k by (simp only: uint_word_of_int) simp
  moreover have "8 * word_of_int ?n = (word_of_int (8 * ?n) :: size_t)" by simp
  ultimately have m: "?m = nat ((8 * ?n) mod 2 ^ 64)" by (simp only: unat_eq_nat_uint)
  have alloc: "alloc_ok w (brk w)" using assms(1) by (simp add: roomy_def)
  show ?thesis
  proof (cases "0 \<le> ?n")
    case True
    define n where "n = nat ?n"
    have n: "?n = int n" "n < 2 ^ 31" using True assms(2) by (simp_all add: n_def is_int_def nat_less_iff)
    then have "(8 * ?n) mod 2 ^ 64 = int (8 * n)" by simp
    then have size: "?m = 8 * n" by (simp only: m nat_int)
    let ?w = "w\<lparr>brk := Suc (brk w), bufs := (bufs w)(brk w \<mapsto> replicate ?m None)\<rparr>"
    have block: "bufs ?w (brk w) = Some (replicate (8 * n) None)" by (simp only: size) simp
    obtain created b' where made: "create_threads create (brk w) 0 n ?w = Some (created, ?w\<lparr>bufs := (bufs ?w)(brk w \<mapsto> b')\<rparr>)"
      "created \<longrightarrow> handles_in (0 + n) b'"
      using create_threads_done [OF handles block, of 0 n] by (auto simp: handles_in_def)
    have "?m < 2 ^ 63" using n(2) by (simp only: size) simp
    then have "buf_alloc ?m w = (Some (brk w), ?w)" using alloc by (simp only: buf_alloc_cases) simp
    then have "init_threads create cfg w = Some (if created then Inr (brk w) else Inl (-1), ?w\<lparr>bufs := (bufs ?w)(brk w \<mapsto> b')\<rparr>)"
      using made(1) n(1) by (simp add: init_threads_def)
    moreover have "undisturbed w (?w\<lparr>bufs := (bufs ?w)(brk w \<mapsto> b')\<rparr>)"
      using roomy_new_block [OF assms(1), of b'] by simp
    moreover have "\<forall>i < n. create i \<noteq> None" if created using create_threads_all made(1) that by force
    ultimately show ?thesis using made(2) n(1) by (intro exI conjI) auto
  next
    case False
    have "(8 * ?n) mod 2 ^ 64 = (8 * ?n + 2 ^ 64) mod 2 ^ 64" by (rule mod_add_self2 [symmetric])
    also have "\<dots> = 8 * ?n + 2 ^ 64"
      using False assms(2) by (intro mod_pos_pos_trivial) (simp_all add: is_int_def)
    finally have "?m = nat (8 * ?n + 2 ^ 64)" unfolding m by (rule arg_cong)
    moreover have "\<not> nat (8 * k + 2 ^ 64) < 2 ^ 63" if "- (2 ^ 31) \<le> k" for k :: int
      using that by (simp add: nat_less_iff)
    ultimately have "\<not> ?m < 2 ^ 63" using assms(2) by (simp only: is_int_def not_False_eq_True)
    then have "init_threads create cfg w = Some (Inl (-1), w\<lparr>brk := Suc (brk w)\<rparr>)"
      by (simp add: init_threads_def buf_alloc_cases)
    moreover have "undisturbed w (w\<lparr>brk := Suc (brk w)\<rparr>)"
      using assms(1) by (intro brk_undisturbed) (simp add: roomy_def undisturbed_def)
    ultimately show ?thesis by (intro exI conjI) auto
  qed
qed

text \<open>All the threads, one after the other: they leave the message and the handles in place.\<close>

lemma workers_done:
  assumes "roomy w" and "bufs w p = Some (map Some d @ rest)" and "int (length d) = cfg_msg_size cfg"
    and "config_ints cfg"
  shows "\<exists>w'. workers_in_turn cfg (Some p) w = Some w' \<and> undisturbed w w'"
proof (cases "0 < cfg_clients cfg")
  case False
  with assms(1) show ?thesis by (simp add: workers_in_turn_def roomy_def undisturbed_def)
next
  case True
  have ints: "is_int (cfg_messages cfg)" "is_int (cfg_msg_size cfg)" using assms(4) by (simp_all add: config_ints_def)
  have "messages_per_client cfg \<noteq> None"
    using True sdiv_int_range [OF ints(1), of "cfg_clients cfg"] by (simp add: messages_per_client_def Let_def)
  then obtain k where k: "messages_per_client cfg = Some k" by blast
  have size: "length d = nat (cfg_msg_size cfg)" "0 \<le> cfg_msg_size cfg" using assms(3) by linarith+
  let ?I = "\<lambda>v. undisturbed w v"
  have "keeps_state ?I (worker cfg (Some p))"
    unfolding keeps_state_def
  proof (intro allI impI)
    fix v assume v: "?I v"
    then have r: "world_wf v" "\<forall>i. alloc_ok v i" "writev_answers (peer v (int (next_fd v)))"
      using roomy_undisturbed [OF assms(1) v] by (simp_all add: roomy_def)
    have "bufs v p = Some (map Some d @ rest)" using v assms(2) roomy_block [OF assms(1,2)] by (simp add: undisturbed_def)
    from worker_done [OF r k this size ints(2)] obtain v' where "worker cfg (Some p) v = Some v'" "undisturbed v v'" by blast
    with v show "\<exists>v'. worker cfg (Some p) v = Some v' \<and> ?I v'" using undisturbed_trans by blast
  qed
  then have "keeps_state ?I (workers_in_turn cfg (Some p))"
    unfolding workers_in_turn_def by (rule keeps_for_times)
  moreover have "?I w" using assms(1) by (simp add: roomy_def undisturbed_def)
  ultimately show ?thesis by (rule keeps_stateD)
qed

lemma server_status:
  "setup_server cfg w = Some (left, w') \<Longrightarrow> left = None \<or> left = Some (-1)"
  "cleanup_server cfg w = Some (left, w') \<Longrightarrow> left = None \<or> left = Some (-1)"
  by (auto simp: setup_server_def cleanup_server_def bind_eq_Some_conv split: if_splits)

text \<open>From the message and the handles on: the threads, and what is cleaned up.\<close>

lemma benchmark_rest:
  assumes r: "roomy w" and p: "bufs w p = Some (map Some d @ rest)" and q: "bufs w q = Some b" "p \<noteq> q"
    and handles: "handles_in (nat (cfg_clients cfg)) b" and size: "int (length d) = cfg_msg_size cfg" and ints: "config_ints cfg"
    and calm: "undisturbed v w" "brk v \<le> p" "brk v \<le> q"
  shows "\<exists>w1 left w2. workers_in_turn cfg (Some p) w = Some w1 \<and> process_threads cfg q w1 = Some w1 \<and>
    free_buf (Some p) w1 = Some (w1\<lparr>bufs := (bufs w1)(p := None)\<rparr>) \<and>
    free_buf (Some q) (w1\<lparr>bufs := (bufs w1)(p := None)\<rparr>) = Some (w1\<lparr>bufs := (bufs w1)(p := None, q := None)\<rparr>) \<and>
    cleanup_server cfg (w1\<lparr>bufs := (bufs w1)(p := None, q := None)\<rparr>) = Some (left, w2) \<and> (left = None \<or> left = Some (-1)) \<and>
    undisturbed v w2"
proof -
  obtain w1 where w1: "workers_in_turn cfg (Some p) w = Some w1" "undisturbed w w1"
    using workers_done [OF r p size ints] by blast
  have at: "bufs w1 p = Some (map Some d @ rest)" "bufs w1 q = Some b"
    using w1(2) p q(1) roomy_block [OF r p] roomy_block [OF r q(1)] by (simp_all add: undisturbed_def)
  have "process_threads cfg q w1 = Some w1"
    unfolding process_threads_def using join_threads_done [OF at(2), of 0 "nat (cfg_clients cfg)"] handles by simp
  moreover have "free_buf (Some p) w1 = Some (w1\<lparr>bufs := (bufs w1)(p := None)\<rparr>)"
    "free_buf (Some q) (w1\<lparr>bufs := (bufs w1)(p := None)\<rparr>) = Some (w1\<lparr>bufs := (bufs w1)(p := None, q := None)\<rparr>)"
    using at q(2) by (simp_all add: free_buf_def)
  moreover have "roomy (w1\<lparr>bufs := (bufs w1)(p := None, q := None)\<rparr>)"
    using roomy_freed [OF roomy_freed [OF roomy_undisturbed [OF r w1(2)], of p], of q] by simp
  then obtain left w2 where cl: "cleanup_server cfg (w1\<lparr>bufs := (bufs w1)(p := None, q := None)\<rparr>) = Some (left, w2)"
    "undisturbed (w1\<lparr>bufs := (bufs w1)(p := None, q := None)\<rparr>) w2"
    unfolding roomy_def using servers_done(2) by blast
  have "undisturbed v (w1\<lparr>bufs := (bufs w1)(p := None, q := None)\<rparr>)"
    using undisturbed_freed [OF undisturbed_freed [OF undisturbed_trans [OF calm(1) w1(2)] calm(2)] calm(3)] by simp
  with cl have "undisturbed v w2" by (blast intro: undisturbed_trans)
  with cl(1) calculation show ?thesis using w1(1) server_status(2) by blast
qed

lemma benchmark_ends:
  assumes r: "roomy w" and handles: "\<forall>j h. create j = Some h \<longrightarrow> length h = 8" and args: "numbers_fit args"
    and cfg: "cfg = configured args init_config" and size: "0 \<le> cfg_msg_size cfg" "cfg_msg_size cfg < 2 ^ 31 - 1"
    and bytes: "is_int (cfg_messages cfg * cfg_msg_size cfg)"
  shows "\<exists>code w'. benchmark_main rand create workers_in_turn args w = Some (code, w') \<and> code \<in> {0, -1} \<and>
    undisturbed w w' \<and> (asks_usage args \<longrightarrow> code = 0 \<and> w' = w) \<and>
    (code = 0 \<and> \<not> asks_usage args \<longrightarrow> (\<forall>i < nat (cfg_clients cfg). create i \<noteq> None))"
proof (cases "asks_usage args")
  case True
  moreover have "undisturbed w w" using r by (simp add: roomy_def undisturbed_def)
  ultimately show ?thesis using args by (simp add: benchmark_main_def parse_args_configured)
next
  case False
  then have parsed: "parse_args args init_config = Some (Inr cfg)" using args cfg by (simp add: parse_args_configured)
  have ints: "config_ints cfg"
    unfolding cfg by (rule configured_ints) (simp add: config_ints_def is_int_def init_config_def)
  obtain left w1 where w1: "setup_server cfg w = Some (left, w1)" "undisturbed w w1"
    using servers_done(1) r unfolding roomy_def by blast
  show ?thesis
  proof (cases left)
    case (Some code)
    with server_status(1) [OF w1(1)] parsed w1 False show ?thesis by (simp add: benchmark_main_def)
  next
    case None
    let ?p = "brk w1" and ?d = "random_text rand (nat (cfg_msg_size cfg))"
    let ?w2 = "w1\<lparr>brk := Suc (brk w1), bufs := (bufs w1)(brk w1 \<mapsto> map Some (?d @ [0]))\<rparr>"
    have r1: "roomy w1" using r w1(2) by (rule roomy_undisturbed)
    have "is_int (cfg_msg_size cfg)" "is_int (cfg_clients cfg)" using ints by (simp_all add: config_ints_def)
    then have message: "init_message rand cfg w1 = Some (Inr ?p, ?w2)"
      using init_message_cases [of cfg rand w1] size r1 by (simp add: roomy_def)
    have r2: "roomy ?w2" using r1 roomy_new_block [OF r1] by (rule roomy_undisturbed)
    obtain x w3 where w3: "init_threads create cfg ?w2 = Some (x, w3)" "undisturbed ?w2 w3"
      "case x of Inl code \<Rightarrow> code = -1 | Inr q \<Rightarrow> (\<exists>b. q = brk ?w2 \<and> bufs w3 q = Some b \<and>
         handles_in (nat (cfg_clients cfg)) b) \<and> (\<forall>i < nat (cfg_clients cfg). create i \<noteq> None)"
      using init_threads_done [OF r2 \<open>is_int (cfg_clients cfg)\<close> handles] by blast
    have calm: "undisturbed w w3"
      using undisturbed_trans [OF undisturbed_trans [OF w1(2) roomy_new_block [OF r1]] w3(2)] .
    show ?thesis
    proof (cases x)
      case (Inl code)
      with parsed w1(1) None message w3(1,3) calm False show ?thesis by (simp add: benchmark_main_def)
    next
      case (Inr q)
      then obtain b where q: "q = Suc (brk w1)" "bufs w3 q = Some b" "handles_in (nat (cfg_clients cfg)) b"
        "\<forall>i < nat (cfg_clients cfg). create i \<noteq> None"
        using w3(3) by auto
      have above: "brk w \<le> ?p" "brk w \<le> q" using w1(2) q(1) by (simp_all add: undisturbed_def)
      have "bufs w3 ?p = bufs ?w2 ?p" using w3(2) by (simp add: undisturbed_def)
      then have p: "bufs w3 ?p = Some (map Some ?d @ [Some 0])" by simp
      have "int (length ?d) = cfg_msg_size cfg" using random_text_alphanumeric size(1) by simp
      from benchmark_rest [OF roomy_undisturbed [OF r2 w3(2)] p q(2) _ q(3) this ints calm above] obtain w4 left' w5 where
        rest: "workers_in_turn cfg (Some ?p) w3 = Some w4" "process_threads cfg q w4 = Some w4"
        "free_buf (Some ?p) w4 = Some (w4\<lparr>bufs := (bufs w4)(?p := None)\<rparr>)"
        "free_buf (Some q) (w4\<lparr>bufs := (bufs w4)(?p := None)\<rparr>) = Some (w4\<lparr>bufs := (bufs w4)(?p := None, q := None)\<rparr>)"
        "cleanup_server cfg (w4\<lparr>bufs := (bufs w4)(?p := None, q := None)\<rparr>) = Some (left', w5)" "left' = None \<or> left' = Some (-1)"
        "undisturbed w w5"
        using q(1) by auto
      have "total_bytes cfg \<noteq> None" using bytes by (simp add: total_bytes_def)
      then obtain n where "total_bytes cfg = Some n" by blast
      with parsed w1(1) None message w3(1) Inr rest(1-5)
      have "benchmark_main rand create workers_in_turn args w = Some (case left' of Some code \<Rightarrow> code | None \<Rightarrow> 0, w5)"
        by (simp add: benchmark_main_def)
      with rest(6,7) q(4) False show ?thesis by auto
    qed
  qed
qed

end
