(* ===== verification/Spec2Isabelle.thy ===== *)
theory Spec2Isabelle
  imports Emq_Example Emq_Programs Emq_Simple Emq_Benchmark
begin

text \<open>
  libemq, the C client library of the EagleMQ message broker, and the programs that come with it.

  \<^bold>\<open>The program\<close>. A client context (\<open>emq_client\<close> of \<^verbatim>\<open>src/src/emq.h\<close>) owns a connection, a request
  buffer of 4096 bytes, an error text, and two linked lists of subscriptions. Every public function
  of \<^verbatim>\<open>src/src/emq.c\<close> has one shape: clear the error, let a builder of \<^verbatim>\<open>src/src/packet.c\<close> put a packed
  struct of \<^verbatim>\<open>src/src/protocol.h\<close> into the request buffer, send it with the loops of
  \<^verbatim>\<open>src/src/network.c\<close>, read and check the header of the reply unless acknowledgements are off, read
  the body if the command has one, and set the status. \<open>emq_process\<close> reads events instead and calls
  the functions the user has registered. Three example programs and a benchmark use the library.

  \<^bold>\<open>The theories\<close>, in the order of the code.
  \<^item> \<open>Emq_Prelude\<close>: integer types, little-endian images, C strings, the option monad, and the rules
    \<open>keeps_rules\<close> for programs that keep a property along their text.
  \<^item> \<open>Emq_State\<close> (\<^verbatim>\<open>emq.h\<close>): the records of the structs, the memory and the environment (\<open>world\<close>).
    \<open>Emq_Flags\<close>: permission bits and flags.
  \<^item> \<open>Emq_Network\<close> (\<^verbatim>\<open>network.c\<close>): read, write and writev loops, making and closing of connections.
  \<^item> \<open>Emq_List\<close> (\<^verbatim>\<open>emq.c\<close>, 133 to 233): the doubly linked list and its refinement of a HOL list.
  \<^item> \<open>Emq_Protocol\<close> (\<^verbatim>\<open>protocol.h\<close>), \<open>Emq_Packet\<close> (\<^verbatim>\<open>packet.c\<close>): codes, structs and their byte images; the
    43 builders and the header checks. Every builder is an interpretation of the locale \<open>request_builder\<close>.
  \<^item> \<open>Emq_Client\<close>, \<open>Emq_Lifecycle\<close>: the context from \<open>emq_client_init\<close> to \<open>emq_disconnect\<close>; what each
    failed allocation or system call leads to (locale \<open>connector\<close>, for TCP and local sockets).
  \<^item> \<open>Emq_Session\<close>, \<open>Emq_Memory\<close>: the part of the world a call touches (\<open>sess\<close>), the abstract runs of a
    call on the connection (\<open>request_sent\<close>, \<open>reply_read\<close>, \<open>acked_call\<close>, which say for each error what
    happened on the socket: \<open>write_broken\<close>, \<open>read_broken\<close>), and how operations may change
    the rest of the memory (\<open>grows\<close>, \<open>edits\<close>, \<open>only_list\<close>).
  \<^item> \<open>Emq_Msg\<close>: messages. \<open>Emq_Commands\<close>: the acknowledged commands, the queries for a number, the
    statistics, push and publish (locale \<open>message_builder\<close>), get and pop. The phases all these
    functions share in the source, each spelled out there, are the first definitions of the theory.
  \<^item> \<open>Emq_Calls\<close>: the 22 acknowledged commands as values of one type, their abstract meaning and
    sequences of them on one connection.
  \<^item> \<open>Emq_Queries\<close>: the five list queries (locales \<open>wire_record\<close> and \<open>list_query\<close>). \<open>Emq_Listing\<close>: the same
    in any environment (\<open>listed\<close>), the walk of a caller through the list, and that nothing of it is left
    after its release (\<open>tidy\<close>).
  \<^item> \<open>Emq_Subscribe\<close>: subscribing, unsubscribing, the search (locales \<open>subscription_kind\<close>,
    \<open>subscribe_command\<close>, \<open>unsubscribe_command\<close>). \<open>Emq_Process\<close>: the handlers of events and the loop.
    \<open>process_rounds\<close> is the loop cut off after some rounds, and \<open>rounds_then_loop\<close> ties it to the loop itself.
    \<open>Emq_Callbacks\<close>: the contract of the user's functions (locale \<open>callback_contract\<close>), under which the
    loop ends and the client stays in order; the callbacks of the example programs keep it as long as the
    \<open>int\<close> they count in has room for the events to come (\<open>counts\<close>).
  \<^item> \<open>Emq_Api\<close>: all operations of a client together and sequences of them; \<open>client_ready\<close> is the invariant.
  \<^item> \<open>Emq_Send\<close>: sending in any environment, and a client at work (\<open>working\<close>). \<open>Emq_Programs\<close>
    (\<^verbatim>\<open>examples/queue-subscribe.c\<close>, \<^verbatim>\<open>examples/channel-subscribe.c\<close>), \<open>Emq_Simple\<close>
    (\<^verbatim>\<open>examples/simple.c\<close>), \<open>Emq_Benchmark\<close> (\<^verbatim>\<open>benchmark.c\<close>): the programs.
  \<^item> \<open>Emq_Example\<close>: a concrete connection on which every property below is tried.

  \<^bold>\<open>The model\<close>. A C function is a HOL function of the same name from its arguments and the \<open>world\<close> to an
  option of its result and the new world. \<^const>\<open>None\<close> is behaviour C does not define (a null or dangling
  pointer, an overrun, an uninitialised value, signed overflow) or a run that does not end; so a
  theorem that a call gives \<^const>\<open>Some\<close> says that it returns and stays within the language. Memory is one
  partial map per type of block; addresses are never used again, which makes each use after a free
  visible; \<open>alloc_ok\<close> decides which allocations succeed, and one that asks for \<open>2 ^ 63\<close> bytes or more
  fails. The bytes of a block are \<^const>\<open>None\<close> until they are written. A socket has the bytes the
  server will send (\<open>incoming\<close>, a finite list) and a script with the outcome of each \<open>read\<close> and \<open>write\<close> (so
  many bytes, or an error), all of it arbitrary. A \<open>read\<close> of the model never waits: when \<open>incoming\<close> is used
  up it finds the end of the file. So the server of the model sends finitely many bytes and then closes the
  connection, after any time; that a call, the loop of \<open>emq_process\<close> or a program returns is shown for such
  servers. On a connection that stays open and silent the code waits in \<open>read\<close>, which is outside the
  model. A function that does return has read a finite part of the stream, and what is said of its
  result holds of that part; other system calls succeed as \<open>sys_ok\<close> says. The user's callbacks are
  the parameter \<open>cb\<close> of \<open>emq_process\<close>. Integers have their C width; an \<open>int\<close> is an integer of HOL, and where
  one can leave its range the model says what happens. Pointers to characters are byte lists, up
  to their first NUL; so a callback gets the name of its subscription as bytes, and if it goes on to read
  the name after it has unsubscribed, which frees the array, the model does not show it.

  \<^bold>\<open>Loops\<close>. No fuel is used. The read and write loops end because every round takes bytes or stops
  (\<open>read_loop\<close>, \<open>write_loop\<close>, with a termination proof); loops that may not end are \<open>partial_function (option)\<close>
  (\<open>writev_loop\<close>, \<open>parse_records\<close>, \<open>process_loop\<close>, the loops over linked nodes), and that they do end is
  part of the properties.

  \<^bold>\<open>What is shown\<close>. The properties are numbered below: that every command refines its abstract call and
  keeps in step with the server; what goes over the wire, and that it is read back whole; that
  subscriptions, events and lists do what their users expect; that no sequence of operations breaks
  a client; that errors are reported, or how they are lost; and that the programs return, and what
  they leave. Some of them state what the code does where it is not what it should do: each of
  these says so.

  \<^bold>\<open>Not modelled\<close>. A \<open>read\<close> that waits, and a server that never stops sending (see above). What is printed,
  also where \<open>printf\<close> would read a field without a NUL past its end, and the division of floating-point
  numbers in \<open>print_statistics\<close> of the benchmark;
  the resolution of names (a connect call has the address as a label, and its outcome
  is chosen by the environment; port and path play no part); the clock; the interleaving of threads
  (the two sending threads of the examples are functions of worlds of their own; what the threads of the
  benchmark do is a parameter of its \<open>main\<close>, taken as one thread after the other where it matters); the
  address arithmetic of C, and a host that is not little-endian. Build files and documents have no logic.
\<close>

section \<open>Calls and the server\<close>

text \<open>
  C1: each of the 22 acknowledged commands, in any environment, refines the abstract call: it returns,
  with the status of an error \<open>e\<close> or of success; what it did on the connection is one of the
  runs \<open>acked_call\<close> allows for that \<open>e\<close>; and nothing else of the world changed. The runs tell the errors
  apart by the connection: refused arguments send nothing; a write error means that a \<open>write\<close> failed before
  all of the request was out, and no reply is read then; a read error means that a \<open>read\<close> failed or brought
  nothing before a header was complete; otherwise the reply decides. A request is taken as sent when all of
  it is out, or when a \<open>write\<close> returned 0 (which the code does not take for an error).
\<close>

theorem run_call_refines:
  assumes "session a c b s w"
  shows "\<exists>e s' w'. run_call call (Some a) w = Some (result_of e, w') \<and> call_effect a c e s' w w' \<and>
    acked_call (call_request call (client_noack c)) (c_noack c) (call_check call) s e s'"
proof -
  from run_call_sess [OF sessionD(1) [OF assms], of call a s w] obtain e n b' s' where
    "run_call call (Some a) (sess a c b s w) = Some (result_of e, sess a (settle e (c\<lparr>c_pos := n\<rparr>)) b' s' w)"
    "sess_ok c b'" "acked_call (call_request call (client_noack c)) (c_noack c) (call_check call) s e s'"
    by (elim exE conjE) (rule that)
  then show ?thesis
    using sess_same [OF assms] call_effectI [of c b' a e s' w n] by auto
qed

theorem run_call_refines_witness:
  "\<exists>e s' w'. run_call (QueueDeclare [65, 66, 0]) (Some 0) (demo_world [1, 2]) = Some (result_of e, w') \<and>
    call_effect 0 demo_client e s' (demo_world [1, 2]) w' \<and>
    acked_call (call_request (QueueDeclare [65, 66, 0]) 0) 0 (call_check (QueueDeclare [65, 66, 0])) (demo_socket [1, 2]) e s'"
  using run_call_refines [OF demo_world_session, unfolded demo_client_sel] by blast

text \<open>
  C2: a sequence of calls stays in step with the server. When the accepted calls of a sequence are
  answered by \<open>hs\<close>, each call gets the result its own answer stands for, a call with bad
  arguments fails without taking part in the exchange, the bytes after the answers are left, and
  a server that splits what it receives at the announced lengths finds exactly the requests of
  the accepted calls, in order.
\<close>

theorem calls_stay_in_step:
  assumes "session a c b s w" and "live s" and "c_noack c = 0"
    and "length hs = length (filter call_ok calls)"
    and "incoming s = concat (map response_header_bytes hs) @ rest"
  shows "\<exists>c' b' s' w'. run_calls calls (Some a) w = Some (map result_of (call_outcomes calls hs), w') \<and>
    session a c' b' s' w' \<and> same_client c c' \<and> incoming s' = rest \<and>
    (\<exists>reqs. outgoing s' = outgoing s @ reqs \<and> split_requests reqs =
      map (\<lambda>call. (call_header call (client_noack c), call_body call)) (filter call_ok calls))"
proof -
  from run_calls_in_step [OF sessionD(1) [OF assms(1)] assms(2-5), of a w] obtain c' b' s' where
    "run_calls calls (Some a) (sess a c b s w) = Some (map result_of (call_outcomes calls hs), sess a c' b' s' w)"
    "sess_ok c' b'" "same_client c c'" "incoming s' = rest"
    "outgoing s' = outgoing s @ calls_wire calls (client_noack c)" by (elim exE conjE) (rule that)
  then show ?thesis
    using sess_same [OF assms(1)] split_requests_calls [of calls "client_noack c"]
    by (intro exI [of _ c'] exI [of _ b'] exI [of _ s'] exI [of _ "sess a c' b' s' w"]) auto
qed

theorem calls_stay_in_step_witness:
  "let h = \<lparr>res_magic = 128, res_cmd = 11, res_status = 1, res_bodylen = 0\<rparr>;
       h' = \<lparr>res_magic = 128, res_cmd = 36, res_status = 9, res_bodylen = 0\<rparr>;
       calls = [Ping, UserDelete (replicate 40 65), QueueDeclare [66, 0]]
   in \<exists>c' b' s' w'. run_calls calls (Some 0) (demo_world (response_header_bytes h @ response_header_bytes h'))
       = Some (map result_of (call_outcomes calls [h, h']), w') \<and>
     session 0 c' b' s' w' \<and> same_client demo_client c' \<and> incoming s' = [] \<and>
     (\<exists>reqs. outgoing s' = [] @ reqs \<and> split_requests reqs =
       map (\<lambda>call. (call_header call 0, call_body call)) (filter call_ok calls))"
  unfolding Let_def
  by (rule calls_stay_in_step [OF demo_world_session demo_live, where rest = "[]", unfolded demo_client_sel demo_socket_sel])
    (simp_all add: strlenz_def cstr_def)

text \<open>
  C3: with acknowledgements off a call returns success as soon as its request is written; no reply is awaited
  or read.
\<close>

theorem noack_call_does_not_wait:
  assumes "session a c b s w" and "call_ok call" and "live s" and "c_noack c \<noteq> 0"
  shows "\<exists>s' w'. run_call call (Some a) w = Some (EMQ_STATUS_OK, w') \<and> call_effect a c None s' w w' \<and>
    incoming s' = incoming s \<and> outgoing s' = outgoing s @ call_wire call (client_noack c)"
proof -
  from run_call_noack [OF sessionD(1) [OF assms(1)] assms(2-4), of a w] obtain n b' s' where
    "run_call call (Some a) (sess a c b s w) = Some (EMQ_STATUS_OK, sess a (settle None (c\<lparr>c_pos := n\<rparr>)) b' s' w)"
    "sess_ok c b'" "incoming s' = incoming s" "outgoing s' = outgoing s @ call_wire call (client_noack c)"
    by (elim exE conjE) (rule that)
  then show ?thesis
    using sess_same [OF assms(1)] call_effectI [of c b' a None s' w n] by auto
qed

theorem noack_call_does_not_wait_witness:
  "let c = demo_client\<lparr>c_noack := 1\<rparr>; w = demo_with c (demo_socket [9])
   in \<exists>s' w'. run_call Ping (Some 0) w = Some (EMQ_STATUS_OK, w') \<and> call_effect 0 c None s' w w' \<and>
    incoming s' = incoming (demo_socket [9]) \<and> outgoing s' = outgoing (demo_socket [9]) @ call_wire Ping (client_noack c)"
  unfolding Let_def
  by (rule noack_call_does_not_wait [where b = demo_buffer])
    (simp_all add: session_def sess_ok_def demo_buffer_def)

text \<open>
  C4: a call whose strings do not fit their fields fails with the error text for bad arguments, and nothing is
  written to the connection or read from it.
\<close>

theorem long_arguments_rejected:
  assumes "session a c b s w" and "\<not> call_ok call"
  shows "\<exists>w'. run_call call (Some a) w = Some (EMQ_STATUS_ERR, w') \<and>
    call_effect a c (Some EMQ_ERROR_DATA) s w w' \<and> socks w' = socks w \<and>
    emq_last_error (Some a) w' = Some ''Error input data''"
proof -
  let ?w = "sess a (settle (Some EMQ_ERROR_DATA) c) b s w"
  have "run_call call (Some a) w = Some (EMQ_STATUS_ERR, ?w)"
    using run_call_rejected [OF sessionD(1) [OF assms(1)] assms(2), of a s w] sess_same [OF assms(1)] by simp
  moreover have "socks ?w = socks w" using assms(1) by (simp add: session_def fun_upd_idem)
  ultimately show ?thesis
    using call_effectI_same [OF sessionD(1) [OF assms(1)], of a "Some EMQ_ERROR_DATA" s w]
    by (intro exI [of _ ?w] conjI) (assumption | simp add: emq_last_error_def)+
qed

theorem long_arguments_rejected_witness:
  "\<exists>w'. run_call (UserDelete (replicate 32 65 @ [0])) (Some 0) (demo_world [1]) = Some (EMQ_STATUS_ERR, w') \<and>
    call_effect 0 demo_client (Some EMQ_ERROR_DATA) (demo_socket [1]) (demo_world [1]) w' \<and>
    socks w' = socks (demo_world [1]) \<and> emq_last_error (Some 0) w' = Some ''Error input data''"
  by (rule long_arguments_rejected [OF demo_world_session]) code_simp

text \<open>
  C5: the builder of each call writes its request, header and body, to the front of the
  request buffer, sets the length to it, and stays within the 168 bytes the buffer always
  has; with bad arguments it changes nothing.
\<close>

theorem request_built_in_buffer:
  assumes "session a c b s w"
  shows "let req = call_wire call (client_noack c) in
    if call_ok call
    then call_build call (Some a) w = Some (EMQ_STATUS_OK,
        sess a (c\<lparr>c_pos := length req\<rparr>) (map Some req @ drop (length req) b) s w) \<and>
      length req \<le> 168 \<and> 168 \<le> length b
    else call_build call (Some a) w = Some (EMQ_STATUS_ERR, w)"
  using call.build_sess [OF sessionD(1) [OF assms], of call a s w] sess_same [OF assms]
    sessionD(1) [OF assms] call_body_short [of call]
  by (cases "call_ok call") (simp_all add: call_wire_def sess_ok_def sizeof_header_def Let_def)

theorem request_built_in_buffer_witness:
  "let req = call_wire (Save 1) 0 in
    call_build (Save 1) (Some 0) (demo_world []) = Some (EMQ_STATUS_OK, sess 0 (demo_client\<lparr>c_pos := length req\<rparr>)
        (map Some req @ drop (length req) demo_buffer) (demo_socket []) (demo_world [])) \<and>
      length req \<le> 168 \<and> 168 \<le> length demo_buffer"
  using request_built_in_buffer [OF demo_world_session, of "Save 1" "[]"] by (simp add: Let_def)

section \<open>Subscriptions\<close>

text \<open>
  C6: on a live connection with memory, a subscription the server grants is registered: it is
  a new object with the name and the callback, in front of the queue subscriptions, every other
  object is as it was, the reply is consumed and the client is in order.
\<close>

theorem queue_subscribe_registers:
  assumes "client_ready a c b s w qs cs" and "strlenz name \<le> 64" and "live s" and "c_noack c = 0"
    and "incoming s = response_header_bytes h @ rest"
    and "reply_error (reply_check EMQ_PROTOCOL_CMD_QUEUE_SUBSCRIBE 0) h = None" and "\<forall>k \<ge> brk w. alloc_ok w k"
  shows "\<exists>c' b' s' w' n v. emq_queue_subscribe (Some a) name flags (Some cb) w = Some (EMQ_STATUS_OK, w') \<and>
    client_ready a c' b' s' w' ((n, v) # qs) cs \<and> incoming s' = rest \<and>
    objs w' = (objs w)(v \<mapsto> QueueSubscription \<lparr>qs_name = zfield 64 name, qs_callback = cb\<rparr>)"
proof -
  obtain c' b' s' w' n v where "emq_queue_subscribe (Some a) name flags (Some cb) w
      = Some (EMQ_STATUS_OK, sess a c' b' s' w')" "callback_ready a c' b' s' w' ((n, v) # qs) cs None" "incoming s' = rest"
    "objs w' = (objs w)(v \<mapsto> QueueSubscription \<lparr>qs_name = zfield 64 name, qs_callback = cb\<rparr>)"
    using queue_subscribe_registered [OF client_readyD(1) [OF assms(1)] assms(2-7), of flags cb,
        unfolded client_readyD(2) [OF assms(1)]] by (elim exE conjE) (rule that)
  then show ?thesis
    by (intro exI [of _ c'] exI [of _ b'] exI [of _ s'] exI [of _ "sess a c' b' s' w'"] exI [of _ n] exI [of _ v]) simp
qed

theorem queue_subscribe_registers_witness:
  "let w = demo_subscribed (demo_socket (response_header_bytes (granted_reply EMQ_PROTOCOL_CMD_QUEUE_SUBSCRIBE) @ [9]))
   in \<exists>c' b' s' w' n v. emq_queue_subscribe (Some 0) [113] 1 (Some 3) w = Some (EMQ_STATUS_OK, w') \<and>
    client_ready 0 c' b' s' w' ((n, v) # [(4, 5)]) [(6, 7)] \<and> incoming s' = [9] \<and>
    objs w' = (objs w)(v \<mapsto> QueueSubscription \<lparr>qs_name = zfield 64 [113], qs_callback = 3\<rparr>)"
  unfolding Let_def
  by (rule queue_subscribe_registers [OF demo_subscribed_ready, where h = "granted_reply EMQ_PROTOCOL_CMD_QUEUE_SUBSCRIBE" and rest = "[9]"])
    simp_all

text \<open>
  C7: unsubscribing from a queue, when the server agrees, leaves the subscriptions to other
  names, in order, and frees exactly those to this name.
\<close>

theorem queue_unsubscribe_removes:
  assumes "client_ready a c b s w qs cs" and "strlenz name \<le> 64" and "live s" and "c_noack c = 0"
    and "incoming s = response_header_bytes h @ rest"
    and "reply_error (reply_check EMQ_PROTOCOL_CMD_QUEUE_UNSUBSCRIBE 0) h = None"
  shows "\<exists>c' b' s' w'. emq_queue_unsubscribe (Some a) name w = Some (EMQ_STATUS_OK, w') \<and> incoming s' = rest \<and>
    client_ready a c' b' s' w' (filter (\<lambda>(n, v). sub_title queue_sub_name w v \<noteq> cstr name) qs) cs \<and>
    objs w' = objs w |` (- snd ` set (filter (\<lambda>(n, v). sub_title queue_sub_name w v = cstr name) qs))"
proof -
  obtain c' b' s' w' where "emq_queue_unsubscribe (Some a) name w = Some (EMQ_STATUS_OK, sess a c' b' s' w')"
    "incoming s' = rest"
    "callback_ready a c' b' s' w' (filter (\<lambda>(n, v). sub_title queue_sub_name w v \<noteq> cstr name) qs) cs None"
    "objs w' = objs w |` (- snd ` set (filter (\<lambda>(n, v). sub_title queue_sub_name w v = cstr name) qs))"
    using queue_unsubscribe_decided [OF client_readyD(1) [OF assms(1)] assms(2-6),
        unfolded client_readyD(2) [OF assms(1)]] by (elim exE conjE) (rule that)
  then show ?thesis
    by (intro exI [of _ c'] exI [of _ b'] exI [of _ s'] exI [of _ "sess a c' b' s' w'"]) simp
qed

theorem queue_unsubscribe_removes_witness:
  "let w = demo_subscribed (demo_socket (response_header_bytes (granted_reply EMQ_PROTOCOL_CMD_QUEUE_UNSUBSCRIBE) @ []))
   in \<exists>c' b' s' w'. emq_queue_unsubscribe (Some 0) [113] w = Some (EMQ_STATUS_OK, w') \<and> incoming s' = [] \<and>
    client_ready 0 c' b' s' w' (filter (\<lambda>(n, v). sub_title queue_sub_name w v \<noteq> cstr [113]) [(4 :: addr, 5)]) [(6, 7)] \<and>
    objs w' = objs w |` (- snd ` set (filter (\<lambda>(n, v). sub_title queue_sub_name w v = cstr [113]) [(4 :: addr, 5)]))"
  unfolding Let_def
  by (rule queue_unsubscribe_removes [OF demo_subscribed_ready, where h = "granted_reply EMQ_PROTOCOL_CMD_QUEUE_UNSUBSCRIBE" and rest = "[]"])
    simp_all

text \<open>
  C8: unsubscribing from one topic of a channel, when the server agrees, removes and frees the
  subscriptions to every topic of that channel: the topic only goes into the request.
\<close>

theorem channel_unsubscribe_removes_every_topic:
  assumes "client_ready a c b s w qs cs" and "strlenz name \<le> 64 \<and> strlenz topic \<le> 32" and "live s"
    and "c_noack c = 0" and "incoming s = response_header_bytes h @ rest"
    and "reply_error (reply_check EMQ_PROTOCOL_CMD_CHANNEL_UNSUBSCRIBE 0) h = None"
  shows "\<exists>c' b' s' w'. emq_channel_unsubscribe (Some a) name topic w = Some (EMQ_STATUS_OK, w') \<and> incoming s' = rest \<and>
    client_ready a c' b' s' w' qs (filter (\<lambda>(n, v). sub_title channel_sub_name w v \<noteq> cstr name) cs) \<and>
    objs w' = objs w |` (- snd ` set (filter (\<lambda>(n, v). sub_title channel_sub_name w v = cstr name) cs))"
proof -
  obtain c' b' s' w' where "emq_channel_unsubscribe (Some a) name topic w = Some (EMQ_STATUS_OK, sess a c' b' s' w')"
    "incoming s' = rest"
    "callback_ready a c' b' s' w' qs (filter (\<lambda>(n, v). sub_title channel_sub_name w v \<noteq> cstr name) cs) None"
    "objs w' = objs w |` (- snd ` set (filter (\<lambda>(n, v). sub_title channel_sub_name w v = cstr name) cs))"
    using channel_unsubscribe_decided [OF client_readyD(1) [OF assms(1)] assms(2-6),
        unfolded client_readyD(2) [OF assms(1)]] by (elim exE conjE) (rule that)
  then show ?thesis
    by (intro exI [of _ c'] exI [of _ b'] exI [of _ s'] exI [of _ "sess a c' b' s' w'"]) simp
qed

theorem channel_unsubscribe_removes_every_topic_witness:
  "let w = demo_subscribed (demo_socket (response_header_bytes (granted_reply EMQ_PROTOCOL_CMD_CHANNEL_UNSUBSCRIBE) @ []))
   in \<exists>c' b' s' w'. emq_channel_unsubscribe (Some 0) [99] [120] w = Some (EMQ_STATUS_OK, w') \<and> incoming s' = [] \<and>
    client_ready 0 c' b' s' w' [(4, 5)] (filter (\<lambda>(n, v). sub_title channel_sub_name w v \<noteq> cstr [99]) [(6 :: addr, 7)]) \<and>
    objs w' = objs w |` (- snd ` set (filter (\<lambda>(n, v). sub_title channel_sub_name w v = cstr [99]) [(6 :: addr, 7)]))"
  unfolding Let_def
  by (rule channel_unsubscribe_removes_every_topic [OF demo_subscribed_ready, where h = "granted_reply EMQ_PROTOCOL_CMD_CHANNEL_UNSUBSCRIBE" and rest = "[]"])
    simp_all

text \<open>
  C9: \<open>emq_channel_punsubscribe\<close> takes the proper reply of the server for a wrong one: the call
  fails with the text of a bad response, and the subscriptions the server has ended stay
  registered with the client.
\<close>

theorem punsubscribe_refuses_its_reply:
  assumes "client_ready a c b s w qs cs" and "strlenz name \<le> 64 \<and> strlenz pattern \<le> 32" and "live s"
    and "c_noack c = 0"
    and "incoming s = response_header_bytes (granted_reply EMQ_PROTOCOL_CMD_CHANNEL_PUNSUBSCRIBE) @ rest"
  shows "\<exists>c' b' s' w'. emq_channel_punsubscribe (Some a) name pattern w = Some (EMQ_STATUS_ERR, w') \<and>
    emq_last_error (Some a) w' = Some ''Response error'' \<and> client_ready a c' b' s' w' qs cs \<and>
    incoming s' = rest \<and> objs w' = objs w"
proof -
  let ?h = "granted_reply EMQ_PROTOCOL_CMD_CHANNEL_PUNSUBSCRIBE"
  have "reply_error (reply_check EMQ_PROTOCOL_CMD_CHANNEL_UNSUBSCRIBE 0) ?h = Some EMQ_ERROR_RESPONSE"
    by (simp add: reply_error_def reply_check_def emq_check_response_header_def granted_reply_def)
  from channel_punsubscribe_rejected [OF client_readyD(1) [OF assms(1)] assms(2-5) this,
      unfolded client_readyD(2) [OF assms(1)]]
  obtain c' b' s' where u: "emq_channel_punsubscribe (Some a) name pattern w = Some (EMQ_STATUS_ERR, sess a c' b' s' w)"
    "incoming s' = rest" "c_error c' = error_text EMQ_ERROR_RESPONSE" "callback_ready a c' b' s' w qs cs None"
    by (elim exE conjE) (rule that)
  then show ?thesis
    by (intro exI [of _ c'] exI [of _ b'] exI [of _ s'] exI [of _ "sess a c' b' s' w"]) (simp add: emq_last_error_def)
qed

theorem punsubscribe_refuses_its_reply_witness:
  "let w = demo_subscribed (demo_socket (response_header_bytes (granted_reply EMQ_PROTOCOL_CMD_CHANNEL_PUNSUBSCRIBE) @ []))
   in \<exists>c' b' s' w'. emq_channel_punsubscribe (Some 0) [99] [116] w = Some (EMQ_STATUS_ERR, w') \<and>
    emq_last_error (Some 0) w' = Some ''Response error'' \<and> client_ready 0 c' b' s' w' [(4, 5)] [(6, 7)] \<and>
    incoming s' = [] \<and> objs w' = objs w"
  unfolding Let_def by (rule punsubscribe_refuses_its_reply [OF demo_subscribed_ready]) simp_all

section \<open>Events\<close>

text \<open>
  C10: \<open>emq_process\<close> returns when the server closes the connection in the end, whatever finite stream of
  bytes it sends before (the \<open>incoming\<close> of the model; on a connection that stays open and silent the loop
  of the code waits in \<open>read\<close>). Every round takes the 8 bytes of a header at least, so the loop has no
  more rounds than the stream has headers, and after any number of rounds, as far as the loop comes, the
  client is in order. The status is the result, and success means that no queue subscription is left.
  Hypotheses: the callbacks keep their contract, the number of events that can still come is one they
  can take (\<open>room\<close>), and they can take the null message of a notification or no notification comes.
\<close>

theorem process_returns:
  assumes "client_ready a c b s w qs cs" and "callback_contract cb null_ok room"
    and "null_ok \<or> qs = [] \<or> notify_free s" and "room (length (incoming s)) (message_counter w)"
  shows "(\<exists>r c' b' s' w' qs' cs'. emq_process cb (Some a) w = Some (r, w') \<and> r \<in> {EMQ_STATUS_OK, EMQ_STATUS_ERR} \<and>
      c_status c' = r \<and> client_ready a c' b' s' w' qs' cs' \<and> shrinks s s' \<and> (r = EMQ_STATUS_OK \<longrightarrow> qs' = [])) \<and>
    (\<forall>n. \<exists>out c' b' s' w' qs' cs'. process_rounds cb n (Some a) w = Some (out, w') \<and>
      process_loop cb (Some a) w = (case out of None \<Rightarrow> process_loop cb (Some a) w' | Some fin \<Rightarrow> Some (fin, w')) \<and>
      client_ready a c' b' s' w' qs' cs' \<and> shrinks s s' \<and>
      (out = None \<longrightarrow> sizeof_header * n + length (incoming s') \<le> length (incoming s)))"
proof (intro conjI allI)
  note ready = client_readyD(1) [OF assms(1)] and same = client_readyD(2) [OF assms(1)]
  obtain r c' b' s' w' qs' cs' where "emq_process cb (Some a) w = Some (r, sess a c' b' s' w')"
    "c_status c' = r" "r \<in> {EMQ_STATUS_OK, EMQ_STATUS_ERR}" "callback_ready a c' b' s' w' qs' cs' None" "shrinks s s'"
    "r = EMQ_STATUS_OK \<longrightarrow> qs' = []"
    using callback_contract.emq_process_ends [OF assms(2) ready assms(3,4), unfolded same]
    by (elim exE conjE) (rule that)
  then show "\<exists>r c' b' s' w' qs' cs'. emq_process cb (Some a) w = Some (r, w') \<and> r \<in> {EMQ_STATUS_OK, EMQ_STATUS_ERR} \<and>
      c_status c' = r \<and> client_ready a c' b' s' w' qs' cs' \<and> shrinks s s' \<and> (r = EMQ_STATUS_OK \<longrightarrow> qs' = [])"
    by (intro exI [of _ r] exI [of _ c'] exI [of _ b'] exI [of _ s'] exI [of _ "sess a c' b' s' w'"]
        exI [of _ qs'] exI [of _ cs']) simp
  fix n
  obtain out c' b' s' w' qs' cs' where "process_rounds cb n (Some a) w = Some (out, sess a c' b' s' w')"
    "callback_ready a c' b' s' w' qs' cs' None" "shrinks s s'"
    "out = None \<longrightarrow> sizeof_header * n + length (incoming s') \<le> length (incoming s)"
    using callback_contract.process_rounds_done [OF assms(2) ready assms(3,4), of n, unfolded same]
    by (elim exE conjE) (rule that)
  then show "\<exists>out c' b' s' w' qs' cs'. process_rounds cb n (Some a) w = Some (out, w') \<and>
      process_loop cb (Some a) w = (case out of None \<Rightarrow> process_loop cb (Some a) w' | Some fin \<Rightarrow> Some (fin, w')) \<and>
      client_ready a c' b' s' w' qs' cs' \<and> shrinks s s' \<and>
      (out = None \<longrightarrow> sizeof_header * n + length (incoming s') \<le> length (incoming s))"
    by (intro exI [of _ out] exI [of _ c'] exI [of _ b'] exI [of _ s'] exI [of _ "sess a c' b' s' w'"]
        exI [of _ qs'] exI [of _ cs']) (simp add: rounds_then_loop)
qed

theorem process_returns_witness:
  "let s = demo_socket (event_header_bytes (demo_event EMQ_PROTOCOL_CMD_QUEUE_SUBSCRIBE 66) @ zfield 64 [113] @ [1, 2]);
       w = demo_subscribed s; cb = \<lambda>f. idle_callback
   in (\<exists>r c' b' s' w' qs' cs'. emq_process cb (Some 0) w = Some (r, w') \<and> r \<in> {EMQ_STATUS_OK, EMQ_STATUS_ERR} \<and>
      c_status c' = r \<and> client_ready 0 c' b' s' w' qs' cs' \<and> shrinks s s' \<and> (r = EMQ_STATUS_OK \<longrightarrow> qs' = [])) \<and>
    (\<forall>n. \<exists>out c' b' s' w' qs' cs'. process_rounds cb n (Some 0) w = Some (out, w') \<and>
      process_loop cb (Some 0) w = (case out of None \<Rightarrow> process_loop cb (Some 0) w' | Some fin \<Rightarrow> Some (fin, w')) \<and>
      client_ready 0 c' b' s' w' qs' cs' \<and> shrinks s s' \<and>
      (out = None \<longrightarrow> sizeof_header * n + length (incoming s') \<le> length (incoming s)))"
  unfolding Let_def by (rule process_returns [OF demo_subscribed_ready idle_contract]) simp_all

text \<open>
  C11: no sequence of operations breaks the client. Each of the acknowledged commands, the
  queries for a number, the statistics, subscribing, unsubscribing, the acknowledgement switch
  and the event loop, in any order, whatever the system calls and the allocations do, returns and leaves
  it in order. What is asked of the environment: the callbacks keep their contract and can take as many
  events as are to come (\<open>room\<close>); they can take the null message of a notification or none
  comes; and the server sends a finite stream and closes.
\<close>

theorem operations_keep_client:
  assumes "client_ready a c b s w qs cs" and "callback_contract cb null_ok room" and "null_ok \<or> notify_free s"
    and "room (length (incoming s)) (message_counter w)"
  shows "\<exists>rs c' b' s' w' qs' cs'. run_ops cb ops (Some a) w = Some (rs, w') \<and>
    client_ready a c' b' s' w' qs' cs' \<and> shrinks s s'"
proof -
  obtain rs c' b' s' w' qs' cs' where "run_ops cb ops (Some a) w = Some (rs, sess a c' b' s' w')"
    "callback_ready a c' b' s' w' qs' cs' None" "shrinks s s'"
    using callback_contract.run_ops_done [OF assms(2) client_readyD(1) [OF assms(1)] assms(3,4), of ops,
        unfolded client_readyD(2) [OF assms(1)]] by (elim exE conjE) (rule that)
  then show ?thesis
    by (intro exI [of _ rs] exI [of _ c'] exI [of _ b'] exI [of _ s'] exI [of _ "sess a c' b' s' w'"]
        exI [of _ qs'] exI [of _ cs']) simp
qed

theorem operations_keep_client_witness:
  "let s = demo_socket [200, 45, 0, 0, 1, 2, 3];
       ops = [Call Ping, QueueSubscribe [65] 0 (Some 2), Stat, Process, ChannelPunsubscribe [99] [116], NoackEnable,
         Call (UserDelete [66]), QueueUnsubscribe [113], Process]
   in \<exists>rs c' b' s' w' qs' cs'. run_ops (\<lambda>f. queue_message_callback) ops (Some 0) (demo_subscribed s) = Some (rs, w') \<and>
    client_ready 0 c' b' s' w' qs' cs' \<and> shrinks s s'"
  unfolding Let_def
proof (rule operations_keep_client [OF demo_subscribed_ready queue_callback.callback_contract_axioms])
  show "False \<or> notify_free (demo_socket [200, 45, 0, 0, 1, 2, 3])"
    unfolding notify_free_def by (auto dest!: arg_cong [of "[200, 45, 0, 0, 1, 2, 3]" _ length] simp: sizeof_header_def)
qed (simp add: counts_def INT_MAX_def sizeof_header_def demo_subscribed_def demo_world_def demo_with_def)

text \<open>
  C12: a message event for a queue with a subscription reaches the callback of the newest
  subscription to that queue, which gets the name and a message with exactly the bytes of the
  event, in a client in order that has consumed the event and no more.
\<close>

theorem queue_message_delivered:
  assumes "client_ready a c b s w qs cs" and "live s"
    and "incoming s = raw @ d @ rest" and "length raw = 64"
    and "ev_type h = EMQ_PROTOCOL_EVENT_MESSAGE" and "unat (ev_bodylen h) = 64 + length d" and "length d < 2 ^ 31"
    and "alloc_ok w (brk w)" and "alloc_ok w (Suc (brk w))"
    and "addressee queue_sub_name w raw qs = Some v" and "objs w v = Some (QueueSubscription q)"
  shows "\<exists>p m s' w'. emq_queue_process cb (Some a) h w = run_callback (Some a)
      (cb (qs_callback q) (Some a) EMQ_CALLBACK_QUEUE (qs_name q) None None (Some p)) w' \<and>
    msg_rep w' p m d \<and> client_ready a c b s' w' qs cs \<and> incoming s' = rest"
proof -
  note ready = client_readyD(1) [OF assms(1)] and same = client_readyD(2) [OF assms(1)]
  let ?m = "read_msg (ucast (ev_bodylen h - 64)) (Suc (brk w))"
  obtain s' where s': "emq_queue_process cb (Some a) h w = run_callback (Some a)
      (cb (qs_callback q) (Some a) EMQ_CALLBACK_QUEUE (qs_name q) None None (Some (brk w))) (sess a c b s' (add_msg ?m d w))"
    "incoming s' = rest"
    using queue_dispatch_live [OF ready assms(2-11), of cb, unfolded same] by blast
  have sz: "unat (ucast (ev_bodylen h - 64) :: size_t) = length d"
    using event_msg_size [of "ev_bodylen h" 64 "length d"] assms(6) by simp
  then have cr: "callback_ready a c b s' (add_msg ?m d w) qs cs (Some (brk w))"
    using callback_ready_message [OF ready, of d "ucast (ev_bodylen h - 64)" s'] by simp
  have "msg_rep (sess a c b s' (add_msg ?m d w)) (brk w) ?m d" by (rule delivered_message [OF ready sz [symmetric]])
  with s' callback_ready_None [OF cr] show ?thesis
    by (intro exI [of _ "brk w"] exI [of _ ?m] exI [of _ s'] exI [of _ "sess a c b s' (add_msg ?m d w)"]) simp
qed

theorem queue_message_delivered_witness:
  "let s = demo_socket (zfield 64 [113] @ [1, 2] @ [7]); h = demo_event EMQ_PROTOCOL_CMD_QUEUE_SUBSCRIBE 66
   in \<exists>p m s' w'. emq_queue_process (\<lambda>f. idle_callback) (Some 0) h (demo_subscribed s) = run_callback (Some 0)
      (idle_callback (Some 0) EMQ_CALLBACK_QUEUE (qs_name demo_queue_sub) None None (Some p)) w' \<and>
    msg_rep w' p m [1, 2] \<and> client_ready 0 demo_client demo_buffer s' w' [(4, 5)] [(6, 7)] \<and> incoming s' = [7]"
  unfolding Let_def
  by (rule queue_message_delivered [OF demo_subscribed_ready, where raw = "zfield 64 [113]" and rest = "[7]" and v = 5]) simp_all

text \<open>
  C13: an event for a queue without a subscription ends \<open>emq_process\<close> with an error that has no text,
  and the rest of the event stays in the stream, where the next call takes it for a header.
\<close>

theorem unknown_queue_event_stays:
  assumes "client_ready a c b s w qs cs" and "live s" and "qs \<noteq> [] \<or> cs \<noteq> []"
    and "incoming s = event_header_bytes h @ raw @ rest" and "length raw = 64"
    and "event_expected h" and "ev_cmd h = cmd_code EMQ_PROTOCOL_CMD_QUEUE_SUBSCRIBE"
    and "addressee queue_sub_name w raw qs = None"
  shows "\<exists>c' s' w'. emq_process cb (Some a) w = Some (EMQ_STATUS_ERR, w') \<and>
    emq_last_error (Some a) w' = Some '''' \<and> client_ready a c' b s' w' qs cs \<and> incoming s' = rest"
proof -
  note ready = client_readyD(1) [OF assms(1)] and same = client_readyD(2) [OF assms(1)]
  let ?c = "c\<lparr>c_error := ''''\<rparr>" and ?e = "c\<lparr>c_error := '''', c_status := EMQ_STATUS_ERR\<rparr>"
  have ready': "callback_ready a ?c b t w qs cs None" for t using callback_ready_upd(3) [OF ready] .
  have idle: "no_subscriptions (Some a) (sess a ?c b s w) = Some False"
    using assms(3) ready' no_subscriptions_sess [of ?c w qs cs a b s] by (auto simp: callback_ready_def)
  obtain s1 where s1: "emq_client_read (Some a) (int sizeof_header) (sess a ?c b s w)
      = Some (int sizeof_header, event_header_bytes h, sess a ?c b s1 w)" "took_in s (event_header_bytes h) s1"
    using emq_client_read_front [OF assms(2,4), of "int sizeof_header" a ?c b w] by auto
  have inc: "live s1" "incoming s1 = raw @ rest" using s1(2) assms(4) by (simp_all add: took_in_def)
  obtain s' where s': "emq_queue_process cb (Some a) h (sess a ?c b s1 w) = Some (-1, sess a ?c b s' w)" "incoming s' = rest"
    using queue_unknown_live [OF ready' inc assms(5,8), of cb h] by blast
  have "event_header_of (event_header_bytes h) = h" using event_header_roundtrip [of h "[]"] by simp
  then have "process_loop cb (Some a) (sess a ?c b s w) = Some (False, sess a ?c b s' w)"
    using idle s1(1) s'(1) assms(6,7) by (subst process_loop_step) (simp add: process_event_def)
  then have "emq_process cb (Some a) w = Some (EMQ_STATUS_ERR, sess a ?e b s' w)"
    using emq_process_cases [of cb a c b s w] by (simp add: same)
  moreover have "callback_ready a ?e b s' w qs cs None" using ready' by (simp add: callback_ready_status)
  ultimately show ?thesis
    using s'(2) by (intro exI [of _ ?e] exI [of _ s'] exI [of _ "sess a ?e b s' w"]) (simp add: emq_last_error_def)
qed

theorem unknown_queue_event_stays_witness:
  "let s = demo_socket (event_header_bytes (demo_event EMQ_PROTOCOL_CMD_QUEUE_SUBSCRIBE 66) @ zfield 64 [65] @ [1, 2])
   in \<exists>c' s' w'. emq_process (\<lambda>f. idle_callback) (Some 0) (demo_subscribed s) = Some (EMQ_STATUS_ERR, w') \<and>
    emq_last_error (Some 0) w' = Some '''' \<and> client_ready 0 c' demo_buffer s' w' [(4, 5)] [(6, 7)] \<and> incoming s' = [1, 2]"
  unfolding Let_def
  by (rule unknown_queue_event_stays [OF demo_subscribed_ready, where raw = "zfield 64 [65]"
      and h = "demo_event EMQ_PROTOCOL_CMD_QUEUE_SUBSCRIBE 66"])
    (simp_all add: event_expected_def emq_check_event_header_def demo_event_def)

text \<open>
  C14: an event of a channel reaches the callback of the newest subscription to that channel,
  whatever topic or pattern the subscription was made for, with the topic (and pattern) of the event
  and a message with exactly its bytes.
\<close>

theorem channel_message_delivered:
  assumes "client_ready a c b s w qs cs" and "live s"
    and "incoming s = raw @ topic @ pattern @ d @ rest" and "length raw = 64" and "length topic = 32"
    and "length pattern = (if ext then 32 else 0)" and "unat (ev_bodylen h) = 96 + length pattern + length d"
    and "length d < 2 ^ 31" and "alloc_ok w (brk w)" and "alloc_ok w (Suc (brk w))"
    and "addressee channel_sub_name w raw cs = Some v" and "objs w v = Some (ChannelSubscription q)"
  shows "\<exists>p m s' w'. emq_channel_process cb (Some a) h ext w = run_callback (Some a)
      (cb (cs_callback q) (Some a) EMQ_CALLBACK_CHANNEL (cs_name q) (Some topic) (if ext then Some pattern else None) (Some p)) w' \<and>
    msg_rep w' p m d \<and> client_ready a c b s' w' qs cs \<and> incoming s' = rest"
proof -
  note ready = client_readyD(1) [OF assms(1)] and same = client_readyD(2) [OF assms(1)]
  obtain s' sz where s': "emq_channel_process cb (Some a) h ext w = run_callback (Some a)
      (cb (cs_callback q) (Some a) EMQ_CALLBACK_CHANNEL (cs_name q) (Some topic) (if ext then Some pattern else None)
        (Some (brk w))) (sess a c b s' (add_msg (read_msg sz (Suc (brk w))) d w))"
    "unat sz = length d" "incoming s' = rest"
    using channel_dispatch_live [OF ready assms(2-12), of cb, unfolded same] by blast
  let ?m = "read_msg sz (Suc (brk w))"
  have cr: "callback_ready a c b s' (add_msg ?m d w) qs cs (Some (brk w))"
    using callback_ready_message [OF ready, of d sz s'] s'(2) by simp
  have "msg_rep (sess a c b s' (add_msg ?m d w)) (brk w) ?m d" by (rule delivered_message [OF ready]) (simp add: s'(2))
  with s' callback_ready_None [OF cr] show ?thesis
    by (intro exI [of _ "brk w"] exI [of _ ?m] exI [of _ s'] exI [of _ "sess a c b s' (add_msg ?m d w)"]) simp
qed

theorem channel_message_delivered_witness:
  "let s = demo_socket (zfield 64 [99] @ zfield 32 [120] @ zfield 32 [42] @ [1, 2] @ [7]);
       h = demo_event EMQ_PROTOCOL_CMD_CHANNEL_PSUBSCRIBE 130
   in \<exists>p m s' w'. emq_channel_process (\<lambda>f. idle_callback) (Some 0) h True (demo_subscribed s) = run_callback (Some 0)
      (idle_callback (Some 0) EMQ_CALLBACK_CHANNEL (cs_name demo_channel_sub) (Some (zfield 32 [120]))
        (if True then Some (zfield 32 [42]) else None) (Some p)) w' \<and>
    msg_rep w' p m [1, 2] \<and> client_ready 0 demo_client demo_buffer s' w' [(4, 5)] [(6, 7)] \<and> incoming s' = [7]"
  unfolding Let_def
  by (rule channel_message_delivered [OF demo_subscribed_ready, where raw = "zfield 64 [99]" and rest = "[7]" and v = 7]) simp_all

section \<open>The byte stream\<close>

text \<open>
  C15: whatever the environment does with each \<open>read\<close> (parts of any size, errors, end of file),
  \<open>emq_client_read\<close> returns, takes a prefix of the stream and nothing else, and reports either an
  error or that it has all \<open>n\<close> bytes, never a short success. On a connection that moves at least a
  byte per call it succeeds exactly when \<open>n\<close> bytes are to come, however the stream is cut into parts.
\<close>

theorem read_reassembles:
  assumes "client_sock p w s"
  shows "\<exists>r bs s'. emq_client_read p n w = Some (r, bs, with_sock p s' w) \<and> sock_read s bs s' \<and>
    incoming s = bs @ incoming s' \<and> (r = -1 \<or> r = n \<and> int (length bs) = n) \<and>
    (live_reads s \<and> 0 \<le> n \<longrightarrow> (r = n \<longleftrightarrow> n \<le> int (length (incoming s))))"
proof -
  have "get_client p w \<noteq> None" using assms by (auto simp: client_sock_def)
  then obtain r bs w' where run: "emq_client_read p n w = Some (r, bs, w')"
    using emq_client_read_total by blast
  then obtain s' where s': "w' = with_sock p s' w" "sock_read s bs s'" "r = -1 \<or> r = n \<and> int (length bs) = n"
    using emq_client_read_stream [OF assms run] by blast
  have front: "incoming s = bs @ incoming s'" using sock_read_front [OF s'(2)] .
  have "r = n \<longleftrightarrow> n \<le> int (length (incoming s))" if "live_reads s" "0 \<le> n"
  proof
    assume "r = n"
    with s'(3) that(2) show "n \<le> int (length (incoming s))" using front by auto
  next
    assume "n \<le> int (length (incoming s))"
    then show "r = n" using emq_client_read_live [OF assms that(1), of "nat n"] that(2) run by auto
  qed
  with run s' front show ?thesis by blast
qed

theorem read_reassembles_witness:
  "\<exists>r bs s'. emq_client_read (Some 0) 2 (demo_world [7, 8, 9]) = Some (r, bs, with_sock (Some 0) s' (demo_world [7, 8, 9])) \<and>
    sock_read (demo_socket [7, 8, 9]) bs s' \<and> incoming (demo_socket [7, 8, 9]) = bs @ incoming s' \<and>
    (r = -1 \<or> r = 2 \<and> int (length bs) = 2) \<and>
    (live_reads (demo_socket [7, 8, 9]) \<and> 0 \<le> (2 :: int) \<longrightarrow> (r = 2 \<longleftrightarrow> 2 \<le> int (length (incoming (demo_socket [7, 8, 9])))))"
  unfolding demo_world_def by (rule read_reassembles [OF demo_client_sock])

text \<open>
  C16: \<open>emq_client_write\<close> sends a prefix of the buffer, in order and once; on a connection that
  takes at least a byte per call it sends all of it. Unless a \<open>write\<close> returns 0, which ends the
  loop with a short count, what is not sent completely is reported as -1, the only value callers
  compare with.
\<close>

theorem write_sends_a_prefix:
  assumes "client_sock p w s"
  shows "\<exists>r k s'. emq_client_write p buf w = Some (r, with_sock p s' w) \<and> k \<le> length buf \<and>
    outgoing s' = outgoing s @ take k buf \<and> incoming s' = incoming s \<and> (r = -1 \<or> r = int k) \<and>
    (no_empty_writes s \<longrightarrow> r = -1 \<or> r = int (length buf)) \<and>
    (live_writes s \<longrightarrow> r = int (length buf) \<and> k = length buf)"
proof -
  obtain c where "get_client p w = Some c" using assms by (auto simp: client_sock_def)
  then obtain r w' where run: "emq_client_write p buf w = Some (r, w')"
    by (cases "write_loop (c_fd c) (int (length buf)) 0 buf w") (simp add: emq_client_write_def)
  show ?thesis
  proof (cases "live_writes s")
    case True
    obtain s' where "emq_client_write p buf w = Some (int (length buf), with_sock p s' w)" "sock_wrote s buf s'"
      using emq_client_write_live [OF assms True] by blast
    moreover from this(2) have "outgoing s' = outgoing s @ buf" "incoming s' = incoming s"
      by (simp_all add: sock_wrote_out)
    ultimately show ?thesis
      by (intro exI [of _ "int (length buf)"] exI [of _ "length buf"] exI [of _ s']) simp
  next
    case False
    obtain k s' where ks: "k \<le> length buf" "w' = with_sock p s' w" "sock_wrote s (take k buf) s'" "r = -1 \<or> r = int k"
      using emq_client_write_stream [OF assms run] by blast
    have "outgoing s' = outgoing s @ take k buf" "incoming s' = incoming s"
      by (simp_all add: sock_wrote_out [OF ks(3)])
    with False run ks emq_client_write_complete [OF assms _ run] show ?thesis
      by (intro exI [of _ r] exI [of _ k] exI [of _ s']) simp
  qed
qed

theorem write_sends_a_prefix_witness:
  "\<exists>r k s'. emq_client_write (Some 0) [1, 2, 3] (demo_world []) = Some (r, with_sock (Some 0) s' (demo_world [])) \<and>
    k \<le> length [1 :: byte, 2, 3] \<and> outgoing s' = outgoing (demo_socket []) @ take k [1, 2, 3] \<and>
    incoming s' = incoming (demo_socket []) \<and> (r = -1 \<or> r = int k) \<and>
    (no_empty_writes (demo_socket []) \<longrightarrow> r = -1 \<or> r = int (length [1 :: byte, 2, 3])) \<and>
    (live_writes (demo_socket []) \<longrightarrow> r = int (length [1 :: byte, 2, 3]) \<and> k = length [1 :: byte, 2, 3])"
  unfolding demo_world_def by (rule write_sends_a_prefix [OF demo_client_sock])

text \<open>
  C17: \<open>emq_client_writev\<close> fails to return exactly when the open connection answers every
  \<open>writev\<close> from now on with \<open>EINTR\<close>.
\<close>

theorem writev_returns_unless_interrupted_forever:
  assumes "get_client p w = Some c"
  shows "emq_client_writev p iov w = None \<longleftrightarrow>
    (\<exists>s. socks w (c_fd c) = Some s \<and> (\<forall>i \<ge> wr_pos s. wr_script s i = Io_error EINTR))"
  using assms by (simp add: emq_client_writev_def writev_loop_None_iff)

theorem writev_returns_unless_interrupted_forever_witness:
  "let s = demo_socket []\<lparr>wr_script := \<lambda>i. Io_error EINTR\<rparr>
   in emq_client_writev (Some 0) [[1], [2]] (demo_with demo_client s) = None \<longleftrightarrow>
    (\<exists>t. socks (demo_with demo_client s) (c_fd demo_client) = Some t \<and> (\<forall>i \<ge> wr_pos t. wr_script t i = Io_error EINTR))"
  unfolding Let_def by (rule writev_returns_unless_interrupted_forever) simp

text \<open>
  C18: a call that the server refuses fails with the text of the status it sent. The text is
  empty, although the call failed, exactly for the statuses \<open>emq_get_error\<close> has no case for;
  2 (\<open>STATUS_ERROR\<close>) and 7 (\<open>STATUS_ERROR_VALUE\<close>) are among them.
\<close>

theorem refused_call_error_text:
  assumes "session a c b s w" and "call_ok call" and "live s" and "c_noack c = 0"
    and "incoming s = response_header_bytes h @ rest"
    and "call_check call h = EMQ_STATUS_OK" and "res_status h \<noteq> EMQ_PROTOCOL_STATUS_SUCCESS"
  shows "\<exists>s' w'. run_call call (Some a) w = Some (EMQ_STATUS_ERR, w') \<and>
    call_effect a c (Some (emq_get_error h)) s' w w' \<and> incoming s' = rest \<and>
    emq_last_error (Some a) w' = Some (error_text (emq_get_error h)) \<and>
    (error_text (emq_get_error h) = '''' \<longleftrightarrow> res_status h \<notin> {3, 4, 5, 6, 8, 9, 10})"
proof -
  have e: "reply_error (call_check call) h = Some (emq_get_error h)"
    using assms(6,7) by (simp add: reply_error_def)
  from run_call_live [OF sessionD(1) [OF assms(1)] assms(2-5), of a w, unfolded e] obtain n b' s' where
    run: "run_call call (Some a) (sess a c b s w)
      = Some (EMQ_STATUS_ERR, sess a (settle (Some (emq_get_error h)) (c\<lparr>c_pos := n\<rparr>)) b' s' w)"
    "sess_ok c b'" "incoming s' = rest" by auto
  let ?w = "sess a (settle (Some (emq_get_error h)) (c\<lparr>c_pos := n\<rparr>)) b' s' w"
  have "run_call call (Some a) w = Some (EMQ_STATUS_ERR, ?w)" using run(1) sess_same [OF assms(1)] by simp
  moreover have "call_effect a c (Some (emq_get_error h)) s' w ?w" by (rule call_effectI [OF run(2)])
  moreover have "emq_last_error (Some a) ?w = Some (error_text (emq_get_error h))" by (simp add: emq_last_error_def)
  ultimately show ?thesis
    using run(3) error_text_empty_iff get_error_none_iff by blast
qed

theorem refused_call_error_text_witness:
  "let h = \<lparr>res_magic = 128, res_cmd = 11, res_status = 7, res_bodylen = 0\<rparr>; w = demo_world (response_header_bytes h @ [])
   in \<exists>s' w'. run_call Ping (Some 0) w = Some (EMQ_STATUS_ERR, w') \<and>
    call_effect 0 demo_client (Some (emq_get_error h)) s' w w' \<and> incoming s' = [] \<and>
    emq_last_error (Some 0) w' = Some (error_text (emq_get_error h)) \<and>
    (error_text (emq_get_error h) = '''' \<longleftrightarrow> res_status h \<notin> {3, 4, 5, 6, 8, 9, 10})"
  unfolding Let_def
  by (rule refused_call_error_text [OF demo_world_session])
    (simp_all add: reply_check_def emq_check_response_header_def EMQ_PROTOCOL_RES_def EMQ_PROTOCOL_STATUS_SUCCESS_def)

section \<open>Queries\<close>

text \<open>
  C19: a list query returns the records the server sent, newest first: the list handed out has one
  object per record, in reverse order, and its free method; the reply is consumed to its last
  byte and the client is in order.
\<close>

theorem queue_list_reversed:
  assumes "client_ready a c b s w qs cs" and "live s" and "\<forall>k \<ge> brk w. alloc_ok w k"
    and "\<forall>r \<in> set rs. length (queue_name r) = 64"
    and "incoming s = response_header_bytes h @ concat (map encode_queue rs) @ rest"
    and "reply_error (reply_check_mini EMQ_PROTOCOL_CMD_QUEUE_LIST) h = None"
    and "unat (res_bodylen h) = 88 * length rs" and "88 * length rs < 2 ^ 31"
  shows "\<exists>lp ms c' b' s' w'. emq_queue_list (Some a) w = Some (Some lp, w') \<and>
    client_ready a c' b' s' w' qs cs \<and> list_rep w' lp (Some emq_queue_list_free_handler) ms \<and>
    holds w' ms (map Queue (rev rs)) \<and> distinct (map snd ms) \<and> incoming s' = rest"
proof -
  have len: "unat (res_bodylen h) = (64 + 6 * 4) * length rs" "(64 + 6 * 4) * length rs < 2 ^ 31"
    using assms(7,8) by simp_all
  obtain lp ms c' b' s' w' where "emq_queue_list (Some a) w = Some (Some lp, sess a c' b' s' w')"
    "callback_ready a c' b' s' w' qs cs None" "list_rep w' lp (Some emq_queue_list_free_handler) ms"
    "holds w' ms (map Queue (rev rs))" "distinct (map snd ms)" "incoming s' = rest"
    using queue_list_query.list_query_ready [OF client_readyD(1) [OF assms(1)] TrueI assms(2-6) len,
        of emq_queue_list_free_handler, folded emq_queue_list_def, unfolded client_readyD(2) [OF assms(1)]]
    by (elim exE conjE) (rule that)
  then show ?thesis
    by (intro exI [of _ lp] exI [of _ ms] exI [of _ c'] exI [of _ b'] exI [of _ s'] exI [of _ "sess a c' b' s' w'"]) simp
qed

theorem queue_list_reversed_witness:
  "let r = \<lparr>queue_name = zfield 64 [113], queue_max_msg = 10, queue_max_msg_size = 20, queue_flags = 1,
         queue_size = 3, queue_declared_clients = 1, queue_subscribed_clients = 0\<rparr>;
       h = \<lparr>res_magic = EMQ_PROTOCOL_RES, res_cmd = cmd_code EMQ_PROTOCOL_CMD_QUEUE_LIST,
         res_status = EMQ_PROTOCOL_STATUS_SUCCESS, res_bodylen = 176\<rparr>;
       w = demo_subscribed (demo_socket (response_header_bytes h @ concat (map encode_queue [r, r\<lparr>queue_size := 4\<rparr>]) @ []))
   in \<exists>lp ms c' b' s' w'. emq_queue_list (Some 0) w = Some (Some lp, w') \<and>
    client_ready 0 c' b' s' w' [(4, 5)] [(6, 7)] \<and> list_rep w' lp (Some emq_queue_list_free_handler) ms \<and>
    holds w' ms (map Queue (rev [r, r\<lparr>queue_size := 4\<rparr>])) \<and> distinct (map snd ms) \<and> incoming s' = []"
  unfolding Let_def
  by (rule queue_list_reversed [OF demo_subscribed_ready, where h = "\<lparr>res_magic = EMQ_PROTOCOL_RES,
         res_cmd = cmd_code EMQ_PROTOCOL_CMD_QUEUE_LIST, res_status = EMQ_PROTOCOL_STATUS_SUCCESS, res_bodylen = 176\<rparr>"])
    (simp_all add: reply_error_def reply_check_mini_def emq_check_response_header_mini_def)

text \<open>
  C20: a list reply whose length is not a whole number of records makes the query read behind the
  end of its buffer.
\<close>

theorem ragged_user_list_overreads:
  assumes "client_ready a c b s w qs cs" and "live s" and "\<forall>k \<ge> brk w. alloc_ok w k"
    and "incoming s = response_header_bytes h @ d @ rest"
    and "reply_error (reply_check_mini EMQ_PROTOCOL_CMD_USER_LIST) h = None"
    and "unat (res_bodylen h) = length d" and "length d < 2 ^ 31" and "length d mod 72 \<noteq> 0"
  shows "emq_user_list (Some a) w = None"
proof -
  have wf: "world_wf (sess a c b s w)" using client_readyD(1) [OF assms(1)] by (simp add: callback_ready_def)
  have "length d mod (64 + 8) \<noteq> 0" using assms(8) by simp
  from user_list_query.list_query_overread [OF client_readyD(3) [OF assms(1)] TrueI assms(2) wf assms(3-7) this,
      of emq_user_list_free_handler]
  show ?thesis by (simp add: emq_user_list_def client_readyD(2) [OF assms(1)])
qed

theorem ragged_user_list_overreads_witness:
  "let h = \<lparr>res_magic = EMQ_PROTOCOL_RES, res_cmd = cmd_code EMQ_PROTOCOL_CMD_USER_LIST,
         res_status = EMQ_PROTOCOL_STATUS_SUCCESS, res_bodylen = 3\<rparr>
   in emq_user_list (Some 0) (demo_subscribed (demo_socket (response_header_bytes h @ [1, 2, 3] @ []))) = None"
  unfolding Let_def
  by (rule ragged_user_list_overreads [OF demo_subscribed_ready, where d = "[1, 2, 3]" and h = "\<lparr>res_magic = EMQ_PROTOCOL_RES,
         res_cmd = cmd_code EMQ_PROTOCOL_CMD_USER_LIST, res_status = EMQ_PROTOCOL_STATUS_SUCCESS, res_bodylen = 3\<rparr>"])
    (simp_all add: reply_error_def reply_check_mini_def emq_check_response_header_mini_def)

text \<open>
  C21: \<open>emq_stat\<close> reads header and body in one piece. On a live connection with at least 63 bytes to
  come it takes these 63 bytes and gives the statistics in them, or the error their header stands
  for; with fewer to come, as after an error reply, which has no body, it gives a read error,
  whatever error the reply reports.
\<close>

theorem stat_decides:
  assumes "session a c b s w" and "live s"
    and "e = (if length (incoming s) < 63 then Some EMQ_ERROR_READ
      else reply_error (reply_check EMQ_PROTOCOL_CMD_STAT 55) (response_header_of (take 8 (incoming s))))"
  shows "\<exists>s' w'. emq_stat (Some a) w =
      Some ((result_of e, if e = None then Some (emq_status_of (take 55 (drop 8 (incoming s)))) else None), w') \<and>
    call_effect a c e s' w w' \<and> (63 \<le> length (incoming s) \<longrightarrow> incoming s' = drop 63 (incoming s))"
proof (cases "length (incoming s) < 63")
  case True
  then have "length (incoming s) < sizeof_header + sizeof_stat_body" by (simp add: sizeof_header_def sizeof_stat_body_def)
  from emq_stat_error_reply [OF sessionD(1) [OF assms(1)] assms(2) this, of a w] obtain n b' s' where
    q: "emq_stat (Some a) (sess a c b s w)
      = Some ((EMQ_STATUS_ERR, None), sess a (settle (Some EMQ_ERROR_READ) (c\<lparr>c_pos := n\<rparr>)) b' s' w)" "sess_ok c b'"
    by (elim exE conjE) (rule that)
  then show ?thesis
    using call_effectI [OF q(2), of a e s' w n] sess_same [OF assms(1)] assms(3) True
    by (intro exI [of _ s'] exI [of _ "sess a (settle e (c\<lparr>c_pos := n\<rparr>)) b' s' w"]) simp
next
  case False
  let ?h = "response_header_of (take 8 (incoming s))" and ?body = "take 55 (drop 8 (incoming s))"
  have "response_header_bytes ?h = take 8 (incoming s)"
    using False by (intro response_header_surj) (simp add: sizeof_header_def)
  then have parts: "incoming s = response_header_bytes ?h @ ?body @ drop 63 (incoming s)"
    using append_take_drop_id [of 8 "incoming s"] append_take_drop_id [of 55 "drop 8 (incoming s)"] by simp
  have body: "length ?body = sizeof_stat_body" using False by (simp add: sizeof_stat_body_def)
  obtain e' n b' s' where q': "emq_stat (Some a) (sess a c b s w)
      = Some ((result_of e', if e' = None then Some (emq_status_of ?body) else None),
          sess a (settle e' (c\<lparr>c_pos := n\<rparr>)) b' s' w)"
    "e' = reply_error (reply_check EMQ_PROTOCOL_CMD_STAT 55) ?h" "sess_ok c b'" "incoming s' = drop 63 (incoming s)"
    using emq_stat_live [OF sessionD(1) [OF assms(1)] assms(2) body parts, of a w] by (elim exE conjE) (rule that)
  have e': "e' = e" using q'(2) assms(3) False by simp
  note q = q'(1,3,4) [unfolded e']
  show ?thesis
    using q call_effectI [OF q(2), of a e s' w n] sess_same [OF assms(1)]
    by (intro exI [of _ s'] exI [of _ "sess a (settle e (c\<lparr>c_pos := n\<rparr>)) b' s' w"]) simp
qed

theorem stat_decides_witness:
  "let h = \<lparr>res_magic = EMQ_PROTOCOL_RES, res_cmd = cmd_code EMQ_PROTOCOL_CMD_STAT, res_status = 5, res_bodylen = 0\<rparr>;
       w = demo_world (response_header_bytes h); e = Some EMQ_ERROR_READ
   in \<exists>s' w'. emq_stat (Some 0) w = Some ((result_of e, if e = None
        then Some (emq_status_of (take 55 (drop 8 (incoming (demo_socket (response_header_bytes h)))))) else None), w') \<and>
    call_effect 0 demo_client e s' w w' \<and> (63 \<le> length (incoming (demo_socket (response_header_bytes h))) \<longrightarrow>
      incoming s' = drop 63 (incoming (demo_socket (response_header_bytes h))))"
  unfolding Let_def
  by (rule stat_decides [OF demo_world_session]) (simp_all add: sizeof_header_def)

section \<open>Messages\<close>

text \<open>
  C22: \<open>emq_queue_push\<close> sends in one piece: after any number of interrupted calls the one \<open>writev\<close>
  that takes \<open>j\<close> bytes decides. Whatever \<open>j\<close> is, the call goes on to the acknowledgement, so without
  acknowledgements it succeeds with only the first \<open>j\<close> bytes of the request, the expiry time and
  the message sent.
\<close>

theorem queue_push_ignores_short_writes:
  assumes "session a c b s w" and "strlenz name \<le> 64" and "c_noack c \<noteq> 0"
    and "msg_rep w q m d" and "m_data m \<noteq> c_request c" and "d \<noteq> []"
    and "\<forall>i < k. wr_script s (wr_pos s + i) = Io_error EINTR" and "wr_script s (wr_pos s + k) = Io j"
  shows "\<exists>s' w'. emq_queue_push (Some a) name (Some q) w = Some (EMQ_STATUS_OK, w') \<and> call_effect a c None s' w w' \<and>
    incoming s' = incoming s \<and> outgoing s' = outgoing s @ take j (request_wire EMQ_PROTOCOL_CMD_QUEUE_PUSH
      (client_noack c) (64 + ucast (4 + m_size m)) (zfield 64 name) @ le_bytes 4 (m_expire m) @ d)"
proof -
  have intr: "wr_script s (wr_pos s + k) \<noteq> Io_error EINTR" using assms(8) by simp
  have same: "sess a c b s w = w" by (rule sess_same [OF assms(1)])
  obtain n b' e s' where u: "sess_ok c b'" "emq_queue_push (Some a) name (Some q) w
      = Some (result_of e, sess a (settle e (c\<lparr>c_pos := n\<rparr>)) b' s' w)"
    "ack_phase (c_noack c) (reply_check EMQ_PROTOCOL_CMD_QUEUE_PUSH 0) (s\<lparr>wr_pos := Suc (wr_pos s + k), outgoing := outgoing s @
          take j (request_wire EMQ_PROTOCOL_CMD_QUEUE_PUSH (client_noack c) (64 + message_length True m) (zfield 64 name) @
            message_payload True m d)\<rparr>) e s'"
    using queue_push_msg.send_sess [OF sessionD(1) [OF assms(1)] assms(2,4-7) intr, of a True
        "reply_check EMQ_PROTOCOL_CMD_QUEUE_PUSH 0", folded emq_queue_push_def, unfolded same] assms(8) by auto
  have "e = None \<and> s' = s\<lparr>wr_pos := Suc (wr_pos s + k), outgoing := outgoing s @
          take j (request_wire EMQ_PROTOCOL_CMD_QUEUE_PUSH (client_noack c) (64 + message_length True m) (zfield 64 name) @
            message_payload True m d)\<rparr>"
    using u(3) assms(3) by (auto elim: ack_phase.cases)
  then show ?thesis
    using u(2) call_effectI [OF u(1), of a None s' w n] by (auto simp: message_length_def message_payload_def)
qed

theorem queue_push_ignores_short_writes_witness:
  "let m = \<lparr>m_data = Some 5, m_size = 2, m_tag = 0, m_expire = 9, m_zero_copy = Some 0\<rparr>;
       c = demo_client\<lparr>c_noack := 1\<rparr>;
       s = (demo_socket [])\<lparr>wr_script := \<lambda>i. if i < 2 then Io_error EINTR else Io 5\<rparr>;
       w = (demo_with c s)\<lparr>msgs := [4 \<mapsto> m], bufs := [1 \<mapsto> demo_buffer, 5 \<mapsto> [Some 7, Some 8]], brk := 6\<rparr>
   in \<exists>s' w'. emq_queue_push (Some 0) [113] (Some 4) w = Some (EMQ_STATUS_OK, w') \<and> call_effect 0 c None s' w w' \<and>
    incoming s' = incoming s \<and> outgoing s' = outgoing s @ take 5 (request_wire EMQ_PROTOCOL_CMD_QUEUE_PUSH
      (client_noack c) (64 + ucast (4 + m_size m)) (zfield 64 [113]) @ le_bytes 4 (m_expire m) @ [7, 8])"
  unfolding Let_def
  by (rule queue_push_ignores_short_writes [where k = 2 and b = demo_buffer])
    (simp_all add: session_def sess_ok_def demo_buffer_def msg_rep_def)

text \<open>
  C23: \<open>emq_queue_get\<close> in any environment: its outcome is one \<open>fetch_call\<close> allows. It fails with the error
  in the context (or without one, when the tag cannot be read), or returns a fresh message that owns a
  block with the bytes received; undefined behaviour is possible only where \<open>fetch_call\<close> has it.
\<close>

theorem queue_get_refines:
  assumes "client_ready a c b s w qs cs"
  shows "\<exists>r s'. fetch_call (wire_request (strlenz name \<le> 64) EMQ_PROTOCOL_CMD_QUEUE_GET (client_noack c) 64 (zfield 64 name))
      (reply_check_mini EMQ_PROTOCOL_CMD_QUEUE_GET) s r s' \<and> (case r of
        None \<Rightarrow> emq_queue_get (Some a) name w = None
      | Some (Inl e) \<Rightarrow> \<exists>w'. emq_queue_get (Some a) name w = Some (None, w') \<and> call_effect a c (Some e) s' w w'
      | Some (Inr (tag, d)) \<Rightarrow> \<exists>w'. emq_queue_get (Some a) name w = Some (Some (brk w), w') \<and>
          msg_rep w' (brk w) (fetched_msg (Suc (brk w)) tag d) d)"
proof -
  have wf: "world_wf (sess a c b s w)" using client_readyD(1) [OF assms] by (simp add: callback_ready_def)
  obtain r n b' s' where f: "fetch_call (wire_request (strlenz name \<le> 64) EMQ_PROTOCOL_CMD_QUEUE_GET (client_noack c) 64 (zfield 64 name))
      (reply_check_mini EMQ_PROTOCOL_CMD_QUEUE_GET) s r s'" "sess_ok c b'"
    "emq_queue_get (Some a) name w = (case r of
        None \<Rightarrow> None
      | Some (Inl e) \<Rightarrow> Some (None, sess a (settle (Some e) (c\<lparr>c_pos := n\<rparr>)) b' s' w)
      | Some (Inr (tag, d)) \<Rightarrow> Some (Some (brk w), sess a (settle None (c\<lparr>c_pos := n\<rparr>)) b' s'
          (add_msg (fetched_msg (Suc (brk w)) tag d) d w)))"
    using queue_get_req.fetch_sess [OF client_readyD(3) [OF assms] wf, of name "reply_check_mini EMQ_PROTOCOL_CMD_QUEUE_GET",
        folded emq_queue_get_def, unfolded client_readyD(2) [OF assms]] by (elim exE conjE) (rule that)
  have "msg_rep (sess a (settle None (c\<lparr>c_pos := n\<rparr>)) b' s' (add_msg (fetched_msg (Suc (brk w)) tag d) d w)) (brk w)
      (fetched_msg (Suc (brk w)) tag d) d" if "length d < 2 ^ 64" for tag d
    using that wf_request [OF wf] by (simp add: msg_rep_def add_msg_def fetched_msg_def unat_of_nat)
  moreover have "length d < 2 ^ 64" if "r = Some (Inr (tag, d))" for tag d
    using fetch_call_length f(1) that by blast
  moreover have "call_effect a c (Some e) s' w (sess a (settle (Some e) (c\<lparr>c_pos := n\<rparr>)) b' s' w)" for e
    using f(2) by (rule call_effectI)
  ultimately show ?thesis
    using f(1,3) by (intro exI [of _ r] exI [of _ s']) (auto simp del: settle.simps split: option.split sum.split)
qed

theorem queue_get_refines_witness:
  "let s = demo_socket [128, 0, 41, 1] in
   \<exists>r s'. fetch_call (wire_request (strlenz [113] \<le> 64) EMQ_PROTOCOL_CMD_QUEUE_GET (client_noack demo_client) 64 (zfield 64 [113]))
      (reply_check_mini EMQ_PROTOCOL_CMD_QUEUE_GET) s r s' \<and> (case r of
        None \<Rightarrow> emq_queue_get (Some 0) [113] (demo_subscribed s) = None
      | Some (Inl e) \<Rightarrow> \<exists>w'. emq_queue_get (Some 0) [113] (demo_subscribed s) = Some (None, w') \<and>
          call_effect 0 demo_client (Some e) s' (demo_subscribed s) w'
      | Some (Inr (tag, d)) \<Rightarrow> \<exists>w'. emq_queue_get (Some 0) [113] (demo_subscribed s) = Some (Some (brk (demo_subscribed s)), w') \<and>
          msg_rep w' (brk (demo_subscribed s)) (fetched_msg (Suc (brk (demo_subscribed s))) tag d) d)"
  unfolding Let_def by (rule queue_get_refines [OF demo_subscribed_ready])

text \<open>
  C24: when the connection ends inside the data of a fetched message, \<open>emq_queue_get\<close>
  writes the tag through the null pointer that \<open>emq_read_message\<close> returned.
\<close>

theorem broken_off_message_is_undefined:
  assumes "client_ready a c b s w qs cs" and "strlenz name \<le> 64" and "live s"
    and "incoming s = response_header_bytes h @ tag @ part" and "length tag = 8"
    and "reply_error (reply_check_mini EMQ_PROTOCOL_CMD_QUEUE_GET) h = None" and "8 + length part < unat (res_bodylen h)"
  shows "emq_queue_get (Some a) name w = None"
proof -
  have wf: "world_wf (sess a c b s w)" using client_readyD(1) [OF assms(1)] by (simp add: callback_ready_def)
  show ?thesis
    using queue_get_req.fetch_broken_off [OF client_readyD(3) [OF assms(1)] wf assms(2-7)]
    by (simp add: emq_queue_get_def client_readyD(2) [OF assms(1)])
qed

theorem broken_off_message_is_undefined_witness:
  "let h = \<lparr>res_magic = EMQ_PROTOCOL_RES, res_cmd = cmd_code EMQ_PROTOCOL_CMD_QUEUE_GET,
         res_status = EMQ_PROTOCOL_STATUS_SUCCESS, res_bodylen = 20\<rparr>;
       w = demo_subscribed (demo_socket (response_header_bytes h @ replicate 8 1 @ [2, 3]))
   in emq_queue_get (Some 0) [113] w = None"
  unfolding Let_def
  by (rule broken_off_message_is_undefined [OF demo_subscribed_ready, where h = "\<lparr>res_magic = EMQ_PROTOCOL_RES,
      res_cmd = cmd_code EMQ_PROTOCOL_CMD_QUEUE_GET, res_status = EMQ_PROTOCOL_STATUS_SUCCESS, res_bodylen = 20\<rparr>"
      and tag = "replicate 8 1" and part = "[2, 3]"])
    (simp_all add: reply_error_def reply_check_mini_def emq_check_response_header_mini_def)

text \<open>
  C25: a message made with a copy of its data holds exactly these bytes in a block of its own, and
  releasing it gives both blocks back and nothing else.
\<close>

theorem message_create_release:
  assumes "world_wf w" and "bufs w q = Some (map Some d @ rest)" and "unat sz = length d" and "length d < 2 ^ 63"
    and "alloc_ok w (brk w)" and "alloc_ok w (Suc (brk w))"
  shows "\<exists>m w'. emq_msg_create (Some q) sz EMQ_ZEROCOPY_OFF w = Some (Some (brk w), w') \<and> msg_rep w' (brk w) m d \<and>
    m_data m \<notin> {None, Some q} \<and> emq_msg_size (Some (brk w)) w' = Some sz \<and>
    (\<exists>w2. emq_msg_release (Some (brk w)) w' = Some w2 \<and> msgs w2 = msgs w \<and> bufs w2 = bufs w)"
proof -
  let ?m = "\<lparr>m_data = Some (Suc (brk w)), m_size = sz, m_tag = 0, m_expire = 0, m_zero_copy = Some EMQ_ZEROCOPY_OFF\<rparr>"
  obtain w' where w': "emq_msg_create (Some q) sz EMQ_ZEROCOPY_OFF w = Some (Some (brk w), w')" "msg_rep w' (brk w) ?m d"
    "bufs w' = (bufs w)(Suc (brk w) \<mapsto> map Some d)" "msgs w' = (msgs w)(brk w \<mapsto> ?m)"
    using emq_msg_create_rep [OF assms(1) refl assms(2-6)] by blast
  have fresh: "msgs w (brk w) = None" "bufs w (Suc (brk w)) = None" "q \<noteq> Suc (brk w)"
    using assms(1,2) by (auto simp: world_wf_def)
  have "emq_msg_release (Some (brk w)) w' = Some (w'\<lparr>bufs := (bufs w')(Suc (brk w) := None), msgs := (msgs w')(brk w := None)\<rparr>)"
    using emq_msg_release_owned [OF w'(2)] by (simp add: EMQ_ZEROCOPY_OFF_def)
  with w' fresh show ?thesis
    by (intro exI [of _ ?m] exI [of _ w']) (simp add: emq_msg_size_def fun_upd_idem)
qed

theorem message_create_release_witness:
  "let w = (demo_world [])\<lparr>bufs := [1 \<mapsto> [Some 1, Some 2, Some 3, None]]\<rparr>
   in \<exists>m w'. emq_msg_create (Some 1) 3 EMQ_ZEROCOPY_OFF w = Some (Some (brk w), w') \<and> msg_rep w' (brk w) m [1, 2, 3] \<and>
    m_data m \<notin> {None, Some 1} \<and> emq_msg_size (Some (brk w)) w' = Some 3 \<and>
    (\<exists>w2. emq_msg_release (Some (brk w)) w' = Some w2 \<and> msgs w2 = msgs w \<and> bufs w2 = bufs w)"
  unfolding Let_def
  by (rule message_create_release [where rest = "[None]"]) (simp_all add: world_wf_def demo_world_def)

text \<open>
  C26: a copy of a message has its bytes, tag and expiry in a block of its own, but not its
  \<open>zero_copy\<close> member, which no one sets: releasing the copy is undefined.
\<close>

theorem copied_message_cannot_be_released:
  assumes "world_wf w" and "msg_rep w p m d" and "length d < 2 ^ 63" and "alloc_ok w (brk w)" and "alloc_ok w (Suc (brk w))"
  shows "\<exists>m' w'. emq_msg_copy (Some p) w = Some (Some (brk w), w') \<and> msg_rep w' (brk w) m' d \<and>
    m_tag m' = m_tag m \<and> m_expire m' = m_expire m \<and> m_data m' \<noteq> m_data m \<and> msg_rep w' p m d \<and>
    emq_msg_release (Some (brk w)) w' = None"
proof -
  let ?m = "m\<lparr>m_data := Some (Suc (brk w)), m_zero_copy := None\<rparr>"
  obtain w' where w': "emq_msg_copy (Some p) w = Some (Some (brk w), w')" "msg_rep w' (brk w) ?m d"
    "bufs w' = (bufs w)(Suc (brk w) \<mapsto> map Some d)" "msgs w' p = Some m"
    using emq_msg_copy_rep [OF assms] by blast
  obtain q rest where q: "m_data m = Some q" "bufs w q = Some (map Some d @ rest)" "unat (m_size m) = length d"
    using assms(2) by (auto simp: msg_rep_def)
  have "q \<noteq> Suc (brk w)" using assms(1) q(2) by (auto simp: world_wf_def)
  then have "msg_rep w' p m d" "m_data ?m \<noteq> m_data m" using w'(3,4) q by (auto simp: msg_rep_def)
  moreover have "emq_msg_release (Some (brk w)) w' = None"
    using w'(2) by (intro emq_msg_release_copied [of _ _ ?m]) (simp_all add: msg_rep_def)
  ultimately show ?thesis using w'(1,2) by (intro exI [of _ ?m] exI [of _ w']) simp
qed

theorem copied_message_cannot_be_released_witness:
  "let m = \<lparr>m_data = Some 5, m_size = 2, m_tag = 3, m_expire = 9, m_zero_copy = Some 0\<rparr>;
       w = (demo_world [])\<lparr>msgs := [4 \<mapsto> m], bufs := [1 \<mapsto> demo_buffer, 5 \<mapsto> [Some 7, Some 8]], brk := 6\<rparr>
   in \<exists>m' w'. emq_msg_copy (Some 4) w = Some (Some (brk w), w') \<and> msg_rep w' (brk w) m' [7, 8] \<and>
    m_tag m' = m_tag m \<and> m_expire m' = m_expire m \<and> m_data m' \<noteq> m_data m \<and> msg_rep w' 4 m [7, 8] \<and>
    emq_msg_release (Some (brk w)) w' = None"
  unfolding Let_def
  by (rule copied_message_cannot_be_released) (simp_all add: world_wf_def demo_world_def msg_rep_def)

section \<open>The life of a client\<close>

text \<open>
  C27: with memory for its four blocks, connecting (over TCP or to a local socket) gives, whatever the system calls
  answer, either a client in order on its own connection, without error and with
  acknowledgements on, or the null pointer and the memory exactly as it was.
\<close>

theorem connect_gives_client_or_nothing:
  assumes "world_wf w" and "\<forall>i \<in> {brk w ..< brk w + 4}. alloc_ok w i" and "res \<in> {emq_tcp_connect addr w, emq_unix_connect w}"
  shows "\<exists>p w'. res = Some (p, w') \<and> world_wf w' \<and> (case p of
      None \<Rightarrow> same_memory w w'
    | Some a \<Rightarrow> a = brk w \<and> client_inv p w' [] [] \<and> (\<exists>c. clients w' a = Some c \<and> c_status c = EMQ_STATUS_OK \<and>
        c_error c = '''' \<and> c_noack c = 0 \<and> c_fd c = int (next_fd w) \<and>
        socks w' = (socks w)(c_fd c \<mapsto> peer w (c_fd c))))"
  using assms(3) tcp.open_client_ok [OF assms(1,2), of addr, folded connect_open_client]
    unix.open_client_ok [OF assms(1,2), folded connect_open_client] by blast

theorem connect_gives_client_or_nothing_witness:
  "let w = demo_world [] in \<exists>p w'. emq_unix_connect w = Some (p, w') \<and> world_wf w' \<and> (case p of
      None \<Rightarrow> same_memory w w'
    | Some a \<Rightarrow> a = brk w \<and> client_inv p w' [] [] \<and> (\<exists>c. clients w' a = Some c \<and> c_status c = EMQ_STATUS_OK \<and>
        c_error c = '''' \<and> c_noack c = 0 \<and> c_fd c = int (next_fd w) \<and>
        socks w' = (socks w)(c_fd c \<mapsto> peer w (c_fd c))))"
  unfolding Let_def demo_world_def
  by (rule connect_gives_client_or_nothing [OF demo_wf, where addr = "''localhost''"]) simp_all

text \<open>
  C28: when the memory runs out at one of the two subscription lists, \<open>emq_client_init\<close> frees the
  context and goes on to use it: every connect call is then undefined.
\<close>

theorem connect_without_list_memory:
  assumes "alloc_ok w (brk w)" and "alloc_ok w (Suc (brk w))"
    and "\<not> alloc_ok w (Suc (Suc (brk w))) \<or> \<not> alloc_ok w (Suc (Suc (Suc (brk w))))"
  shows "emq_client_init w = None \<and> emq_tcp_connect addr w = None \<and> emq_unix_connect w = None"
  using emq_client_init_no_list [OF assms] tcp.open_client_no_list [OF assms, of addr] unix.open_client_no_list [OF assms]
  by (simp add: connect_open_client)

theorem connect_without_list_memory_witness:
  "let w = (demo_world [])\<lparr>alloc_ok := \<lambda>i. i \<noteq> 7\<rparr>
   in emq_client_init w = None \<and> emq_tcp_connect ''localhost'' w = None \<and> emq_unix_connect w = None"
  unfolding Let_def by (rule connect_without_list_memory) (simp_all add: demo_world_def)

text \<open>
  C29: disconnecting closes the connection and frees exactly what the client owns: its context,
  its request buffer, its two lists with all their nodes, and every subscription.
\<close>

theorem disconnect_frees_client:
  assumes "client_ready a c b s w qs cs"
  shows "\<exists>w'. emq_disconnect (Some a) w = Some w' \<and> clients w' = (clients w)(a := None) \<and>
    socks w' = (socks w)(c_fd c := None) \<and> bufs w' = (bufs w)(the (c_request c) := None) \<and>
    list_hdrs w' = (list_hdrs w)(the (c_queue_subscriptions c) := None, the (c_channel_subscriptions c) := None) \<and>
    nodes w' = nodes w |` (- fst ` set (qs @ cs)) \<and> objs w' = objs w |` (- snd ` set (qs @ cs)) \<and> msgs w' = msgs w"
proof -
  have "clients w a = Some c" "client_lists c w qs cs" "client_buffer c w"
    using assms by (auto simp: client_ready_def session_def sess_ok_def client_buffer_def)
  then have "emq_disconnect (Some a) w = Some (without_client a c qs cs (sys_close (c_fd c) w))"
    by (rule emq_disconnect_rep)
  then show ?thesis by (simp add: without_client_def sys_close_def)
qed

theorem disconnect_frees_client_witness:
  "let w = demo_subscribed (demo_socket []); c = demo_client
   in \<exists>w'. emq_disconnect (Some 0) w = Some w' \<and> clients w' = (clients w)(0 := None) \<and>
    socks w' = (socks w)(c_fd c := None) \<and> bufs w' = (bufs w)(the (c_request c) := None) \<and>
    list_hdrs w' = (list_hdrs w)(the (c_queue_subscriptions c) := None, the (c_channel_subscriptions c) := None) \<and>
    nodes w' = nodes w |` (- fst ` set ([(4, 5 :: addr)] @ [(6, 7)])) \<and> objs w' = objs w |` (- snd ` set ([(4 :: addr, 5)] @ [(6, 7)])) \<and>
    msgs w' = msgs w"
  unfolding Let_def by (rule disconnect_frees_client [OF demo_subscribed_ready])

section \<open>The linked list\<close>

text \<open>
  C30: adding a value to a list is \<open>Cons\<close> on the sequence it represents; the new node is the
  only allocation, and other lists, the objects and the rest of the memory stay as they are.
\<close>

theorem list_add_is_Cons:
  assumes "list_rep w lp fr ns" and "world_wf w" and "alloc_ok w (brk w)"
  shows "\<exists>w'. emq_list_add_value (Some lp) v w = Some (EMQ_STATUS_OK, w') \<and> list_rep w' lp fr ((brk w, v) # ns) \<and>
    dom (nodes w') = insert (brk w) (dom (nodes w)) \<and> objs w' = objs w \<and> bufs w' = bufs w \<and> clients w' = clients w \<and>
    (\<forall>q. q \<noteq> lp \<longrightarrow> list_hdrs w' q = list_hdrs w q)"
proof -
  have "brk w \<notin> fst ` set ns" using list_rep_below(2) [OF assms(1,2)] by blast
  from emq_list_add_value_rep [OF assms(1) this assms(3)] obtain w' where w':
    "emq_list_add_value (Some lp) v w = Some (EMQ_STATUS_OK, w')" "list_rep w' lp fr ((brk w, v) # ns)"
    "list_frame lp (insert (brk w) (fst ` set ns)) (w\<lparr>brk := Suc (brk w)\<rparr>) w'"
    "dom (nodes w') = insert (brk w) (dom (nodes w))" by blast
  then show ?thesis
    using list_frame_fields [OF w'(3)] w'(3) unfolding list_frame_def by auto
qed

theorem list_add_is_Cons_witness:
  "let w = demo_subscribed (demo_socket [])
   in \<exists>w'. emq_list_add_value (Some 2) 7 w = Some (EMQ_STATUS_OK, w') \<and>
    list_rep w' 2 (Some emq_queue_subscription_list_free_handler) ((brk w, 7) # [(4, 5)]) \<and>
    dom (nodes w') = insert (brk w) (dom (nodes w)) \<and> objs w' = objs w \<and> bufs w' = bufs w \<and> clients w' = clients w \<and>
    (\<forall>q. q \<noteq> 2 \<longrightarrow> list_hdrs w' q = list_hdrs w q)"
  unfolding Let_def
  by (rule list_add_is_Cons) (use demo_subscribed_ready in \<open>auto simp: client_ready_def list_rep_def demo_subscribed_def demo_list_one_def\<close>)

text \<open>
  C31: deleting a node, wherever it stands, takes it out of the sequence; the node, and its value
  when the list has a free method, are freed, and nothing else is.
\<close>

theorem list_delete_removes:
  assumes "list_rep w lp (Some h) (xs @ (n, v) # ys)" and "objs w v \<noteq> None"
  shows "\<exists>w'. emq_list_delete_node (Some lp) (Some n) w = Some w' \<and> list_rep w' lp (Some h) (xs @ ys) \<and>
    objs w' = (objs w)(v := None) \<and> dom (nodes w') = dom (nodes w) - {n}"
proof -
  obtain w' where w': "emq_list_delete_node (Some lp) (Some n) w = Some w'" "list_rep w' lp (Some h) (xs @ ys)"
    "list_frame lp (fst ` set (xs @ (n, v) # ys)) (w\<lparr>objs := freed_objs (Some h) [v] w\<rparr>) w'"
    "dom (nodes w') = dom (nodes w) - {n}"
    using emq_list_delete_node_rep [OF assms(1)] assms(2) by blast
  have "objs w' = (objs w)(v := None)"
    using list_frame_fields [OF w'(3)] by (simp add: freed_objs_def restrict_complement_singleton_eq)
  with w' show ?thesis by blast
qed

theorem list_delete_removes_witness:
  "let w = demo_subscribed (demo_socket [])
   in \<exists>w'. emq_list_delete_node (Some 3) (Some 6) w = Some w' \<and>
    list_rep w' 3 (Some emq_channel_subscription_list_free_handler) ([] @ []) \<and>
    objs w' = (objs w)(7 := None) \<and> dom (nodes w') = dom (nodes w) - {6}"
  unfolding Let_def
  by (rule list_delete_removes) (simp_all add: list_rep_def demo_subscribed_def demo_list_one_def)

section \<open>The example programs\<close>



text \<open>
  C33: the threads of the example programs return the memory they take. In any environment with
  memory in which the kernel does not interrupt every \<open>writev\<close> from some point on, the thread
  connects, logs in, sends its messages and disconnects, or finds that it cannot connect, and
  leaves the memory of its process exactly as it was.
\<close>

theorem workers_leave_memory:
  assumes "world_wf w" and "\<forall>i. alloc_ok w i" and "writev_answers (peer w (int (next_fd w)))"
    and "bufs w lit = Some (map Some (cstrz TEST_MESSAGE))"
  shows "\<exists>w' w''. queue_worker (Some lit) w = Some w' \<and> same_memory w w' \<and>
    channel_worker (Some lit) w = Some w'' \<and> same_memory w w''"
  using workers_return(1) [OF assms] workers_return(2) [OF assms] by blast

theorem workers_leave_memory_witness:
  "let w = (demo_world [])\<lparr>brk := 5, bufs := [1 \<mapsto> demo_buffer, 4 \<mapsto> map Some (cstrz TEST_MESSAGE)]\<rparr>
   in \<exists>w' w''. queue_worker (Some 4) w = Some w' \<and> same_memory w w' \<and>
    channel_worker (Some 4) w = Some w'' \<and> same_memory w w''"
  unfolding Let_def
  by (rule workers_leave_memory)
    (auto simp: demo_world_def world_wf_def writev_answers_def demo_with_def demo_socket_def)

text \<open>
  C34: user, route and channel management of \<open>simple.c\<close> return, keep the client in order and leave in memory
  what they found (\<open>memory_kept\<close>): the lists they ask for, if they get any, are released with all their
  nodes and objects, and the message of the routes is released; of the client only the status, the
  error, the position and the request buffer have changed. This holds whichever allocations, reads and
  writes fail, if the kernel does not interrupt \<open>writev\<close> forever, the server closes in the end, and it sends
  no list body that ends inside a record or has 2 gigabytes or more (\<open>whole_lists\<close>). Only when memory runs
  out an object can be left: the list queries lose it when its node cannot be allocated.
\<close>

theorem managements_keep_client:
  assumes "managing a lit None w w"
  shows "(\<exists>w'. user_management (Some a) w = Some w' \<and> managing a lit None w w') \<and>
    (\<exists>left w'. route_management (Some lit) (Some a) w = Some (left, w') \<and> managing a lit None w w') \<and>
    (\<exists>w'. channel_management (Some a) w = Some w' \<and> managing a lit None w w')"
  using keeps_stateD [OF managements_keep(1) assms] keepsD [OF managements_keep(3) assms]
    keeps_stateD [OF managements_keep(2) assms] by blast

theorem managements_keep_client_witness:
  "let w = (demo_subscribed (demo_socket [200, 1]))\<lparr>brk := 40, bufs := [1 \<mapsto> demo_buffer, 30 \<mapsto> map Some (cstrz test_message)]\<rparr>
   in (\<exists>w'. user_management (Some 0) w = Some w' \<and> managing 0 30 None w w') \<and>
    (\<exists>left w'. route_management (Some 30) (Some 0) w = Some (left, w') \<and> managing 0 30 None w w') \<and>
    (\<exists>w'. channel_management (Some 0) w = Some w' \<and> managing 0 30 None w w')"
  unfolding Let_def
proof (rule managements_keep_client)
  show "managing 0 30 None ((demo_subscribed (demo_socket [200, 1]))\<lparr>brk := 40,
      bufs := [1 \<mapsto> demo_buffer, 30 \<mapsto> map Some (cstrz test_message)]\<rparr>) ((demo_subscribed (demo_socket [200, 1]))\<lparr>brk := 40,
      bufs := [1 \<mapsto> demo_buffer, 30 \<mapsto> map Some (cstrz test_message)]\<rparr>)"
    (is "managing 0 30 None ?w ?w")
  proof -
    have "session 0 demo_client demo_buffer (demo_socket [200, 1]) ?w" by (simp add: session_def demo_subscribed_def)
    moreover have "world_wf ?w" by (simp add: world_wf_def demo_subscribed_def)
    moreover have "client_lists demo_client ?w [(4, 5)] [(6, 7)]"
      by (simp add: client_lists_def list_rep_def demo_subscribed_def demo_list_one_def is_queue_sub_def is_channel_sub_def
          demo_queue_sub_def demo_channel_sub_def)
    ultimately have "client_ready 0 demo_client demo_buffer (demo_socket [200, 1]) ?w [(4, 5)] [(6, 7)]"
      by (simp add: client_ready_def)
    note ready = client_readyD [OF this]
    have "clients ?w 0 \<noteq> None" by (simp add: demo_subscribed_def)
    then have "memory_kept 0 ?w (sess 0 demo_client demo_buffer (demo_socket [200, 1]) ?w)"
      unfolding ready(2) by (rule memory_kept_refl)
    with ready(1) have "managing 0 30 None ?w (sess 0 demo_client demo_buffer (demo_socket [200, 1]) ?w)"
      by (intro managingI)
        (auto simp: whole_lists_short sizeof_header_def writev_answers_def demo_socket_def)
    then show ?thesis by (simp only: ready(2))
  qed
qed

text \<open>
  C35: in \<open>queue_management\<close> of \<open>simple.c\<close> the loop over \<open>queue-2\<close> goes on exactly while
  \<open>emq_queue_pop\<close> gives no message: the tag of a message it has got is read after the message was
  released.
\<close>

theorem pop_uses_freed_message:
  "pop_message client w = Some w' \<longleftrightarrow> emq_queue_pop client (ascii ''queue-2'') 1000 w = Some (None, w')"
  by (rule pop_message_iff)

text \<open>
  C36: the loop of \<open>parse_args\<close> is the set of options it stands for. It gives a configuration exactly
  when what follows a numeric option is nowhere a number that does not fit an \<open>int\<close> (what is no number
  counts as 0, as \<open>atoi\<close> takes it), \<open>--help\<close> is nowhere and \<open>-h\<close> is not last; and then the one in which every
  option has the value after its last occurrence that is not the last argument, be that the value of another
  option. An option with a value is ignored in the last place.
\<close>

theorem parse_args_reference:
  "parse_args args cfg = Some (Inr cfg') \<longleftrightarrow> numbers_fit args \<and> \<not> asks_usage args \<and> cfg' = configured args cfg"
  by (rule parse_args_iff)



text \<open>
  C38: every outcome of \<open>init_message\<close> of the benchmark. A size below -1, or no memory, ends the
  program with status -1; -1 writes in front of an empty block and the largest \<open>int\<close> overflows, which is
  undefined; otherwise the block has as many letters and digits as asked for and a final NUL.
\<close>

theorem init_message_decides:
  assumes "is_int (cfg_msg_size cfg)"
  shows "init_message rand cfg w = (
    if cfg_msg_size cfg = 2 ^ 31 - 1 then None
    else if cfg_msg_size cfg < -1 \<or> \<not> alloc_ok w (brk w) then Some (Inl (-1), w\<lparr>brk := Suc (brk w)\<rparr>)
    else if cfg_msg_size cfg = -1 then None
    else Some (Inr (brk w), w\<lparr>brk := Suc (brk w), bufs := (bufs w)(brk w \<mapsto>
      map Some (random_text rand (nat (cfg_msg_size cfg)) @ [0]))\<rparr>)) \<and>
    (\<forall>b \<in> set (random_text rand (nat (cfg_msg_size cfg))). alphanumeric b)"
  using init_message_cases [OF assms] random_text_alphanumeric by blast

theorem init_message_decides_witness:
  "init_message id (init_config\<lparr>cfg_msg_size := 2\<rparr>) (demo_world []) = Some (Inr 4, (demo_world [])\<lparr>brk := 5,
      bufs := [1 \<mapsto> demo_buffer, 4 \<mapsto> map Some [97, 98, 0]]\<rparr>)"
proof -
  have "is_int (cfg_msg_size (init_config\<lparr>cfg_msg_size := 2\<rparr>))" by (simp add: is_int_def)
  note init_message_decides [OF this, of id "demo_world []"]
  moreover have "random_text id 2 = [97, 98]" by (simp add: random_text_def random_char_def numeral_2_eq_2)
  ultimately show ?thesis by (simp add: demo_world_def)
qed

text \<open>
  C39: what the benchmark leaves. With memory, a kernel that does not interrupt \<open>writev\<close> forever and a
  server that closes in the end, \<open>setup_server\<close> and \<open>cleanup_server\<close> return with the memory they found, whatever
  the server answers. A thread that has the message in its block does so when it cannot connect or all
  its pushes succeed; when one fails it ends there, and its client and its message stay allocated.
\<close>

theorem benchmark_leaves:
  assumes "world_wf w" and "\<forall>i. alloc_ok w i" and "writev_answers (peer w (int (next_fd w)))"
    and "messages_per_client cfg = Some k" and "bufs w p = Some (map Some d @ rest)"
    and "int (length d) = cfg_msg_size cfg" and "is_int (cfg_msg_size cfg)"
  shows "(\<exists>left w'. setup_server cfg w = Some (left, w') \<and> same_memory w w') \<and>
    (\<exists>left w'. cleanup_server cfg w = Some (left, w') \<and> same_memory w w') \<and>
    (\<exists>w'. worker cfg (Some p) w = Some w' \<and> (same_memory w w' \<or>
      (\<exists>v. push_messages (nat k) (Some (brk w)) (Some (brk w + 4)) v = Some (False, w') \<and>
        clients w' (brk w) \<noteq> None \<and> msgs w' (brk w + 4) \<noteq> None)))"
proof -
  have "length d = nat (cfg_msg_size cfg)" "0 \<le> cfg_msg_size cfg" using assms(6) by linarith+
  from servers_done [OF assms(1-3), of cfg] worker_done [OF assms(1-5) this assms(7)] show ?thesis by blast
qed

theorem benchmark_leaves_witness:
  "let w = (demo_world [])\<lparr>brk := 5, bufs := [1 \<mapsto> demo_buffer, 4 \<mapsto> map Some [97, 98, 0]]\<rparr>;
       cfg = init_config\<lparr>cfg_msg_size := 2\<rparr>
   in (\<exists>left w'. setup_server cfg w = Some (left, w') \<and> same_memory w w') \<and>
    (\<exists>left w'. cleanup_server cfg w = Some (left, w') \<and> same_memory w w') \<and>
    (\<exists>w'. worker cfg (Some 4) w = Some w' \<and> (same_memory w w' \<or>
      (\<exists>v. push_messages (nat 2000) (Some (brk w)) (Some (brk w + 4)) v = Some (False, w') \<and>
        clients w' (brk w) \<noteq> None \<and> msgs w' (brk w + 4) \<noteq> None)))"
  unfolding Let_def
  by (rule benchmark_leaves [where d = "[97, 98]" and rest = "[Some 0]"])
    (auto simp: demo_world_def world_wf_def writev_answers_def demo_with_def demo_socket_def messages_per_client_def
      init_config_def is_int_def)

text \<open>
  C40: the benchmark comes to its end, and nothing it does is undefined, if memory does not run out, the
  kernel does not interrupt \<open>writev\<close> forever, the numbers of the command line fit, the message size is neither
  negative nor the largest \<open>int\<close>, the total number of bytes is an \<open>int\<close>, and the servers close their
  connections in the end (until they do, \<open>read\<close> waits in the code). Whatever the servers and the other system
  calls do, \<open>main\<close> leaves with status 0 or -1 after all its threads, run one after the other. It changes
  no block of memory there was before; when it is asked for the usage it does nothing else and leaves with 0;
  and otherwise it leaves with 0 only when all threads could be made.
\<close>

theorem benchmark_comes_to_its_end:
  assumes "roomy w" and "\<forall>j h. create j = Some h \<longrightarrow> length h = 8" and "numbers_fit args"
    and "cfg = configured args init_config" and "0 \<le> cfg_msg_size cfg" and "cfg_msg_size cfg < 2 ^ 31 - 1"
    and "is_int (cfg_messages cfg * cfg_msg_size cfg)"
  shows "\<exists>code w'. benchmark_main rand create workers_in_turn args w = Some (code, w') \<and> code \<in> {0, -1} \<and>
    undisturbed w w' \<and> (asks_usage args \<longrightarrow> code = 0 \<and> w' = w) \<and>
    (code = 0 \<and> \<not> asks_usage args \<longrightarrow> (\<forall>i < nat (cfg_clients cfg). create i \<noteq> None))"
  using assms by (rule benchmark_ends)

theorem benchmark_comes_to_its_end_witness:
  "\<exists>code w'. benchmark_main id (\<lambda>i. if i < 3 then Some (replicate 8 7) else None) workers_in_turn
     [''-c'', ''3'', ''-m'', ''12''] (demo_world []) = Some (code, w') \<and> code \<in> {0, -1} \<and>
    undisturbed (demo_world []) w' \<and> (asks_usage [''-c'', ''3'', ''-m'', ''12''] \<longrightarrow> code = 0 \<and> w' = demo_world []) \<and>
    (code = 0 \<and> \<not> asks_usage [''-c'', ''3'', ''-m'', ''12''] \<longrightarrow>
      (\<forall>i < nat (cfg_clients (configured [''-c'', ''3'', ''-m'', ''12''] init_config)).
        (if i < 3 then Some (replicate 8 (7 :: byte)) else None) \<noteq> None))"
proof (rule benchmark_comes_to_its_end [OF _ _ _ refl])
  show "roomy (demo_world [])"
    by (auto simp: roomy_def demo_world_def demo_with_def demo_socket_def world_wf_def writev_answers_def)
  have number: "atoi ''3'' = Some 3" "atoi ''12'' = Some 12"
    by (simp_all add: atoi_def digits_def isspace_def isdigit_def is_int_def of_char_def)
  then show "numbers_fit [''-c'', ''3'', ''-m'', ''12'']" by (simp add: numeric_options_def)
  have cfg: "configured [''-c'', ''3'', ''-m'', ''12''] init_config = init_config\<lparr>cfg_clients := 3, cfg_messages := 12\<rparr>"
    using number by (simp add: configured_def number_value_def init_config_def)
  show "0 \<le> cfg_msg_size (configured [''-c'', ''3'', ''-m'', ''12''] init_config)"
    "cfg_msg_size (configured [''-c'', ''3'', ''-m'', ''12''] init_config) < 2 ^ 31 - 1"
    "is_int (cfg_messages (configured [''-c'', ''3'', ''-m'', ''12''] init_config) *
       cfg_msg_size (configured [''-c'', ''3'', ''-m'', ''12''] init_config))"
    unfolding cfg by (simp_all add: init_config_def is_int_def)
qed auto

end
